(* ===== verification/Prelude.thy ===== *)
theory Prelude
  imports Main "HOL-Library.Word" "HOL-Library.Char_ord" "HOL-Library.List_Lexorder"
    "HOL-Library.Sublist" "HOL-Library.Signed_Division"
begin

section \<open>Prelude: the parts of Rust and its standard library the sources use\<close>

text \<open>
  A Rust \<open>String\<close> or \<open>&str\<close> is the list of its UTF-8 bytes, a \<^typ>\<open>string\<close>: one
  \<^typ>\<open>char\<close> is one byte, \<open>s.len()\<close> is \<open>length s\<close>, and the byte-wise operations
  (\<open>starts_with\<close>, \<open>find\<close>, \<open>split\<close>, \<open>to_ascii_lowercase\<close>) are list operations.
  The operations that speak of characters (\<open>trim\<close>, \<open>is_whitespace\<close>, \<open>chars\<close>) are
  written over the encodings of the Unicode characters concerned, so on valid UTF-8 they are
  the standard library's.

  Machine integers are words: \<open>u32\<close>, \<open>u64\<close> and \<open>usize\<close> unsigned, \<open>i32\<close> and \<open>i64\<close>
  read through \<^const>\<open>sint\<close>; arithmetic wraps, as in a release build (no profile of the
  workspace turns overflow checks on).

  A \<open>Result<T, E>\<close> is a sum, \<open>Inl\<close> the error. An \<open>anyhow::Error\<close> is its
  outermost message, which is what \<open>to_string\<close> and \<open>{error}\<close> print;
  \<open>with_context\<close> replaces it.
\<close>

named_theorems rust_simps \<open>equations that unfold the standard library's small operations\<close>
named_theorems res_splits \<open>case splits for results, options and conditionals\<close>

type_synonym u8 = "8 word"
type_synonym u32 = "32 word"
type_synonym u64 = "64 word"
type_synonym usize = "64 word"
type_synonym i32 = "32 word"
type_synonym i64 = "64 word"
type_synonym 'a result = "string + 'a"
type_synonym env = "string \<Rightarrow> string option"

lemmas [res_splits] = if_splits option.splits sum.splits list.splits prod.splits

subsection \<open>Results and options\<close>

text \<open>The \<open>?\<close> operator: stop at an error, go on with the value.\<close>

definition and_then :: "'e + 'a \<Rightarrow> ('a \<Rightarrow> 'e + 'b) \<Rightarrow> 'e + 'b" where
  "and_then r f = (case r of Inl e \<Rightarrow> Inl e | Inr x \<Rightarrow> f x)"

definition with_context :: "string \<Rightarrow> 'a result \<Rightarrow> 'a result" where
  "with_context msg r = (case r of Inl _ \<Rightarrow> Inl msg | Inr x \<Rightarrow> Inr x)"

definition ok_or :: "'e \<Rightarrow> 'a option \<Rightarrow> 'e + 'a" where
  "ok_or e x = (case x of None \<Rightarrow> Inl e | Some y \<Rightarrow> Inr y)"

definition or_else :: "'a option \<Rightarrow> 'a option \<Rightarrow> 'a option" where
  "or_else x y = (case x of None \<Rightarrow> y | Some _ \<Rightarrow> x)"

definition unwrap_or :: "'a \<Rightarrow> 'a option \<Rightarrow> 'a" where
  "unwrap_or d x = (case x of None \<Rightarrow> d | Some y \<Rightarrow> y)"

definition opt_filter :: "('a \<Rightarrow> bool) \<Rightarrow> 'a option \<Rightarrow> 'a option" where
  "opt_filter P x = (case x of Some y \<Rightarrow> if P y then Some y else None | None \<Rightarrow> None)"

text \<open>A guard \<open>if c { return Err(e) }\<close>.\<close>

definition ensure :: "bool \<Rightarrow> 'e \<Rightarrow> 'e + unit" where
  "ensure c e = (if c then Inr () else Inl e)"

text \<open>\<open>iter.map(f).collect::<Result<Vec<_>>>()\<close>: the first error wins.\<close>

fun collect_results :: "('a \<Rightarrow> 'e + 'b) \<Rightarrow> 'a list \<Rightarrow> 'e + 'b list" where
  "collect_results f [] = Inr []"
| "collect_results f (x # xs) =
     and_then (f x) (\<lambda>y. and_then (collect_results f xs) (\<lambda>ys. Inr (y # ys)))"

text \<open>A loop \<open>for x in xs { check(x)?; }\<close>.\<close>

fun for_each :: "('a \<Rightarrow> 'e + unit) \<Rightarrow> 'a list \<Rightarrow> 'e + unit" where
  "for_each f [] = Inr ()"
| "for_each f (x # xs) = and_then (f x) (\<lambda>_. for_each f xs)"

text \<open>A sequence of guards \<open>if c { return Err(e) }\<close>: the first that fails ends it.\<close>

definition checks :: "('e + unit) list \<Rightarrow> 'e + unit" where
  "checks rs = for_each (\<lambda>r. r) rs"

text \<open>A text in single quotes, as the messages print names.\<close>

definition quoted :: "string \<Rightarrow> string" where
  "quoted s = CHR 0x27 # s @ [CHR 0x27]"

lemma and_then_simps [simp]:
  "and_then (Inl e) f = Inl e" "and_then (Inr x) f = f x"
  by (simp_all add: and_then_def)

lemma and_then_Inr_iff: "and_then r f = Inr y \<longleftrightarrow> (\<exists>x. r = Inr x \<and> f x = Inr y)"
  by (cases r) auto

lemma and_then_Inl_iff:
  "and_then r f = Inl e \<longleftrightarrow> r = Inl e \<or> (\<exists>x. r = Inr x \<and> f x = Inl e)"
  by (cases r) auto

lemma with_context_simps [simp]:
  "with_context m (Inl e) = Inl m" "with_context m (Inr x) = Inr x"
  by (simp_all add: with_context_def)

lemma with_context_Inr_iff: "with_context m r = Inr x \<longleftrightarrow> r = Inr x"
  by (cases r) auto

lemma ok_or_simps [simp]: "ok_or e None = Inl e" "ok_or e (Some x) = Inr x"
  by (simp_all add: ok_or_def)

lemma ok_or_Inr_iff: "ok_or e x = Inr y \<longleftrightarrow> x = Some y"
  by (cases x) auto

lemma or_else_simps [simp]: "or_else None y = y" "or_else (Some x) y = Some x"
  by (simp_all add: or_else_def)

lemma unwrap_or_simps [simp]: "unwrap_or d None = d" "unwrap_or d (Some x) = x"
  by (simp_all add: unwrap_or_def)

lemma opt_filter_simps [simp]:
  "opt_filter P None = None" "opt_filter P (Some x) = (if P x then Some x else None)"
  by (simp_all add: opt_filter_def)

lemma opt_filter_Some_iff: "opt_filter P x = Some y \<longleftrightarrow> x = Some y \<and> P y"
  by (cases x) auto

lemma ensure_Inr_iff: "ensure c e = Inr u \<longleftrightarrow> c"
  by (simp add: ensure_def)

lemma ensure_Inl_iff: "ensure c e = Inl e' \<longleftrightarrow> \<not> c \<and> e' = e"
  by (auto simp: ensure_def)

lemma ensure_simps [simp]: "ensure True e = Inr ()" "ensure False e = Inl e"
  by (simp_all add: ensure_def)

lemma for_each_Inr_iff: "for_each f xs = Inr u \<longleftrightarrow> (\<forall>x \<in> set xs. f x = Inr ())"
  by (induction xs) (auto simp: and_then_Inr_iff)

lemma collect_results_Inr_iff:
  "collect_results f xs = Inr ys \<longleftrightarrow> list_all2 (\<lambda>x y. f x = Inr y) xs ys"
  by (induction xs arbitrary: ys) (auto simp: and_then_Inr_iff list_all2_Cons1)

lemma checks_Inr_iff: "checks rs = Inr u \<longleftrightarrow> (\<forall>r \<in> set rs. r = Inr ())"
  by (simp add: checks_def for_each_Inr_iff)

lemma set_map_filter: "set (List.map_filter f xs) = {y. \<exists>x \<in> set xs. f x = Some y}"
  by (induction xs) (auto simp: List.map_filter_simps split: option.splits)

lemma find_SomeD: "find P xs = Some x \<Longrightarrow> x \<in> set xs \<and> P x"
  by (auto simp: find_Some_iff)

lemmas result_iffs = checks_Inr_iff and_then_Inr_iff with_context_Inr_iff ok_or_Inr_iff opt_filter_Some_iff
  ensure_Inr_iff for_each_Inr_iff

text \<open>Operations with effects on a state \<open>'s\<close>, in a row, until the first error.\<close>

definition then_io :: "('s \<Rightarrow> unit result \<times> 's) \<Rightarrow> ('s \<Rightarrow> unit result \<times> 's) \<Rightarrow> 's \<Rightarrow> unit result \<times> 's" where
  "then_io first rest s = (case first s of (Inl e, s') \<Rightarrow> (Inl e, s') | (Inr _, s') \<Rightarrow> rest s')"

definition done_io :: "'s \<Rightarrow> unit result \<times> 's" where
  "done_io s = (Inr (), s)"

lemma then_io_Inr: "then_io f g s = (Inr u, s') \<longleftrightarrow> (\<exists>s1. f s = (Inr (), s1) \<and> g s1 = (Inr u, s'))"
  by (auto simp: then_io_def split: prod.splits sum.splits)

subsection \<open>White space and trimming\<close>

text \<open>
  The UTF-8 encodings of the characters with the Unicode property \<open>White_Space\<close>, which is
  what \<open>char::is_whitespace\<close> and \<open>str::trim\<close> test.
\<close>

definition white_space :: "string list" where
  "white_space =
     [[CHR 0x20], [CHR 0x09], [CHR 0x0A], [CHR 0x0B], [CHR 0x0C], [CHR 0x0D],
      [CHR 0xC2, CHR 0x85], [CHR 0xC2, CHR 0xA0], [CHR 0xE1, CHR 0x9A, CHR 0x80],
      [CHR 0xE2, CHR 0x80, CHR 0x80], [CHR 0xE2, CHR 0x80, CHR 0x81],
      [CHR 0xE2, CHR 0x80, CHR 0x82], [CHR 0xE2, CHR 0x80, CHR 0x83],
      [CHR 0xE2, CHR 0x80, CHR 0x84], [CHR 0xE2, CHR 0x80, CHR 0x85],
      [CHR 0xE2, CHR 0x80, CHR 0x86], [CHR 0xE2, CHR 0x80, CHR 0x87],
      [CHR 0xE2, CHR 0x80, CHR 0x88], [CHR 0xE2, CHR 0x80, CHR 0x89],
      [CHR 0xE2, CHR 0x80, CHR 0x8A], [CHR 0xE2, CHR 0x80, CHR 0xA8],
      [CHR 0xE2, CHR 0x80, CHR 0xA9], [CHR 0xE2, CHR 0x80, CHR 0xAF],
      [CHR 0xE2, CHR 0x81, CHR 0x9F], [CHR 0xE3, CHR 0x80, CHR 0x80]]"

text \<open>The length of the member of \<open>ws\<close> that \<open>s\<close> starts with, 0 if there is none.\<close>

fun lead_len :: "string list \<Rightarrow> string \<Rightarrow> nat" where
  "lead_len [] s = 0"
| "lead_len (w # ws) s = (if w \<noteq> [] \<and> prefix w s then length w else lead_len ws s)"

function strip_lead :: "string list \<Rightarrow> string \<Rightarrow> string" where
  "strip_lead ws s =
     (if lead_len ws s = 0 \<or> s = [] then s else strip_lead ws (drop (lead_len ws s) s))"
  by pat_completeness auto
termination
  by (relation "measure (\<lambda>(ws, s). length s)") auto

declare strip_lead.simps [simp del]

definition trim_start :: "string \<Rightarrow> string" where
  "trim_start s = strip_lead white_space s"

definition trim_end :: "string \<Rightarrow> string" where
  "trim_end s = rev (strip_lead (map rev white_space) (rev s))"

definition trim :: "string \<Rightarrow> string" where
  "trim s = trim_end (trim_start s)"

text \<open>\<open>s.trim().is_empty()\<close>.\<close>

definition blank :: "string \<Rightarrow> bool" where
  "blank s \<longleftrightarrow> trim s = []"

text \<open>\<open>s.chars().filter(|c| !c.is_whitespace()).collect()\<close>.\<close>

function drop_white_space :: "string \<Rightarrow> string" where
  "drop_white_space s =
     (case s of [] \<Rightarrow> []
      | c # cs \<Rightarrow> (if lead_len white_space s = 0 then c # drop_white_space cs
                 else drop_white_space (drop (lead_len white_space s) s)))"
  by pat_completeness auto
termination
  by (relation "measure length") auto

declare drop_white_space.simps [simp del]

subsection \<open>Byte-wise string operations\<close>

definition byte :: "char \<Rightarrow> nat" where
  "byte c = of_char c"

definition ascii_lower :: "char \<Rightarrow> char" where
  "ascii_lower c = (if 65 \<le> byte c \<and> byte c \<le> 90 then char_of (byte c + 32) else c)"

definition ascii_upper :: "char \<Rightarrow> char" where
  "ascii_upper c = (if 97 \<le> byte c \<and> byte c \<le> 122 then char_of (byte c - 32) else c)"

definition to_ascii_lowercase :: "string \<Rightarrow> string" where
  "to_ascii_lowercase = map ascii_lower"

definition eq_ignore_ascii_case :: "string \<Rightarrow> string \<Rightarrow> bool" where
  "eq_ignore_ascii_case a b \<longleftrightarrow> to_ascii_lowercase a = to_ascii_lowercase b"

definition starts_with :: "string \<Rightarrow> string \<Rightarrow> bool" where
  "starts_with p s \<longleftrightarrow> prefix p s"

definition ends_with :: "string \<Rightarrow> string \<Rightarrow> bool" where
  "ends_with p s \<longleftrightarrow> suffix p s"

definition strip_prefix :: "string \<Rightarrow> string \<Rightarrow> string option" where
  "strip_prefix p s = (if prefix p s then Some (drop (length p) s) else None)"

text \<open>\<open>s.find(pat)\<close>: the byte position of the first occurrence.\<close>

fun find_sub :: "string \<Rightarrow> string \<Rightarrow> nat option" where
  "find_sub pat [] = (if pat = [] then Some 0 else None)"
| "find_sub pat (c # cs) =
     (if prefix pat (c # cs) then Some 0 else map_option Suc (find_sub pat cs))"

definition contains_sub :: "string \<Rightarrow> string \<Rightarrow> bool" where
  "contains_sub pat s \<longleftrightarrow> find_sub pat s \<noteq> None"

text \<open>\<open>s.split(c)\<close> for one ASCII character.\<close>

fun split_on :: "char \<Rightarrow> string \<Rightarrow> string list" where
  "split_on c [] = [[]]"
| "split_on c (x # xs) =
     (if x = c then [] # split_on c xs
      else (case split_on c xs of [] \<Rightarrow> [[x]] | y # ys \<Rightarrow> (x # y) # ys))"

fun split_once :: "char \<Rightarrow> string \<Rightarrow> (string \<times> string) option" where
  "split_once c [] = None"
| "split_once c (x # xs) =
     (if x = c then Some ([], xs)
      else map_option (\<lambda>(a, b). (x # a, b)) (split_once c xs))"

definition replace_char :: "char \<Rightarrow> string \<Rightarrow> string \<Rightarrow> string" where
  "replace_char c r s = concat (map (\<lambda>x. if x = c then r else [x]) s)"

fun join :: "string \<Rightarrow> string list \<Rightarrow> string" where
  "join sep [] = []"
| "join sep [x] = x"
| "join sep (x # y # ys) = x @ sep @ join sep (y # ys)"

text \<open>The idiom \<open>raw.split(',').map(str::trim).filter(|v| !v.is_empty())\<close>.\<close>

definition split_trimmed :: "char \<Rightarrow> string \<Rightarrow> string list" where
  "split_trimmed c s = filter (\<lambda>v. v \<noteq> []) (map trim (split_on c s))"

text \<open>\<open>trim_matches\<close> with a character, and \<open>Iterator::find_map\<close>.\<close>

definition trim_matches :: "char \<Rightarrow> string \<Rightarrow> string" where
  "trim_matches c s = rev (dropWhile ((=) c) (rev (dropWhile ((=) c) s)))"

fun find_map :: "('a \<Rightarrow> 'b option) \<Rightarrow> 'a list \<Rightarrow> 'b option" where
  "find_map f [] = None"
| "find_map f (x # xs) = (case f x of Some y \<Rightarrow> Some y | None \<Rightarrow> find_map f xs)"

subsection \<open>Characters of a UTF-8 text\<close>

text \<open>A byte \<open>10xxxxxx\<close> continues a character.\<close>

definition continuation :: "char \<Rightarrow> bool" where
  "continuation c \<longleftrightarrow> 128 \<le> byte c \<and> byte c < 192"

function chars :: "string \<Rightarrow> string list" where
  "chars [] = []"
| "chars (c # cs) = (c # takeWhile continuation cs) # chars (dropWhile continuation cs)"
  by pat_completeness auto

termination chars
  by (relation "measure length") (auto simp: less_Suc_eq_le length_dropWhile_le)

subsection \<open>Laws of trimming\<close>

lemma split_on_not_Nil [simp]: "split_on c s \<noteq> []"
  by (cases s) (auto split: list.splits)

lemma split_on_none: "c \<notin> set s \<Longrightarrow> split_on c s = [s]"
  by (induction s) auto

lemma split_on_append: "c \<notin> set a \<Longrightarrow> split_on c (a @ c # b) = a # split_on c b"
  by (induction a) auto

lemma split_once_append: "c \<notin> set a \<Longrightarrow> split_once c (a @ c # b) = Some (a, b)"
  by (induction a) auto

lemma lead_len_le: "lead_len ws s \<le> length s"
  by (induction ws) (auto simp: prefix_length_le)

lemma lead_len_0_iff: "lead_len ws s = 0 \<longleftrightarrow> (\<forall>w \<in> set ws. w \<noteq> [] \<longrightarrow> \<not> prefix w s)"
  by (induction ws) auto

lemma lead_len_Nil [simp]: "lead_len ws [] = 0"
  by (induction ws) auto

lemma strip_lead_Nil [simp]: "strip_lead ws [] = []"
  by (simp add: strip_lead.simps)

lemma strip_lead_stop: "lead_len ws s = 0 \<Longrightarrow> strip_lead ws s = s"
  by (simp add: strip_lead.simps)

lemma lead_len_strip_lead [simp]: "lead_len ws (strip_lead ws s) = 0"
proof (induction ws s rule: strip_lead.induct)
  case (1 ws s)
  show ?case
  proof (cases "lead_len ws s = 0 \<or> s = []")
    case True
    then show ?thesis by (auto simp: strip_lead.simps [of ws s])
  next
    case False
    with 1 show ?thesis by (simp add: strip_lead.simps [of ws s])
  qed
qed

lemma strip_lead_idem [simp]: "strip_lead ws (strip_lead ws s) = strip_lead ws s"
  by (simp add: strip_lead_stop)

lemma suffix_strip_lead: "suffix (strip_lead ws s) s"
proof (induction ws s rule: strip_lead.induct)
  case (1 ws s)
  show ?case
  proof (cases "lead_len ws s = 0 \<or> s = []")
    case True
    then show ?thesis by (auto simp: strip_lead.simps [of ws s])
  next
    case False
    with 1 have "suffix (strip_lead ws (drop (lead_len ws s) s)) (drop (lead_len ws s) s)"
      by simp
    with False show ?thesis
      by (simp add: strip_lead.simps [of ws s]) (meson suffix_drop suffix_order.trans)
  qed
qed

lemma prefix_trim_end: "prefix (trim_end s) s"
  using suffix_strip_lead [of "map rev white_space" "rev s"]
  by (simp add: trim_end_def suffix_to_prefix)

lemma trim_end_idem [simp]: "trim_end (trim_end s) = trim_end s"
  by (simp add: trim_end_def)

lemma lead_len_trim_start [simp]: "lead_len white_space (trim_start s) = 0"
  by (simp add: trim_start_def)

lemma lead_len_trim [simp]: "lead_len white_space (trim s) = 0"
proof -
  have "prefix (trim s) (trim_start s)"
    by (simp add: trim_def prefix_trim_end)
  then show ?thesis
    using lead_len_trim_start [of s]
    unfolding lead_len_0_iff by (meson prefix_order.trans)
qed

lemma trim_idem [simp]: "trim (trim s) = trim s"
proof -
  have "trim_start (trim s) = trim s"
    by (simp add: trim_start_def strip_lead_stop)
  then show ?thesis by (simp add: trim_def)
qed

lemma trim_Nil [simp]: "trim [] = []"
  by (simp add: trim_def trim_start_def trim_end_def)

lemma length_trim_le: "length (trim s) \<le> length s"
proof -
  have "length (trim s) \<le> length (trim_start s)"
    by (simp add: trim_def prefix_trim_end prefix_length_le)
  also have "\<dots> \<le> length s"
    by (simp add: trim_start_def suffix_strip_lead suffix_length_le)
  finally show ?thesis .
qed

text \<open>A string that neither starts nor ends with white space is its own trimming.\<close>

definition trimmed :: "string \<Rightarrow> bool" where
  "trimmed s \<longleftrightarrow> trim s = s"

lemma trimmed_trim [simp]: "trimmed (trim s)"
  by (simp add: trimmed_def)

lemma white_space_nonempty: "w \<in> set white_space \<Longrightarrow> w \<noteq> []"
  by (auto simp: white_space_def)

lemma lead_len_0_hd:
  "s \<noteq> [] \<Longrightarrow> \<forall>w \<in> set ws. hd w \<noteq> hd s \<Longrightarrow> lead_len ws s = 0"
  unfolding lead_len_0_iff by (metis hd_append2 prefix_def)

text \<open>No white space at either end: nothing to trim.\<close>

lemma trim_id:
  assumes "s \<noteq> []" "\<forall>w \<in> set white_space. hd w \<noteq> hd s" "\<forall>w \<in> set white_space. last w \<noteq> last s"
  shows "trim s = s"
proof -
  have "\<forall>w \<in> set (map rev white_space). hd w \<noteq> hd (rev s)"
    using assms white_space_nonempty by (auto simp: hd_rev)
  with assms have "lead_len (map rev white_space) (rev s) = 0"
    by (intro lead_len_0_hd) auto
  with assms show ?thesis
    by (simp add: trim_def trim_start_def trim_end_def strip_lead_stop lead_len_0_hd)
qed

text \<open>An ASCII separator that is part of no white space keeps the ends apart.\<close>

lemma lead_len_sep:
  assumes "lead_len ws a = 0" "\<forall>w \<in> set ws. c \<notin> set w"
  shows "lead_len ws (a @ c # b) = 0"
  unfolding lead_len_0_iff
proof (intro ballI impI notI)
  fix w assume w: "w \<in> set ws" "w \<noteq> []" "prefix w (a @ c # b)"
  show False
  proof (cases "length w \<le> length a")
    case True
    with w(3) have "prefix w a" by (metis prefix_length_prefix prefixI)
    with assms(1) w show False by (auto simp: lead_len_0_iff)
  next
    case False
    then have "c = w ! length a"
      using w(3) by (metis nth_append_length not_le prefix_def nth_append)
    with False assms(2) w(1) show False by auto
  qed
qed

lemma trimmed_ends:
  "trimmed s \<Longrightarrow> lead_len white_space s = 0"
  "trimmed s \<Longrightarrow> lead_len (map rev white_space) (rev s) = 0"
proof -
  assume t: "trimmed s"
  show "lead_len white_space s = 0" using t by (metis lead_len_trim trimmed_def)
  have "rev (trim s) = strip_lead (map rev white_space) (rev (trim_start s))"
    by (simp add: trim_def trim_end_def)
  with t show "lead_len (map rev white_space) (rev s) = 0"
    by (simp add: trimmed_def)
qed

lemma trimmed_sep:
  assumes "trimmed a" "trimmed b" "\<forall>w \<in> set white_space. c \<notin> set w"
  shows "trimmed (a @ c # b)"
proof -
  have "lead_len white_space (a @ c # b) = 0"
    using assms trimmed_ends(1) lead_len_sep by blast
  moreover have "lead_len (map rev white_space) (rev (a @ c # b)) = 0"
    using lead_len_sep [of "map rev white_space" "rev b" c "rev a"] assms trimmed_ends(2) by simp
  ultimately show ?thesis
    by (simp add: trimmed_def trim_def trim_start_def trim_end_def strip_lead_stop)
qed

lemma drop_white_space_id:
  "\<forall>c \<in> set s. \<forall>w \<in> set white_space. hd w \<noteq> c \<Longrightarrow> drop_white_space s = s"
proof (induction s)
  case Nil
  then show ?case by (simp add: drop_white_space.simps)
next
  case (Cons c s)
  have "lead_len white_space (c # s) = 0"
    unfolding lead_len_0_iff
  proof safe
    fix w assume "w \<in> set white_space" "prefix w (c # s)" "w \<noteq> []"
    with Cons.prems show False by (cases w) auto
  qed
  with Cons show ?case by (simp add: drop_white_space.simps [of "c # s"])
qed

subsection \<open>Lower case\<close>

lemma byte_char_of [simp]: "n < 256 \<Longrightarrow> byte (char_of n) = n"
  by (simp add: byte_def)

lemma byte_less: "byte c < 256"
  by (simp add: byte_def)

lemma byte_inject [simp]: "byte c = byte d \<longleftrightarrow> c = d"
  by (simp add: byte_def)

lemma byte_ascii_lower:
  "byte (ascii_lower c) = (if 65 \<le> byte c \<and> byte c \<le> 90 then byte c + 32 else byte c)"
  by (simp add: ascii_lower_def)

lemma ascii_lower_idem [simp]: "ascii_lower (ascii_lower c) = ascii_lower c"
  by (simp add: ascii_lower_def)

lemma to_ascii_lowercase_simps [simp]:
  "to_ascii_lowercase [] = []"
  "to_ascii_lowercase (c # s) = ascii_lower c # to_ascii_lowercase s"
  "to_ascii_lowercase (s @ t) = to_ascii_lowercase s @ to_ascii_lowercase t"
  by (simp_all add: to_ascii_lowercase_def)

lemma to_ascii_lowercase_idem [simp]:
  "to_ascii_lowercase (to_ascii_lowercase s) = to_ascii_lowercase s"
  by (simp add: to_ascii_lowercase_def)

lemma to_ascii_lowercase_Nil_iff [simp]: "to_ascii_lowercase s = [] \<longleftrightarrow> s = []"
  by (simp add: to_ascii_lowercase_def)

lemma length_to_ascii_lowercase [simp]: "length (to_ascii_lowercase s) = length s"
  by (simp add: to_ascii_lowercase_def)

text \<open>No byte of a white-space encoding is an ASCII letter, so lower case and trimming commute.\<close>

definition no_letter :: "char \<Rightarrow> bool" where
  "no_letter c \<longleftrightarrow> \<not> (65 \<le> byte c \<and> byte c \<le> 90) \<and> \<not> (97 \<le> byte c \<and> byte c \<le> 122)"

lemma white_space_no_letter: "w \<in> set white_space \<Longrightarrow> c \<in> set w \<Longrightarrow> no_letter c"
  by (auto simp: white_space_def no_letter_def byte_def)

lemma ascii_lower_eq_no_letter: "no_letter d \<Longrightarrow> d = ascii_lower c \<longleftrightarrow> d = c"
proof -
  assume d: "no_letter d"
  have "byte d = byte (ascii_lower c) \<longleftrightarrow> byte d = byte c"
    using d by (auto simp: byte_ascii_lower no_letter_def)
  then show ?thesis by simp
qed

lemma prefix_lower_iff:
  "\<forall>c \<in> set w. no_letter c \<Longrightarrow> prefix w (map ascii_lower s) \<longleftrightarrow> prefix w s"
proof (induction w arbitrary: s)
  case Nil
  then show ?case by simp
next
  case (Cons d w)
  then show ?case by (cases s) (auto simp: ascii_lower_eq_no_letter)
qed

lemma lead_len_lower:
  "\<forall>w \<in> set ws. \<forall>c \<in> set w. no_letter c \<Longrightarrow> lead_len ws (map ascii_lower s) = lead_len ws s"
  by (induction ws) (auto simp: prefix_lower_iff)

lemma strip_lead_lower:
  assumes "\<forall>w \<in> set ws. \<forall>c \<in> set w. no_letter c"
  shows "strip_lead ws (map ascii_lower s) = map ascii_lower (strip_lead ws s)"
  using assms
proof (induction ws s rule: strip_lead.induct)
  case (1 ws s)
  show ?case
  proof (cases "lead_len ws s = 0 \<or> s = []")
    case True
    with 1(2) show ?thesis
      by (auto simp: strip_lead.simps [of ws s] strip_lead.simps [of ws "map ascii_lower s"]
          lead_len_lower)
  next
    case False
    with 1 have "strip_lead ws (map ascii_lower (drop (lead_len ws s) s)) =
        map ascii_lower (strip_lead ws (drop (lead_len ws s) s))"
      by simp
    with False 1(2) show ?thesis
      by (simp add: strip_lead.simps [of ws s] strip_lead.simps [of ws "map ascii_lower s"]
          lead_len_lower drop_map)
  qed
qed

lemma trim_lower: "trim (to_ascii_lowercase s) = to_ascii_lowercase (trim s)"
proof -
  have fwd: "\<forall>w \<in> set white_space. \<forall>c \<in> set w. no_letter c"
    using white_space_no_letter by blast
  then have bwd: "\<forall>w \<in> set (map rev white_space). \<forall>c \<in> set w. no_letter c"
    by simp
  show ?thesis
    using strip_lead_lower [OF fwd] strip_lead_lower [OF bwd]
    by (simp add: trim_def trim_start_def trim_end_def to_ascii_lowercase_def rev_map)
qed

lemma trimmed_lower: "trimmed s \<Longrightarrow> trimmed (to_ascii_lowercase s)"
  by (simp add: trimmed_def trim_lower)

end
