(* ===== verification/Numbers.thy ===== *)
theory Numbers
  imports Prelude
begin

section \<open>Machine integers and their decimal text\<close>

text \<open>
  The integer operations of the standard library the sources call: saturating arithmetic,
  signed reading of 64-bit words, truncating division, \<open>str::parse\<close> and \<open>to_string\<close>.
\<close>

named_theorems num_simps \<open>definitions of the saturating and signed operations\<close>

subsection \<open>Saturating and signed arithmetic\<close>

definition saturating_mul :: "'a::len word \<Rightarrow> 'a word \<Rightarrow> 'a word" where
  "saturating_mul a b = (if unat a * unat b < 2 ^ LENGTH('a) then a * b else - 1)"

definition saturating_add :: "'a::len word \<Rightarrow> 'a word \<Rightarrow> 'a word" where
  "saturating_add a b = (if unat a + unat b < 2 ^ LENGTH('a) then a + b else - 1)"

definition saturating_sub :: "'a::len word \<Rightarrow> 'a word \<Rightarrow> 'a word" where
  "saturating_sub a b = (if b \<le> a then a - b else 0)"

text \<open>\<open>i64::abs\<close> in a build without overflow checks: the least value is its own absolute value.\<close>

definition wrapping_abs :: "i64 \<Rightarrow> i64" where
  "wrapping_abs x = (if sint x < 0 then - x else x)"

text \<open>Rust's \<open>/\<close> on signed integers truncates towards zero.\<close>

definition div_i64 :: "i64 \<Rightarrow> i64 \<Rightarrow> i64" where
  "div_i64 a b = word_of_int (sint a sdiv sint b)"

definition le_i64 :: "i64 \<Rightarrow> i64 \<Rightarrow> bool" where
  "le_i64 a b \<longleftrightarrow> sint a \<le> sint b"

definition less_i64 :: "i64 \<Rightarrow> i64 \<Rightarrow> bool" where
  "less_i64 a b \<longleftrightarrow> sint a < sint b"

lemmas [num_simps] = saturating_mul_def saturating_add_def saturating_sub_def wrapping_abs_def
  div_i64_def le_i64_def less_i64_def

text \<open>Evaluation goes through binary integers rather than unary natural numbers.\<close>

lemma saturating_add_code [code]:
  "saturating_add a (b :: 'a::len word) = (if uint a + uint b < 2 ^ LENGTH('a) then a + b else - 1)"
proof -
  have "unat a + unat b < 2 ^ LENGTH('a) \<longleftrightarrow> int (unat a + unat b) < int (2 ^ LENGTH('a))"
    by (rule of_nat_less_iff [symmetric])
  then show ?thesis by (simp add: saturating_add_def)
qed

lemma saturating_mul_code [code]:
  "saturating_mul a (b :: 'a::len word) = (if uint a * uint b < 2 ^ LENGTH('a) then a * b else - 1)"
proof -
  have "unat a * unat b < 2 ^ LENGTH('a) \<longleftrightarrow> int (unat a * unat b) < int (2 ^ LENGTH('a))"
    by (rule of_nat_less_iff [symmetric])
  then show ?thesis by (simp add: saturating_mul_def)
qed

lemma unat_minus_1_word: "unat (- 1 :: 'a::len word) = 2 ^ LENGTH('a) - 1"
  by (simp add: unsigned_minus_1_eq_mask mask_eq_exp_minus_1)

lemma unat_saturating_mul:
  "unat (saturating_mul a (b :: 'a::len word)) = min (unat a * unat b) (2 ^ LENGTH('a) - 1)"
proof (cases "unat a * unat b < 2 ^ LENGTH('a)")
  case True
  then show ?thesis by (simp add: saturating_mul_def unat_word_ariths(2))
next
  case False
  then show ?thesis by (simp add: saturating_mul_def unat_minus_1_word)
qed

lemma unat_saturating_add:
  "unat (saturating_add a (b :: 'a::len word)) = min (unat a + unat b) (2 ^ LENGTH('a) - 1)"
proof (cases "unat a + unat b < 2 ^ LENGTH('a)")
  case True
  then show ?thesis by (simp add: saturating_add_def unat_word_ariths(1))
next
  case False
  then show ?thesis by (simp add: saturating_add_def unat_minus_1_word)
qed

lemma unat_saturating_sub: "unat (saturating_sub a b) = unat a - unat b"
  by (simp add: saturating_sub_def unat_sub word_le_nat_alt not_le)

lemma sint_i64_range: "- (2 ^ 63) \<le> sint (x :: i64)" "sint (x :: i64) < 2 ^ 63"
  using sint_range_size [of x] by (simp_all add: word_size)

lemma sint_of_int_i64: "- (2 ^ 63) \<le> k \<Longrightarrow> k < 2 ^ 63 \<Longrightarrow> sint (word_of_int k :: i64) = k"
  by (simp add: signed_take_bit_int_eq_self sint_sbintrunc')

lemma sint_diff_no_overflow:
  assumes "- (2 ^ 63) \<le> sint a - sint b" "sint a - sint b < 2 ^ 63"
  shows "sint (a - b :: i64) = sint a - sint b"
proof -
  have "a - b = (word_of_int (sint a - sint b) :: i64)" by simp
  then show ?thesis using sint_of_int_i64 [OF assms] by simp
qed

lemma sint_add_no_overflow:
  assumes "- (2 ^ 63) \<le> sint a + sint b" "sint a + sint b < 2 ^ 63"
  shows "sint (a + b :: i64) = sint a + sint b"
proof -
  have "a + b = (word_of_int (sint a + sint b) :: i64)" by simp
  then show ?thesis using sint_of_int_i64 [OF assms] by simp
qed

lemma sint_diff_overflow:
  assumes "2 ^ 63 \<le> sint a - sint b"
  shows "sint (a - b :: i64) = sint a - sint b - 2 ^ 64"
proof -
  have wrap: "(word_of_int (2 ^ 64) :: i64) = 0"
    using word_of_int_2p_len [where 'a = 64] by simp
  have "(word_of_int (sint a - sint b - 2 ^ 64) :: i64) = a - b - word_of_int (2 ^ 64)"
    by (simp only: of_int_diff of_int_sint scast_id)
  then have "(word_of_int (sint a - sint b - 2 ^ 64) :: i64) = a - b"
    by (simp only: wrap diff_zero)
  moreover have "sint (word_of_int (sint a - sint b - 2 ^ 64) :: i64) = sint a - sint b - 2 ^ 64"
    using assms sint_i64_range [of a] sint_i64_range [of b] by (intro sint_of_int_i64) auto
  ultimately show ?thesis by (simp only:)
qed

lemma sint_uminus_i64: "sint x \<noteq> - (2 ^ 63) \<Longrightarrow> sint (- x :: i64) = - sint x"
  using sint_diff_no_overflow [of 0 x] sint_i64_range [of x] by simp

lemma sint_wrapping_abs:
  "sint (wrapping_abs x) = (if sint x = - (2 ^ 63) then - (2 ^ 63) else \<bar>sint x\<bar>)"
proof (cases "sint x = - (2 ^ 63)")
  case True
  have "x = word_of_int (sint x)" by simp
  then have "x = word_of_int (- (2 ^ 63))" by (simp only: True)
  then have "x = 0x8000000000000000" by simp
  then show ?thesis by (simp add: wrapping_abs_def)
next
  case False
  then show ?thesis by (simp add: wrapping_abs_def sint_uminus_i64)
qed

lemma sint_div_i64:
  assumes "0 < sint b"
  shows "sint (div_i64 a b) = sint a sdiv sint b"
proof -
  have "sint a sdiv sint b \<in> {- \<bar>sint a\<bar>..\<bar>sint a\<bar>}"
    by (rule sdiv_int_range)
  moreover have "sint a < 0 \<Longrightarrow> sint a sdiv sint b \<le> 0"
    using assms by (simp add: signed_divide_int_def pos_imp_zdiv_nonneg_iff)
  ultimately have "- (2 ^ 63) \<le> sint a sdiv sint b" "sint a sdiv sint b < 2 ^ 63"
    using sint_i64_range [of a] by (cases "sint a < 0"; simp)+
  then show ?thesis by (simp only: div_i64_def sint_of_int_i64)
qed

subsection \<open>Decimal text\<close>

definition digit_val :: "char \<Rightarrow> nat option" where
  "digit_val c = (if 48 \<le> byte c \<and> byte c \<le> 57 then Some (byte c - 48) else None)"

fun parse_digits :: "nat \<Rightarrow> string \<Rightarrow> nat option" where
  "parse_digits acc [] = Some acc"
| "parse_digits acc (c # cs) =
     (case digit_val c of None \<Rightarrow> None | Some d \<Rightarrow> parse_digits (10 * acc + d) cs)"

definition parse_magnitude :: "string \<Rightarrow> nat option" where
  "parse_magnitude s = (if s = [] then None else parse_digits 0 s)"

text \<open>\<open>s.parse::<uN>()\<close>: an optional plus sign, at least one digit, no overflow.\<close>

definition parse_unsigned :: "nat \<Rightarrow> string \<Rightarrow> nat option" where
  "parse_unsigned w s =
     opt_filter (\<lambda>n. n < 2 ^ w)
       (case s of c # cs \<Rightarrow> if c = CHR ''+'' then parse_magnitude cs else parse_magnitude s
        | [] \<Rightarrow> None)"

definition parse_signed :: "nat \<Rightarrow> string \<Rightarrow> int option" where
  "parse_signed w s =
     opt_filter (\<lambda>n. - (2 ^ (w - 1)) \<le> n \<and> n < 2 ^ (w - 1))
       (case s of
          c # cs \<Rightarrow>
            (if c = CHR ''-'' then map_option (\<lambda>n. - int n) (parse_magnitude cs)
             else if c = CHR ''+'' then map_option int (parse_magnitude cs)
             else map_option int (parse_magnitude s))
        | [] \<Rightarrow> None)"

definition parse_u32 :: "string \<Rightarrow> u32 option" where
  "parse_u32 s = map_option of_nat (parse_unsigned 32 s)"

definition parse_u64 :: "string \<Rightarrow> u64 option" where
  "parse_u64 s = map_option of_nat (parse_unsigned 64 s)"

definition parse_i32 :: "string \<Rightarrow> i32 option" where
  "parse_i32 s = map_option word_of_int (parse_signed 32 s)"

definition parse_i64 :: "string \<Rightarrow> i64 option" where
  "parse_i64 s = map_option word_of_int (parse_signed 64 s)"

definition digit_char :: "nat \<Rightarrow> char" where
  "digit_char d = char_of (48 + d)"

fun show_nat :: "nat \<Rightarrow> string" where
  "show_nat n = (if n < 10 then [digit_char n] else show_nat (n div 10) @ [digit_char (n mod 10)])"

declare show_nat.simps [simp del]

definition show_int :: "int \<Rightarrow> string" where
  "show_int k = (if k < 0 then CHR ''-'' # show_nat (nat (- k)) else show_nat (nat k))"

lemma digit_val_digit_char [simp]: "d < 10 \<Longrightarrow> digit_val (digit_char d) = Some d"
  by (simp add: digit_val_def digit_char_def)

lemma parse_digits_append:
  "parse_digits acc (s @ t) = Option.bind (parse_digits acc s) (\<lambda>n. parse_digits n t)"
  by (induction s arbitrary: acc) (auto split: option.splits)

lemma parse_digits_show_nat: "parse_digits 0 (show_nat n) = Some n"
proof (induction n rule: show_nat.induct)
  case (1 n)
  show ?case
  proof (cases "n < 10")
    case True
    then show ?thesis by (simp add: show_nat.simps [of n])
  next
    case False
    with 1 show ?thesis by (simp add: show_nat.simps [of n] parse_digits_append)
  qed
qed

lemma show_nat_not_Nil [simp]: "show_nat n \<noteq> []"
  by (subst show_nat.simps) simp

lemma set_show_nat: "c \<in> set (show_nat n) \<Longrightarrow> 48 \<le> byte c \<and> byte c \<le> 57"
proof (induction n rule: show_nat.induct)
  case (1 n)
  have dig: "48 \<le> byte (digit_char d) \<and> byte (digit_char d) \<le> 57" if "d < 10" for d
    using that by (simp add: digit_char_def)
  show ?case
  proof (cases "n < 10")
    case True
    with 1 dig show ?thesis by (simp add: show_nat.simps [of n])
  next
    case False
    with 1 dig [of "n mod 10"] show ?thesis by (auto simp: show_nat.simps [of n])
  qed
qed

lemma hd_show_nat_digit: "48 \<le> byte (hd (show_nat n)) \<and> byte (hd (show_nat n)) \<le> 57"
  by (rule set_show_nat [of _ n]) simp

lemma parse_magnitude_show_nat [simp]: "parse_magnitude (show_nat n) = Some n"
  by (simp add: parse_magnitude_def parse_digits_show_nat)

lemma parse_unsigned_show_nat: "n < 2 ^ w \<Longrightarrow> parse_unsigned w (show_nat n) = Some n"
proof -
  assume n: "n < 2 ^ w"
  obtain c cs where s: "show_nat n = c # cs" by (meson neq_Nil_conv show_nat_not_Nil)
  with hd_show_nat_digit [of n] have "c \<noteq> CHR ''+''" by (auto simp: byte_def)
  moreover have "parse_magnitude (c # cs) = Some n"
    using parse_magnitude_show_nat [of n] s by simp
  ultimately show ?thesis using n by (simp add: parse_unsigned_def s)
qed

lemma parse_signed_show_int:
  assumes "- (2 ^ (w - 1)) \<le> k" "k < 2 ^ (w - 1)"
  shows "parse_signed w (show_int k) = Some k"
proof (cases "k < 0")
  case True
  with assms show ?thesis by (simp add: parse_signed_def show_int_def)
next
  case False
  obtain c cs where s: "show_nat (nat k) = c # cs" by (meson neq_Nil_conv show_nat_not_Nil)
  with hd_show_nat_digit [of "nat k"] have "c \<noteq> CHR ''+''" "c \<noteq> CHR ''-''"
    by (auto simp: byte_def)
  moreover have "parse_magnitude (c # cs) = Some (nat k)"
    using parse_magnitude_show_nat [of "nat k"] s by simp
  ultimately show ?thesis using False assms by (simp add: parse_signed_def show_int_def s)
qed

end
