(* ===== verification/Json.thy ===== *)
theory Json
  imports Numbers
begin

section \<open>JSON values, ordered maps and third-party functions\<close>

text \<open>
  \<open>serde_json::Value\<close> as a datatype. The workspace builds \<open>serde_json\<close> without
  \<open>preserve_order\<close>, so an object is a \<open>BTreeMap\<close>: here an association list whose keys
  are strictly increasing (\<^term>\<open>sorted_wrt (<) (map fst m)\<close>), kept so by \<open>btree_insert\<close>.

  Functions of other crates the sources call (HMAC, hexadecimal, regular expressions,
  JSON text) are fields of the record \<open>crates\<close>, an argument of every definition that uses
  one; what a theorem needs of them is a named predicate on that record.
\<close>

subsection \<open>Ordered maps\<close>

fun btree_insert :: "'k::linorder \<Rightarrow> 'v \<Rightarrow> ('k \<times> 'v) list \<Rightarrow> ('k \<times> 'v) list" where
  "btree_insert k v [] = [(k, v)]"
| "btree_insert k v ((k', v') # m) =
     (if k < k' then (k, v) # (k', v') # m
      else if k = k' then (k, v) # m
      else (k', v') # btree_insert k v m)"

definition btree_wf :: "('k::linorder \<times> 'v) list \<Rightarrow> bool" where
  "btree_wf m \<longleftrightarrow> sorted_wrt (<) (map fst m)"

text \<open>\<open>iter.collect::<BTreeMap<_, _>>()\<close>: later entries replace earlier ones.\<close>

definition btree_collect :: "('k::linorder \<times> 'v) list \<Rightarrow> ('k \<times> 'v) list" where
  "btree_collect kvs = fold (\<lambda>(k, v). btree_insert k v) kvs []"

text \<open>\<open>iter.collect::<BTreeSet<_>>()\<close> as the increasing list of its members.\<close>

fun set_insert :: "'k::linorder \<Rightarrow> 'k list \<Rightarrow> 'k list" where
  "set_insert k [] = [k]"
| "set_insert k (x # xs) =
     (if k < x then k # x # xs else if k = x then x # xs else x # set_insert k xs)"

definition btree_set :: "'k::linorder list \<Rightarrow> 'k list" where
  "btree_set xs = fold set_insert xs []"

text \<open>What every ordered map promises its users.\<close>

locale ordered_map =
  fixes empty :: 'm
    and insert :: "'k \<Rightarrow> 'v \<Rightarrow> 'm \<Rightarrow> 'm"
    and lookup :: "'m \<Rightarrow> 'k \<Rightarrow> 'v option"
    and invar :: "'m \<Rightarrow> bool"
  assumes lookup_empty: "lookup empty k = None"
    and lookup_insert: "lookup (insert k v m) = (lookup m)(k \<mapsto> v)"
    and invar_empty: "invar empty"
    and invar_insert: "invar m \<Longrightarrow> invar (insert k v m)"
begin

lemma lookup_insert_same: "lookup (insert k v m) k = Some v"
  by (simp add: lookup_insert)

lemma lookup_insert_other: "k' \<noteq> k \<Longrightarrow> lookup (insert k v m) k' = lookup m k'"
  by (simp add: lookup_insert)

lemma lookup_collect:
  "lookup (fold (\<lambda>(k, v). insert k v) kvs m) = lookup m ++ map_of (rev kvs)"
  by (induction kvs arbitrary: m) (auto simp: lookup_insert map_add_def split: option.splits)

lemma invar_collect: "invar m \<Longrightarrow> invar (fold (\<lambda>(k, v). insert k v) kvs m)"
  by (induction kvs arbitrary: m) (auto intro: invar_insert)

end

lemma map_of_btree_insert: "map_of (btree_insert k v m) = (map_of m)(k \<mapsto> v)"
  by (induction m) (auto simp: fun_eq_iff)

lemma keys_btree_insert: "set (map fst (btree_insert k v m)) = insert k (set (map fst m))"
  by (induction m rule: btree_insert.induct) auto

lemma btree_wf_insert: "btree_wf m \<Longrightarrow> btree_wf (btree_insert k v m)"
proof (induction m)
  case Nil
  then show ?case by (simp add: btree_wf_def)
next
  case (Cons p m)
  obtain k' v' where p: "p = (k', v')" by force
  have "set (map fst (btree_insert k v m)) = insert k (set (map fst m))"
    by (rule keys_btree_insert)
  with Cons p show ?case by (auto simp: btree_wf_def)
qed

interpretation bt: ordered_map "[]" btree_insert map_of "btree_wf :: ('k::linorder \<times> 'v) list \<Rightarrow> bool"
  by unfold_locales (simp_all add: map_of_btree_insert btree_wf_insert, simp add: btree_wf_def)

lemma map_of_btree_collect: "map_of (btree_collect kvs) = map_of (rev kvs)"
  by (simp add: btree_collect_def bt.lookup_collect)

lemma btree_wf_collect: "btree_wf (btree_collect kvs)"
  by (simp add: btree_collect_def bt.invar_collect bt.invar_empty)

lemma set_set_insert: "set (set_insert k xs) = insert k (set xs)"
  by (induction xs) auto

lemma set_btree_set [simp]: "set (btree_set xs) = set xs"
proof -
  have "set (fold set_insert xs acc) = set xs \<union> set acc" for acc
    by (induction xs arbitrary: acc) (auto simp: set_set_insert)
  then show ?thesis by (simp add: btree_set_def)
qed

lemma sorted_set_insert: "sorted_wrt (<) xs \<Longrightarrow> sorted_wrt (<) (set_insert k xs)"
  by (induction xs) (auto simp: set_set_insert)

lemma sorted_btree_set: "sorted_wrt (<) (btree_set xs)"
proof -
  have "sorted_wrt (<) acc \<Longrightarrow> sorted_wrt (<) (fold set_insert xs acc)" for acc
    by (induction xs arbitrary: acc) (auto simp: sorted_set_insert)
  then show ?thesis by (simp add: btree_set_def)
qed

lemma distinct_btree_set: "distinct (btree_set xs)"
  using sorted_btree_set [of xs] strict_sorted_iff by blast

subsection \<open>Values\<close>

text \<open>A number is an unsigned, a negative or a floating-point one (its IEEE bit pattern).\<close>

datatype json_number = PosInt u64 | NegInt i64 | Float u64

datatype json =
    JNull
  | JBool bool
  | JNumber json_number
  | JString string
  | JArray "json list"
  | JObject "(string \<times> json) list"

fun json_get :: "string \<Rightarrow> json \<Rightarrow> json option" where
  "json_get k (JObject m) = map_of m k"
| "json_get k _ = None"

fun as_str :: "json \<Rightarrow> string option" where
  "as_str (JString s) = Some s"
| "as_str _ = None"

fun as_i64 :: "json \<Rightarrow> i64 option" where
  "as_i64 (JNumber (PosInt n)) = (if unat n < 2 ^ 63 then Some n else None)"
| "as_i64 (JNumber (NegInt n)) = Some n"
| "as_i64 _ = None"

fun as_u64 :: "json \<Rightarrow> u64 option" where
  "as_u64 (JNumber (PosInt n)) = Some n"
| "as_u64 _ = None"

definition obj :: "(string \<times> json) list \<Rightarrow> json" where
  "obj kvs = JObject (btree_collect kvs)"

subsection \<open>Functions of other crates\<close>

record crates =
  hmac_sha256 :: "string \<Rightarrow> string \<Rightarrow> string"
  hex_encode :: "string \<Rightarrow> string"
  ct_eq :: "string \<Rightarrow> string \<Rightarrow> bool"
  regex_find :: "string \<Rightarrow> string \<Rightarrow> string option"
  json_from_slice :: "string \<Rightarrow> json option"
  json_to_string :: "json \<Rightarrow> string"
  json_pointer :: "json \<Rightarrow> string \<Rightarrow> json option"

text \<open>\<open>subtle::ConstantTimeEq\<close> on slices of one length is equality.\<close>

definition ct_eq_ok :: "crates \<Rightarrow> bool" where
  "ct_eq_ok cr \<longleftrightarrow> (\<forall>a b. length a = length b \<longrightarrow> ct_eq cr a b = (a = b))"

text \<open>\<open>hex::encode\<close> writes two lower-case hexadecimal digits per byte.\<close>

definition hex_digit :: "char \<Rightarrow> bool" where
  "hex_digit c \<longleftrightarrow> c \<in> set ''0123456789abcdef''"

definition hex_ok :: "crates \<Rightarrow> bool" where
  "hex_ok cr \<longleftrightarrow> (\<forall>s. length (hex_encode cr s) = 2 * length s \<and>
     (\<forall>c \<in> set (hex_encode cr s). hex_digit c))"

subsection \<open>A concrete instance\<close>

text \<open>
  An instance of the third-party functions that the examples of the development evaluate:
  real hexadecimal text and equality, a keyed concatenation in place of the HMAC, plain
  substring search in place of regular expressions.
\<close>

definition hex_text :: "string \<Rightarrow> string" where
  "hex_text s = concat (map (\<lambda>c. [''0123456789abcdef'' ! (byte c div 16),
     ''0123456789abcdef'' ! (byte c mod 16)]) s)"

definition demo_crates :: crates where
  "demo_crates =
     \<lparr>hmac_sha256 = (\<lambda>secret body. secret @ body),
      hex_encode = hex_text,
      ct_eq = (=),
      regex_find = (\<lambda>p t. if contains_sub p t then Some p else None),
      json_from_slice = (\<lambda>s. if s = ''{}'' then Some (JObject []) else None),
      json_to_string = (\<lambda>_. ''{}''),
      json_pointer = (\<lambda>v p. json_get (drop 1 p) v)\<rparr>"

lemma ct_eq_ok_demo [simp]: "ct_eq_ok (demo_crates\<lparr>json_from_slice := f, regex_find := g\<rparr>)"
  "ct_eq_ok demo_crates"
  by (simp_all add: ct_eq_ok_def demo_crates_def)

lemma length_hex_text: "length (hex_text s) = 2 * length s"
  by (induction s) (simp_all add: hex_text_def)

lemma hex_ok_demo [simp]: "hex_ok (demo_crates\<lparr>json_from_slice := f, regex_find := g\<rparr>)"
  "hex_ok demo_crates"
proof -
  have "hex_digit (''0123456789abcdef'' ! n)" if "n < 16" for n
  proof -
    have "''0123456789abcdef'' ! n \<in> set ''0123456789abcdef''"
      using that by (intro nth_mem) simp
    then show ?thesis by (simp add: hex_digit_def)
  qed
  moreover have "byte c div 16 < 16" "byte c mod 16 < 16" for c
    using byte_less [of c] by simp_all
  ultimately have "\<forall>c \<in> set (hex_text s). hex_digit c" for s
    by (induction s) (auto simp: hex_text_def)
  then show "hex_ok demo_crates" "hex_ok (demo_crates\<lparr>json_from_slice := f, regex_find := g\<rparr>)"
    by (simp_all add: hex_ok_def demo_crates_def length_hex_text)
qed

end
