(* ===== verification/Relay_Core.thy ===== *)
theory Relay_Core
  imports Json
begin

section \<open>Shared model, keys, signatures and timestamps (crates/relay-core)\<close>

text \<open>
  \<open>model.rs\<close>: source names, topics and the event envelope; \<open>keys.rs\<close>: idempotency keys;
  \<open>signatures.rs\<close>: HMAC and token checks; \<open>timestamps.rs\<close>: the replay window.
\<close>

subsection \<open>model.rs\<close>

datatype source = Github | Linear

fun source_as_str :: "source \<Rightarrow> string" where
  "source_as_str Github = ''github''"
| "source_as_str Linear = ''linear''"

fun source_topic :: "source \<Rightarrow> string" where
  "source_topic Github = ''webhooks.github''"
| "source_topic Linear = ''webhooks.linear''"

definition DEFAULT_SOURCE_TOPIC_PREFIX :: string where
  "DEFAULT_SOURCE_TOPIC_PREFIX = ''webhooks''"

definition normalize_source_name :: "string \<Rightarrow> string option" where
  "normalize_source_name source =
     (let normalized = to_ascii_lowercase (trim source)
      in if normalized = [] then None else Some normalized)"

definition source_topic_name :: "string \<Rightarrow> string \<Rightarrow> string option" where
  "source_topic_name source_topic_prefix source =
     (let pre = trim source_topic_prefix
      in if pre = [] then None
         else map_option (\<lambda>normalized. pre @ ''.'' @ normalized) (normalize_source_name source))"

definition source_from_str :: "string \<Rightarrow> source result" where
  "source_from_str v =
     (let w = to_ascii_lowercase (trim v)
      in if w = ''github'' then Inr Github
         else if w = ''linear'' then Inr Linear
         else Inl ''unsupported source'')"

record event_meta =
  meta_trace_id :: "string option"
  meta_ingress_adapter :: "string option"
  meta_route_key :: "string option"
  meta_flags :: "string list"

definition default_event_meta :: event_meta where
  "default_event_meta = \<lparr>meta_trace_id = None, meta_ingress_adapter = None, meta_route_key = None, meta_flags = []\<rparr>"

record event_envelope =
  ev_id :: string
  ev_source :: string
  ev_type :: string
  ev_received_at :: string
  ev_payload :: json
  ev_meta :: "event_meta option"

record dlq_envelope =
  failed_at :: string
  dlq_error :: string
  dlq_event :: event_envelope

subsection \<open>keys.rs\<close>

definition github_dedup_key :: "string \<Rightarrow> string \<Rightarrow> string \<Rightarrow> string" where
  "github_dedup_key delivery_id action entity_id =
     ''github:'' @ delivery_id @ '':'' @ action @ '':'' @ entity_id"

definition linear_dedup_key :: "string \<Rightarrow> string \<Rightarrow> string \<Rightarrow> string" where
  "linear_dedup_key delivery_id action entity_id =
     ''linear:'' @ delivery_id @ '':'' @ action @ '':'' @ entity_id"

definition github_cooldown_key :: "string \<Rightarrow> string \<Rightarrow> string" where
  "github_cooldown_key repo entity_id =
     (let repo_token = replace_char (CHR ''/'') ''-'' repo
      in ''cooldown-github-'' @ repo_token @ ''-'' @ entity_id)"

definition linear_cooldown_key :: "string \<Rightarrow> string \<Rightarrow> string" where
  "linear_cooldown_key team_key entity_id =
     ''cooldown-linear-'' @ team_key @ ''-'' @ entity_id"

subsection \<open>signatures.rs\<close>

definition compute_hmac_sha256_hex :: "crates \<Rightarrow> string \<Rightarrow> string \<Rightarrow> string" where
  "compute_hmac_sha256_hex cr secret body = hex_encode cr (hmac_sha256 cr secret body)"

definition normalize_signature :: "string \<Rightarrow> string" where
  "normalize_signature raw =
     to_ascii_lowercase
       (drop_white_space (unwrap_or (trim raw) (strip_prefix ''sha256='' (trim raw))))"

definition constant_time_hex_equals :: "crates \<Rightarrow> string \<Rightarrow> string \<Rightarrow> bool" where
  "constant_time_hex_equals cr left right =
     (if length left \<noteq> length right then False else ct_eq cr left right)"

definition verify_github_signature :: "crates \<Rightarrow> string \<Rightarrow> string \<Rightarrow> string \<Rightarrow> bool" where
  "verify_github_signature cr secret body signature_header =
     (let expected = compute_hmac_sha256_hex cr secret body;
          provided = normalize_signature signature_header
      in constant_time_hex_equals cr provided expected)"

definition verify_linear_signature :: "crates \<Rightarrow> string \<Rightarrow> string \<Rightarrow> string \<Rightarrow> bool" where
  "verify_linear_signature cr secret body signature_header =
     (let expected = compute_hmac_sha256_hex cr secret body;
          provided = normalize_signature signature_header
      in constant_time_hex_equals cr provided expected)"

definition verify_shared_token :: "crates \<Rightarrow> string \<Rightarrow> string \<Rightarrow> bool" where
  "verify_shared_token cr expected_token header_value =
     (let provided = normalize_signature header_value;
          expected = normalize_signature expected_token
      in constant_time_hex_equals cr provided expected)"

subsection \<open>timestamps.rs\<close>

definition extract_linear_webhook_timestamp_epoch :: "json \<Rightarrow> i64 option" where
  "extract_linear_webhook_timestamp_epoch pl =
     (case json_get ''webhookTimestamp'' pl of
        None \<Rightarrow> None
      | Some timestamp_value \<Rightarrow>
          (case (case as_i64 timestamp_value of
                   Some v \<Rightarrow> Some v
                 | None \<Rightarrow>
                     (case as_u64 timestamp_value of
                        Some v \<Rightarrow> if unat v < 2 ^ 63 then Some v else None
                      | None \<Rightarrow>
                          (case as_str timestamp_value of
                             Some text \<Rightarrow> parse_i64 text
                           | None \<Rightarrow> None))) of
             None \<Rightarrow> None
           | Some raw \<Rightarrow>
               if less_i64 10000000000 raw then Some (div_i64 raw 1000) else Some raw))"

definition verify_linear_timestamp_window :: "json \<Rightarrow> i64 \<Rightarrow> i64 \<Rightarrow> bool \<Rightarrow> bool" where
  "verify_linear_timestamp_window pl now_epoch window_seconds enforce_check =
     (if \<not> enforce_check then True
      else (case extract_linear_webhook_timestamp_epoch pl of
              None \<Rightarrow> False
            | Some ts \<Rightarrow> le_i64 (wrapping_abs (now_epoch - ts)) window_seconds))"

subsection \<open>Laws of names and signatures\<close>

lemma normalize_source_name_Some:
  "normalize_source_name s = Some n \<longleftrightarrow> n = to_ascii_lowercase (trim s) \<and> n \<noteq> []"
  by (auto simp: normalize_source_name_def Let_def)

lemma normalize_source_name_idem:
  "normalize_source_name s = Some n \<Longrightarrow> normalize_source_name n = Some n"
  by (auto simp: normalize_source_name_Some trim_lower)

lemma hex_digit_not_white_space: "hex_digit c \<Longrightarrow> w \<in> set white_space \<Longrightarrow> hd w \<noteq> c"
  by (auto simp: hex_digit_def white_space_def)

lemma hex_digit_lower: "hex_digit c \<Longrightarrow> ascii_lower c = c"
  by (auto simp: hex_digit_def ascii_lower_def byte_def)

text \<open>The last byte of a white-space encoding is no hexadecimal digit either.\<close>

lemma hex_digit_not_last: "hex_digit c \<Longrightarrow> w \<in> set white_space \<Longrightarrow> last w \<noteq> c"
  by (auto simp: hex_digit_def white_space_def)

lemma hex_trim: "\<forall>c \<in> set s. hex_digit c \<Longrightarrow> trim s = s"
  by (cases "s = []") (auto intro!: trim_id dest: hex_digit_not_white_space hex_digit_not_last)

lemma hex_no_prefix: "\<forall>c \<in> set s. hex_digit c \<Longrightarrow> strip_prefix ''sha256='' s = None"
  by (cases s) (auto simp: strip_prefix_def hex_digit_def prefix_def)

lemma hex_normal:
  "\<forall>c \<in> set s. hex_digit c \<Longrightarrow> to_ascii_lowercase (drop_white_space s) = s"
  by (subst drop_white_space_id) (auto simp: hex_digit_not_white_space hex_digit_lower
      to_ascii_lowercase_def map_idI)

lemma normalize_signature_hex: "\<forall>c \<in> set s. hex_digit c \<Longrightarrow> normalize_signature s = s"
  by (simp add: normalize_signature_def hex_trim hex_no_prefix hex_normal)

lemma constant_time_hex_equals_iff:
  "ct_eq_ok cr \<Longrightarrow> constant_time_hex_equals cr a b \<longleftrightarrow> a = b"
  by (auto simp: constant_time_hex_equals_def ct_eq_ok_def)

lemma hex_digest: "hex_ok cr \<Longrightarrow> \<forall>c \<in> set (compute_hmac_sha256_hex cr secret body). hex_digit c"
  by (simp add: compute_hmac_sha256_hex_def hex_ok_def)

lemma append_sep_inj:
  "c \<notin> set a \<Longrightarrow> c \<notin> set a' \<Longrightarrow> a @ c # b = a' @ c # b' \<longleftrightarrow> a = a' \<and> b = b'"
proof (induction a arbitrary: a')
  case Nil
  then show ?case by (cases a') auto
next
  case (Cons x a)
  then show ?case by (cases a') auto
qed

subsection \<open>Properties\<close>

text \<open>C26. A GitHub signature header is accepted exactly when, after trimming, dropping one
  \<open>sha256=\<close> prefix and white space and lower-casing, it is the hexadecimal HMAC of the body
  under the secret; so the digest itself and the digest behind \<open>sha256=\<close> are both accepted,
  and nothing that normalises to another text is.\<close>

theorem github_signature_exact:
  assumes "ct_eq_ok cr" "hex_ok cr"
  shows "(verify_github_signature cr secret body header \<longleftrightarrow>
            normalize_signature header = compute_hmac_sha256_hex cr secret body)
       \<and> verify_github_signature cr secret body (compute_hmac_sha256_hex cr secret body)
       \<and> verify_github_signature cr secret body
           (''sha256='' @ compute_hmac_sha256_hex cr secret body)"
proof -
  let ?d = "compute_hmac_sha256_hex cr secret body"
  have hex: "\<forall>c \<in> set ?d. hex_digit c" by (rule hex_digest [OF assms(2)])
  have "\<forall>w \<in> set white_space. last w \<noteq> last (''sha256='' @ ?d)"
    using hex hex_digit_not_last by (cases "?d = []") (auto simp: white_space_def)
  then have "trim (''sha256='' @ ?d) = ''sha256='' @ ?d"
    by (intro trim_id) (auto simp: white_space_def)
  then have "normalize_signature (''sha256='' @ ?d) = ?d"
    by (simp add: normalize_signature_def strip_prefix_def hex_normal [OF hex])
  with hex show ?thesis
    by (simp add: verify_github_signature_def Let_def constant_time_hex_equals_iff [OF assms(1)]
        normalize_signature_hex)
qed

theorem github_signature_exact_witness:
  "verify_github_signature demo_crates ''key'' ''{}''
     (''sha256='' @ compute_hmac_sha256_hex demo_crates ''key'' ''{}'')
   \<and> \<not> verify_github_signature demo_crates ''key'' ''{}'' ''sha256=deadbeef''"
proof -
  have "normalize_signature ''sha256=deadbeef'' \<noteq> compute_hmac_sha256_hex demo_crates ''key'' ''{}''"
    by (simp add: compute_hmac_sha256_hex_def demo_crates_def) code_simp
  then show ?thesis
    using github_signature_exact [OF ct_eq_ok_demo(2) hex_ok_demo(2), of "''key''" "''{}''"
        "''sha256=deadbeef''"] by simp
qed

text \<open>The Linear check is the same check: it accepts a header exactly when the GitHub
  one does, whatever the secret, body and header.\<close>

theorem linear_signature_same_as_github:
  "verify_linear_signature cr secret body header = verify_github_signature cr secret body header"
  by (simp add: verify_linear_signature_def verify_github_signature_def)

text \<open>C35. The replay window with enforcement on, at width 64: for a clock \<open>now\<close> and a window
  that are non-negative and do not overflow when added, a payload with an extractable timestamp
  is accepted exactly when the timestamp is within the window on either side, or when the
  difference is \<open>2^63\<close>, the one value whose absolute value wraps to a negative number.\<close>

theorem timestamp_window_exact:
  assumes now: "0 \<le> sint now" and w: "0 \<le> sint w" and sum: "sint now + sint w < 2 ^ 63"
    and ts: "extract_linear_webhook_timestamp_epoch pl = Some ts"
  shows "verify_linear_timestamp_window pl now w True \<longleftrightarrow>
     \<bar>sint now - sint ts\<bar> \<le> sint w \<or> sint now - sint ts = 2 ^ 63"
proof (cases "sint now - sint ts < 2 ^ 63")
  case True
  have lo: "- (2 ^ 63) < sint now - sint ts"
    using now sint_i64_range [of ts] by simp
  with True have "sint (now - ts) = sint now - sint ts"
    by (intro sint_diff_no_overflow) simp_all
  with True lo show ?thesis
    using ts by (simp add: verify_linear_timestamp_window_def le_i64_def sint_wrapping_abs)
next
  case False
  then have d: "sint (now - ts) = sint now - sint ts - 2 ^ 64"
    by (intro sint_diff_overflow) simp
  show ?thesis
  proof (cases "sint now - sint ts = 2 ^ 63")
    case True
    with d ts w show ?thesis
      by (simp add: verify_linear_timestamp_window_def le_i64_def sint_wrapping_abs)
  next
    case neq: False
    with False d now w sum ts sint_i64_range [of ts] show ?thesis
      by (auto simp: verify_linear_timestamp_window_def le_i64_def sint_wrapping_abs)
  qed
qed

theorem timestamp_window_exact_witness:
  "verify_linear_timestamp_window (obj [(''webhookTimestamp'', JNumber (PosInt 1700000000))])
     1700000030 60 True"
proof -
  let ?p = "obj [(''webhookTimestamp'', JNumber (PosInt 1700000000))]"
  have "extract_linear_webhook_timestamp_epoch ?p = Some 1700000000"
    by (simp add: extract_linear_webhook_timestamp_epoch_def obj_def btree_collect_def num_simps)
  then show ?thesis
    using timestamp_window_exact [of 1700000030 60 ?p 1700000000] by simp
qed

text \<open>The wrapping difference lets one far-away timestamp through: whatever the clock
  (non-negative) and the window, the payload whose \<open>webhookTimestamp\<close> is \<open>now - 2^63\<close> is
  accepted with enforcement on.\<close>

theorem timestamp_window_wraps:
  assumes "0 \<le> sint now"
  shows "verify_linear_timestamp_window
     (obj [(''webhookTimestamp'', JNumber (NegInt (now - 0x8000000000000000)))]) now w True"
proof -
  let ?ts = "now - 0x8000000000000000 :: i64"
  have "?ts = word_of_int (sint now - 2 ^ 63)" by simp
  then have "sint ?ts = sint now - 2 ^ 63"
    using assms sint_i64_range [of now] by (simp only: sint_of_int_i64)
  then have "\<not> less_i64 10000000000 ?ts"
    using sint_i64_range [of now] by (simp add: less_i64_def)
  then have "extract_linear_webhook_timestamp_epoch
      (obj [(''webhookTimestamp'', JNumber (NegInt ?ts))]) = Some ?ts"
    by (simp add: extract_linear_webhook_timestamp_epoch_def obj_def btree_collect_def)
  moreover have "le_i64 (wrapping_abs (now - ?ts)) w"
    using sint_i64_range [of w] by (simp add: wrapping_abs_def le_i64_def)
  ultimately show ?thesis by (simp add: verify_linear_timestamp_window_def)
qed

theorem timestamp_window_wraps_witness:
  "verify_linear_timestamp_window
     (obj [(''webhookTimestamp'', JNumber (NegInt (1700000000 - 0x8000000000000000)))])
     1700000000 60 True"
  by (rule timestamp_window_wraps) simp

text \<open>Idempotency keys separate deliveries: GitHub and Linear keys never coincide, and
  within one source two keys are equal only for equal delivery, action and entity, provided
  delivery id and action hold no colon.\<close>

theorem dedup_keys_injective:
  assumes "CHR '':'' \<notin> set d" "CHR '':'' \<notin> set d'" "CHR '':'' \<notin> set a" "CHR '':'' \<notin> set a'"
  shows "github_dedup_key d a e \<noteq> linear_dedup_key d' a' e'
       \<and> (github_dedup_key d a e = github_dedup_key d' a' e' \<longleftrightarrow> d = d' \<and> a = a' \<and> e = e')
       \<and> (linear_dedup_key d a e = linear_dedup_key d' a' e' \<longleftrightarrow> d = d' \<and> a = a' \<and> e = e')"
  using assms by (simp add: github_dedup_key_def linear_dedup_key_def append_sep_inj)

theorem dedup_keys_injective_witness:
  "github_dedup_key ''d1'' ''opened'' ''42'' \<noteq> github_dedup_key ''d2'' ''opened'' ''42''"
  using dedup_keys_injective [of "''d1''" "''d2''" "''opened''" "''opened''" "''42''" "''42''"]
  by simp

end
