(* ===== verification/Serve_Config.thy ===== *)
theory Serve_Config
  imports Relay_Core
begin

section \<open>Configuration of the receiver\<close>

text \<open>
  \<open>src/config.rs\<close>: the receiver reads everything from environment variables, an argument of
  type \<^typ>\<open>env\<close> here. \<open>Config::from_env\<close> is one long function; it is modelled by one
  definition per stretch of it, composed in the order of the source, so the first error is the
  one the program reports. The JSON lists of routes and adapters and the CIDR texts are read by
  \<open>serde_json\<close> and \<open>ipnet\<close>, which are the fields of the record \<open>config_crates\<close>.
\<close>

subsection \<open>Data\<close>

record serve_route_rule =
  route_id :: string
  source_match :: string
  event_type_pattern :: string
  target_topic :: string

datatype serve_plugin =
    EventTypeAlias string string
  | RequirePayloadField string
  | AddMetaFlag string

text \<open>Adapters: the arguments are the fields in the order of the source.\<close>

datatype ingress_adapter =
    HttpWebhookIngress (hw_id: string) (hw_bind: string) (hw_path_template: string)
      (hw_plugins: "serve_plugin list")
  | WebsocketIngress (ws_id: string) (ws_path_template: string) (ws_auth_mode: string)
      (ws_token_env: "string option") (ws_plugins: "serve_plugin list")
  | McpIngestExposed (mcp_id: string) (mcp_tool_name: string) (mcp_transport_driver: string)
      (mcp_bind: string) (mcp_auth_mode: string) (mcp_token_env: "string option")
      (mcp_max_payload_bytes: usize) (mcp_path: string) (mcp_plugins: "serve_plugin list")
  | KafkaIngress (kafka_id: string) (kafka_topics: "string list") (kafka_group_id: string)
      (kafka_brokers_opt: "string option") (kafka_plugins: "serve_plugin list")

text \<open>An address is the list of its octets or of its groups.\<close>

datatype ip_addr = V4 "nat list" | V6 "nat list"

text \<open>\<open>ipnet::IpNet\<close>: an address and a prefix length.\<close>

datatype ip_net = IpNet ip_addr nat

record config_crates =
  parse_ipnet :: "string \<Rightarrow> ip_net option"
  de_serve_routes :: "string \<Rightarrow> serve_route_rule list option"
  de_ingress_adapters :: "string \<Rightarrow> ingress_adapter list option"

record config =
  bind_addr :: string
  enabled_sources :: "string list"
  source_topic_prefix :: string
  relay_source_topics :: "string list"
  kafka_brokers :: string
  kafka_security_protocol :: string
  kafka_allow_plaintext :: bool
  kafka_tls_cert :: string
  kafka_tls_key :: string
  kafka_tls_ca :: string
  kafka_dlq_topic :: string
  kafka_auto_create_topics :: bool
  kafka_topic_partitions :: i32
  kafka_topic_replication_factor :: i32
  hmac_secret_github :: "string option"
  hmac_secret_linear :: "string option"
  hmac_secret_example :: "string option"
  max_payload_bytes :: usize
  ip_limit_per_minute :: u32
  source_limit_per_minute :: u32
  trust_proxy_headers :: bool
  trusted_proxy_cidrs :: "ip_net list"
  cfg_dedup_ttl_seconds :: i64
  cfg_cooldown_seconds :: i64
  enforce_linear_timestamp_window :: bool
  linear_timestamp_window_seconds :: i64
  publish_queue_capacity :: usize
  publish_max_retries :: u32
  publish_backoff_base_ms :: u64
  publish_backoff_max_ms :: u64
  validation_mode :: string
  active_profile :: string
  contract_path :: "string option"
  active_ingress_adapter_id :: "string option"
  ingress_adapters :: "ingress_adapter list"
  serve_routes :: "serve_route_rule list"

subsection \<open>Reading single variables\<close>

definition env_trimmed :: "env \<Rightarrow> string \<Rightarrow> string option" where
  "env_trimmed e name = opt_filter (\<lambda>v. v \<noteq> []) (map_option trim (e name))"

definition required_env :: "env \<Rightarrow> string \<Rightarrow> string result" where
  "required_env e name =
     and_then (ok_or (''missing required env var: '' @ name) (e name)) (\<lambda>v.
       if blank v then Inl (''required env var '' @ name @ '' cannot be empty'') else Inr v)"

definition conditional_env :: "env \<Rightarrow> string \<Rightarrow> bool \<Rightarrow> string option result" where
  "conditional_env e name required =
     (if required then and_then (required_env e name) (\<lambda>v. Inr (Some v))
      else Inr (env_trimmed e name))"

definition parse_csv :: "string \<Rightarrow> string list" where
  "parse_csv raw = split_trimmed (CHR '','') raw"

definition env_csv_lower :: "env \<Rightarrow> string \<Rightarrow> string \<Rightarrow> string list result" where
  "env_csv_lower e name dflt =
     (let values = map to_ascii_lowercase (parse_csv (unwrap_or dflt (e name)))
      in if values = [] then Inl (name @ '' cannot be empty'') else Inr values)"

definition contains_source :: "string list \<Rightarrow> string \<Rightarrow> bool" where
  "contains_source values source = (source \<in> set values)"

definition topic_matches_source :: "string \<Rightarrow> string \<Rightarrow> bool" where
  "topic_matches_source topic source =
     (let normalized_topic = to_ascii_lowercase (trim topic)
      in normalized_topic = source \<or> ends_with (''.'' @ source) normalized_topic)"

text \<open>The five numeric readers share one shape: blank counts as unset, the text is parsed
  untrimmed.\<close>

definition env_number :: "(string \<Rightarrow> 'a option) \<Rightarrow> string \<Rightarrow> env \<Rightarrow> string \<Rightarrow> 'a \<Rightarrow> 'a result" where
  "env_number parse kind e name dflt =
     (case opt_filter (\<lambda>v. \<not> blank v) (e name) of
        None \<Rightarrow> Inr dflt
      | Some v \<Rightarrow> ok_or (''invalid '' @ kind @ '' for '' @ name) (parse v))"

definition env_u32 :: "env \<Rightarrow> string \<Rightarrow> u32 \<Rightarrow> u32 result" where
  "env_u32 = env_number parse_u32 ''u32''"

definition env_u64 :: "env \<Rightarrow> string \<Rightarrow> u64 \<Rightarrow> u64 result" where
  "env_u64 = env_number parse_u64 ''u64''"

definition env_i32 :: "env \<Rightarrow> string \<Rightarrow> i32 \<Rightarrow> i32 result" where
  "env_i32 = env_number parse_i32 ''i32''"

definition env_i64 :: "env \<Rightarrow> string \<Rightarrow> i64 \<Rightarrow> i64 result" where
  "env_i64 = env_number parse_i64 ''i64''"

definition env_usize :: "env \<Rightarrow> string \<Rightarrow> usize \<Rightarrow> usize result" where
  "env_usize = env_number parse_u64 ''usize''"

definition env_bool :: "env \<Rightarrow> string \<Rightarrow> bool \<Rightarrow> bool" where
  "env_bool e name dflt =
     (case e name of
        Some v \<Rightarrow> to_ascii_lowercase (trim v) \<in> {''1'', ''true'', ''yes'', ''on''}
      | None \<Rightarrow> dflt)"

definition env_cidrs :: "config_crates \<Rightarrow> env \<Rightarrow> string \<Rightarrow> string \<Rightarrow> ip_net list result" where
  "env_cidrs cc e name dflt =
     collect_results (\<lambda>v. ok_or (''invalid CIDR for '' @ name @ '': '' @ v) (parse_ipnet cc v))
       (split_trimmed (CHR '','') (unwrap_or dflt (e name)))"

definition parse_serve_routes_from_env :: "config_crates \<Rightarrow> env \<Rightarrow> serve_route_rule list result" where
  "parse_serve_routes_from_env cc e =
     (case e ''RELAY_SERVE_ROUTES_JSON'' of
        None \<Rightarrow> Inr []
      | Some raw \<Rightarrow>
          let trimmed = trim raw
          in if trimmed = [] then Inr []
             else ok_or ''parse RELAY_SERVE_ROUTES_JSON as route list'' (de_serve_routes cc trimmed))"

definition parse_ingress_adapters_from_env :: "config_crates \<Rightarrow> env \<Rightarrow> ingress_adapter list result" where
  "parse_ingress_adapters_from_env cc e =
     (case e ''RELAY_INGRESS_ADAPTERS_JSON'' of
        None \<Rightarrow> Inr []
      | Some raw \<Rightarrow>
          let trimmed = trim raw
          in if trimmed = [] then Inr []
             else ok_or ''parse RELAY_INGRESS_ADAPTERS_JSON as adapter list''
                    (de_ingress_adapters cc trimmed))"

subsection \<open>\<open>Config::from_env\<close>\<close>

text \<open>The topics of the sources: given explicitly, one for every enabled source, or derived.\<close>

definition read_source_topics :: "env \<Rightarrow> string list \<Rightarrow> string \<Rightarrow> string list result" where
  "read_source_topics e sources topic_prefix =
     (case env_trimmed e ''RELAY_SOURCE_TOPICS'' of
        Some raw_topics \<Rightarrow>
          let parsed_topics = parse_csv raw_topics
          in if parsed_topics = [] then Inl ''RELAY_SOURCE_TOPICS cannot be empty when provided''
             else and_then
               (for_each (\<lambda>source.
                  ensure (\<exists>topic \<in> set parsed_topics. topic_matches_source topic source)
                    (''RELAY_SOURCE_TOPICS must include a topic for enabled source '' @ source)) sources)
               (\<lambda>_. Inr parsed_topics)
      | None \<Rightarrow> Inr (map (\<lambda>source. topic_prefix @ ''.'' @ source) sources))"

definition read_source_topic_prefix :: "env \<Rightarrow> string result" where
  "read_source_topic_prefix e =
     (let topic_prefix = trim (unwrap_or ''webhooks'' (e ''RELAY_SOURCE_TOPIC_PREFIX''))
      in if topic_prefix = [] then Inl ''RELAY_SOURCE_TOPIC_PREFIX cannot be empty when provided''
         else Inr topic_prefix)"

text \<open>The struct literal: its fields are evaluated in the order they are written.\<close>

definition read_config :: "config_crates \<Rightarrow> env \<Rightarrow> string list \<Rightarrow> string \<Rightarrow> string list \<Rightarrow> config result" where
  "read_config cc e sources topic_prefix topics =
     and_then (required_env e ''KAFKA_BROKERS'') (\<lambda>brokers.
     and_then (env_i32 e ''KAFKA_TOPIC_PARTITIONS'' 3) (\<lambda>partitions.
     and_then (env_i32 e ''KAFKA_TOPIC_REPLICATION_FACTOR'' 1) (\<lambda>replication.
     and_then (conditional_env e ''HMAC_SECRET_GITHUB'' (contains_source sources ''github'')) (\<lambda>secret_github.
     and_then (conditional_env e ''HMAC_SECRET_LINEAR'' (contains_source sources ''linear'')) (\<lambda>secret_linear.
     and_then (conditional_env e ''HMAC_SECRET_EXAMPLE'' (contains_source sources ''example'')) (\<lambda>secret_example.
     and_then (env_usize e ''RELAY_MAX_PAYLOAD_BYTES'' 1048576) (\<lambda>max_payload.
     and_then (env_u32 e ''RELAY_IP_RATE_PER_MINUTE'' 100) (\<lambda>ip_limit.
     and_then (env_u32 e ''RELAY_SOURCE_RATE_PER_MINUTE'' 500) (\<lambda>source_limit.
     and_then (env_cidrs cc e ''RELAY_TRUSTED_PROXY_CIDRS'' ''127.0.0.1/32,::1/128'') (\<lambda>cidrs.
     and_then (env_i64 e ''RELAY_DEDUP_TTL_SECONDS'' 604800) (\<lambda>dedup_ttl.
     and_then (env_i64 e ''RELAY_COOLDOWN_SECONDS'' 30) (\<lambda>cooldown.
     and_then (env_i64 e ''RELAY_LINEAR_TIMESTAMP_WINDOW_SECONDS'' 60) (\<lambda>window.
     and_then (env_usize e ''RELAY_PUBLISH_QUEUE_CAPACITY'' 4096) (\<lambda>capacity.
     and_then (env_u32 e ''RELAY_PUBLISH_MAX_RETRIES'' 5) (\<lambda>max_retries.
     and_then (env_u64 e ''RELAY_PUBLISH_BACKOFF_BASE_MS'' 200) (\<lambda>backoff_base.
     and_then (env_u64 e ''RELAY_PUBLISH_BACKOFF_MAX_MS'' 5000) (\<lambda>backoff_max.
     and_then (parse_ingress_adapters_from_env cc e) (\<lambda>adapters.
     and_then (parse_serve_routes_from_env cc e) (\<lambda>routes.
       Inr \<lparr>bind_addr = unwrap_or ''0.0.0.0:8080'' (e ''RELAY_BIND''),
            enabled_sources = sources,
            source_topic_prefix = topic_prefix,
            relay_source_topics = topics,
            kafka_brokers = brokers,
            kafka_security_protocol =
              to_ascii_lowercase (trim (unwrap_or ''ssl'' (e ''KAFKA_SECURITY_PROTOCOL''))),
            kafka_allow_plaintext = env_bool e ''KAFKA_ALLOW_PLAINTEXT'' False,
            kafka_tls_cert = unwrap_or [] (e ''KAFKA_TLS_CERT''),
            kafka_tls_key = unwrap_or [] (e ''KAFKA_TLS_KEY''),
            kafka_tls_ca = unwrap_or [] (e ''KAFKA_TLS_CA''),
            kafka_dlq_topic = unwrap_or ''webhooks.dlq'' (e ''KAFKA_DLQ_TOPIC''),
            kafka_auto_create_topics = env_bool e ''KAFKA_AUTO_CREATE_TOPICS'' True,
            kafka_topic_partitions = partitions,
            kafka_topic_replication_factor = replication,
            hmac_secret_github = secret_github,
            hmac_secret_linear = secret_linear,
            hmac_secret_example = secret_example,
            max_payload_bytes = max_payload,
            ip_limit_per_minute = ip_limit,
            source_limit_per_minute = source_limit,
            trust_proxy_headers = env_bool e ''RELAY_TRUST_PROXY_HEADERS'' False,
            trusted_proxy_cidrs = cidrs,
            cfg_dedup_ttl_seconds = dedup_ttl,
            cfg_cooldown_seconds = cooldown,
            enforce_linear_timestamp_window = env_bool e ''RELAY_ENFORCE_LINEAR_TIMESTAMP_WINDOW'' True,
            linear_timestamp_window_seconds = window,
            publish_queue_capacity = capacity,
            publish_max_retries = max_retries,
            publish_backoff_base_ms = backoff_base,
            publish_backoff_max_ms = backoff_max,
            validation_mode =
              to_ascii_lowercase (trim (unwrap_or ''strict'' (e ''RELAY_VALIDATION_MODE''))),
            active_profile = trim (unwrap_or ''default-openclaw'' (e ''RELAY_PROFILE'')),
            contract_path = env_trimmed e ''RELAY_CONTRACT_PATH'',
            active_ingress_adapter_id = env_trimmed e ''RELAY_INGRESS_ADAPTER_ID'',
            ingress_adapters = adapters,
            serve_routes = routes\<rparr>)))))))))))))))))))"

definition validate_limits :: "config \<Rightarrow> unit result" where
  "validate_limits c = checks
     [ensure (0 < sint (kafka_topic_partitions c)) ''KAFKA_TOPIC_PARTITIONS must be a positive integer'',
      ensure (0 < sint (kafka_topic_replication_factor c))
        ''KAFKA_TOPIC_REPLICATION_FACTOR must be a positive integer'',
      ensure (0 < sint (cfg_dedup_ttl_seconds c)) ''RELAY_DEDUP_TTL_SECONDS must be a positive integer'',
      ensure (0 < sint (cfg_cooldown_seconds c)) ''RELAY_COOLDOWN_SECONDS must be a positive integer'',
      ensure (0 < sint (linear_timestamp_window_seconds c))
        ''RELAY_LINEAR_TIMESTAMP_WINDOW_SECONDS must be a positive integer'',
      ensure (\<not> (trust_proxy_headers c \<and> trusted_proxy_cidrs c = []))
        ''RELAY_TRUSTED_PROXY_CIDRS cannot be empty when RELAY_TRUST_PROXY_HEADERS is enabled'']"

definition validate_security_protocol :: "config \<Rightarrow> unit result" where
  "validate_security_protocol c =
     (if kafka_security_protocol c = ''ssl'' then checks
        [ensure (\<not> blank (kafka_tls_cert c)) ''KAFKA_TLS_CERT is required when KAFKA_SECURITY_PROTOCOL=ssl'',
         ensure (\<not> blank (kafka_tls_key c)) ''KAFKA_TLS_KEY is required when KAFKA_SECURITY_PROTOCOL=ssl'',
         ensure (\<not> blank (kafka_tls_ca c)) ''KAFKA_TLS_CA is required when KAFKA_SECURITY_PROTOCOL=ssl'']
      else if kafka_security_protocol c = ''plaintext'' then
        ensure (kafka_allow_plaintext c)
          ''KAFKA_SECURITY_PROTOCOL=plaintext requires KAFKA_ALLOW_PLAINTEXT=true''
      else Inl (''unsupported KAFKA_SECURITY_PROTOCOL='' @ kafka_security_protocol c
                  @ ''; expected ssl or plaintext''))"

definition validate_mode :: "config \<Rightarrow> unit result" where
  "validate_mode c =
     ensure (validation_mode c \<in> {''strict'', ''debug''})
       (''unsupported RELAY_VALIDATION_MODE='' @ validation_mode c @ ''; expected strict or debug'')"

definition validate_route :: "serve_route_rule \<Rightarrow> unit result" where
  "validate_route route = checks
     [ensure (\<not> blank (route_id route)) ''RELAY_SERVE_ROUTES_JSON route id cannot be empty'',
      ensure (\<not> blank (source_match route)) ''RELAY_SERVE_ROUTES_JSON route source_match cannot be empty'',
      ensure (\<not> blank (event_type_pattern route))
        ''RELAY_SERVE_ROUTES_JSON route event_type_pattern cannot be empty'',
      ensure (\<not> blank (target_topic route)) ''RELAY_SERVE_ROUTES_JSON route target_topic cannot be empty'']"

definition validate_serve_plugin :: "string \<Rightarrow> serve_plugin \<Rightarrow> unit result" where
  "validate_serve_plugin adapter_id plugin =
     (let at = ''RELAY_INGRESS_ADAPTERS_JSON adapter '' @ quoted adapter_id
      in case plugin of
           EventTypeAlias from to \<Rightarrow>
             ensure (\<not> (blank from \<or> blank to))
               (at @ '' event_type_alias plugin requires non-empty from/to'')
         | RequirePayloadField pointer \<Rightarrow> checks
             [ensure (\<not> blank pointer)
                (at @ '' require_payload_field plugin requires non-empty pointer''),
              ensure (starts_with ''/'' pointer)
                (at @ '' require_payload_field pointer must start with '' @ quoted ''/'')]
         | AddMetaFlag flag \<Rightarrow>
             ensure (\<not> blank flag) (at @ '' add_meta_flag plugin requires non-empty flag''))"

definition validate_serve_plugins :: "serve_plugin list \<Rightarrow> string \<Rightarrow> unit result" where
  "validate_serve_plugins plugins adapter_id = for_each (validate_serve_plugin adapter_id) plugins"

definition adapter_field :: "string \<Rightarrow> string \<Rightarrow> string \<Rightarrow> unit result" where
  "adapter_field driver field v =
     ensure (\<not> blank v)
       (''RELAY_INGRESS_ADAPTERS_JSON '' @ driver @ '' '' @ field @ '' cannot be empty'')"

fun validate_ingress_adapter :: "ingress_adapter \<Rightarrow> unit result" where
  "validate_ingress_adapter (HttpWebhookIngress aid bind path_template plugins) = checks
     [adapter_field ''http_webhook_ingress'' ''id'' aid,
      adapter_field ''http_webhook_ingress'' ''bind'' bind,
      adapter_field ''http_webhook_ingress'' ''path_template'' path_template,
      validate_serve_plugins plugins aid]"
| "validate_ingress_adapter (WebsocketIngress aid path_template auth_mode token_env plugins) = checks
     [adapter_field ''websocket_ingress'' ''id'' aid,
      adapter_field ''websocket_ingress'' ''path_template'' path_template,
      adapter_field ''websocket_ingress'' ''auth_mode'' auth_mode,
      validate_serve_plugins plugins aid]"
| "validate_ingress_adapter
     (McpIngestExposed aid tool_name transport_driver bind auth_mode token_env max_bytes path plugins) = checks
     [adapter_field ''mcp_ingest_exposed'' ''id'' aid,
      adapter_field ''mcp_ingest_exposed'' ''tool_name'' tool_name,
      adapter_field ''mcp_ingest_exposed'' ''transport_driver'' transport_driver,
      adapter_field ''mcp_ingest_exposed'' ''bind'' bind,
      adapter_field ''mcp_ingest_exposed'' ''auth_mode'' auth_mode,
      ensure (max_bytes \<noteq> 0)
        ''RELAY_INGRESS_ADAPTERS_JSON mcp_ingest_exposed max_payload_bytes must be positive'',
      adapter_field ''mcp_ingest_exposed'' ''path'' path,
      validate_serve_plugins plugins aid]"
| "validate_ingress_adapter (KafkaIngress aid topics group_id brokers plugins) = checks
     [adapter_field ''kafka_ingress'' ''id'' aid,
      ensure (topics \<noteq> [] \<and> (\<forall>topic \<in> set topics. \<not> blank topic))
        ''RELAY_INGRESS_ADAPTERS_JSON kafka_ingress topics must be non-empty'',
      adapter_field ''kafka_ingress'' ''group_id'' group_id,
      validate_serve_plugins plugins aid]"

definition validate_config :: "config \<Rightarrow> unit result" where
  "validate_config c = checks
     [validate_limits c, validate_security_protocol c, validate_mode c,
      for_each validate_route (serve_routes c),
      for_each validate_ingress_adapter (ingress_adapters c)]"

definition from_env :: "config_crates \<Rightarrow> env \<Rightarrow> config result" where
  "from_env cc e =
     and_then (env_csv_lower e ''RELAY_ENABLED_SOURCES'' ''github,linear'') (\<lambda>sources.
     if sources = [] then Inl ''RELAY_ENABLED_SOURCES cannot be empty'' else
     and_then (read_source_topic_prefix e) (\<lambda>topic_prefix.
     and_then (read_source_topics e sources topic_prefix) (\<lambda>topics.
     and_then (read_config cc e sources topic_prefix topics) (\<lambda>config.
     and_then (validate_config config) (\<lambda>_. Inr config)))))"

subsection \<open>Questions the receiver asks its configuration\<close>

definition is_source_enabled :: "config \<Rightarrow> string \<Rightarrow> bool" where
  "is_source_enabled c source =
     (let normalized = to_ascii_lowercase (trim source)
      in normalized \<in> set (enabled_sources c))"

definition config_source_topic_name :: "config \<Rightarrow> string \<Rightarrow> string" where
  "config_source_topic_name c source =
     (let normalized_source = to_ascii_lowercase (trim source)
      in case find (\<lambda>topic. topic_matches_source topic normalized_source) (relay_source_topics c) of
           Some topic \<Rightarrow> topic
         | None \<Rightarrow> source_topic_prefix c @ ''.'' @ normalized_source)"

subsection \<open>What a loaded configuration guarantees\<close>

definition secret_present :: "string option \<Rightarrow> bool" where
  "secret_present v \<longleftrightarrow> (\<exists>s. v = Some s \<and> \<not> blank s)"

definition source_wf :: "config \<Rightarrow> string \<Rightarrow> bool" where
  "source_wf c s \<longleftrightarrow>
     s \<noteq> [] \<and> to_ascii_lowercase (trim s) = s \<and>
     (\<exists>topic \<in> set (relay_source_topics c). topic_matches_source topic s) \<and>
     (s = ''github'' \<longrightarrow> secret_present (hmac_secret_github c)) \<and>
     (s = ''linear'' \<longrightarrow> secret_present (hmac_secret_linear c)) \<and>
     (s = ''example'' \<longrightarrow> secret_present (hmac_secret_example c))"

definition transport_wf :: "config \<Rightarrow> bool" where
  "transport_wf c \<longleftrightarrow>
     kafka_security_protocol c = ''ssl'' \<and> \<not> blank (kafka_tls_cert c) \<and> \<not> blank (kafka_tls_key c)
       \<and> \<not> blank (kafka_tls_ca c)
     \<or> kafka_security_protocol c = ''plaintext'' \<and> kafka_allow_plaintext c"

definition limits_wf :: "config \<Rightarrow> bool" where
  "limits_wf c \<longleftrightarrow>
     0 < sint (kafka_topic_partitions c) \<and> 0 < sint (kafka_topic_replication_factor c) \<and>
     0 < sint (cfg_dedup_ttl_seconds c) \<and> 0 < sint (cfg_cooldown_seconds c) \<and>
     0 < sint (linear_timestamp_window_seconds c) \<and>
     (trust_proxy_headers c \<longrightarrow> trusted_proxy_cidrs c \<noteq> [])"

definition config_wf :: "config \<Rightarrow> bool" where
  "config_wf c \<longleftrightarrow>
     enabled_sources c \<noteq> [] \<and> (\<forall>s \<in> set (enabled_sources c). source_wf c s) \<and>
     limits_wf c \<and> transport_wf c \<and> validation_mode c \<in> {''strict'', ''debug''} \<and>
     (\<forall>r \<in> set (serve_routes c). \<not> blank (route_id r) \<and> \<not> blank (source_match r)
        \<and> \<not> blank (event_type_pattern r) \<and> \<not> blank (target_topic r)) \<and>
     (\<forall>a \<in> set (ingress_adapters c). validate_ingress_adapter a = Inr ())"

lemma dot_not_white: "\<forall>w \<in> set white_space. CHR ''.'' \<notin> set w"
  by (simp add: white_space_def)

lemma parse_csv_members: "s \<in> set (parse_csv raw) \<Longrightarrow> s \<noteq> [] \<and> trimmed s"
  by (auto simp: parse_csv_def split_trimmed_def)

lemma env_csv_lower_members:
  "env_csv_lower e name d = Inr values \<Longrightarrow>
     values \<noteq> [] \<and> (\<forall>s \<in> set values. s \<noteq> [] \<and> to_ascii_lowercase (trim s) = s)"
proof -
  assume a: "env_csv_lower e name d = Inr values"
  then have v: "values = map to_ascii_lowercase (parse_csv (unwrap_or d (e name)))" "values \<noteq> []"
    by (auto simp: env_csv_lower_def Let_def split: if_splits)
  have "to_ascii_lowercase s \<noteq> [] \<and> to_ascii_lowercase (trim (to_ascii_lowercase s)) = to_ascii_lowercase s"
    if "s \<in> set (parse_csv (unwrap_or d (e name)))" for s
    using parse_csv_members [OF that] by (simp add: trim_lower trimmed_def)
  with v show ?thesis by auto
qed

lemma derived_topic_matches:
  assumes "trimmed p" "to_ascii_lowercase (trim s) = s"
  shows "topic_matches_source (p @ ''.'' @ s) s"
proof -
  have s: "trimmed s" "to_ascii_lowercase s = s"
    using assms(2) trim_lower [of "trim s"] by (simp_all add: trimmed_def)
  have "trimmed (p @ CHR ''.'' # s)" using assms(1) s(1) dot_not_white by (rule trimmed_sep)
  then have "trim (p @ CHR ''.'' # s) = p @ CHR ''.'' # s" by (simp add: trimmed_def)
  moreover have "ascii_lower (CHR ''.'') = CHR ''.''" by (simp add: ascii_lower_def byte_def)
  ultimately show ?thesis using s
    by (simp add: topic_matches_source_def Let_def ends_with_def suffix_def)
qed

lemma read_source_topics_cover:
  assumes "read_source_topics e sources p = Inr topics" "trimmed p"
    "\<forall>s \<in> set sources. to_ascii_lowercase (trim s) = s" "s \<in> set sources"
  shows "\<exists>topic \<in> set topics. topic_matches_source topic s"
proof (cases "env_trimmed e ''RELAY_SOURCE_TOPICS''")
  case None
  with assms have "p @ ''.'' @ s \<in> set topics" by (auto simp: read_source_topics_def)
  moreover have "topic_matches_source (p @ ''.'' @ s) s"
    using assms by (intro derived_topic_matches) auto
  ultimately show ?thesis by blast
next
  case (Some raw)
  with assms show ?thesis
    by (auto simp: read_source_topics_def Let_def result_iffs split: if_splits)
qed

lemma read_source_topic_prefix_trimmed: "read_source_topic_prefix e = Inr p \<Longrightarrow> trimmed p"
  by (auto simp: read_source_topic_prefix_def Let_def split: if_splits)

lemma conditional_env_required: "conditional_env e name True = Inr v \<Longrightarrow> secret_present v"
  by (auto simp: conditional_env_def required_env_def secret_present_def result_iffs split: if_splits)

lemma read_config_fields:
  assumes "read_config cc e sources p topics = Inr c"
  shows "enabled_sources c = sources" "relay_source_topics c = topics"
    "contains_source sources ''github'' \<Longrightarrow> secret_present (hmac_secret_github c)"
    "contains_source sources ''linear'' \<Longrightarrow> secret_present (hmac_secret_linear c)"
    "contains_source sources ''example'' \<Longrightarrow> secret_present (hmac_secret_example c)"
  using assms
  by (auto simp: read_config_def and_then_Inr_iff dest!: conditional_env_required)

lemma validate_config_wf:
  assumes "validate_config c = Inr ()"
  shows "limits_wf c" "transport_wf c" "validation_mode c \<in> {''strict'', ''debug''}"
    "\<forall>r \<in> set (serve_routes c). \<not> blank (route_id r) \<and> \<not> blank (source_match r)
        \<and> \<not> blank (event_type_pattern r) \<and> \<not> blank (target_topic r)"
    "\<forall>a \<in> set (ingress_adapters c). validate_ingress_adapter a = Inr ()"
proof -
  have v: "validate_limits c = Inr ()" "validate_security_protocol c = Inr ()" "validate_mode c = Inr ()"
      "for_each validate_route (serve_routes c) = Inr ()"
      "for_each validate_ingress_adapter (ingress_adapters c) = Inr ()"
    using assms by (simp_all add: validate_config_def checks_Inr_iff)
  show "limits_wf c" using v(1) by (simp add: validate_limits_def limits_wf_def result_iffs)
  show "transport_wf c"
    using v(2) by (auto simp: validate_security_protocol_def transport_wf_def result_iffs split: if_splits)
  show "validation_mode c \<in> {''strict'', ''debug''}" using v(3) by (simp add: validate_mode_def result_iffs)
  show "\<forall>r \<in> set (serve_routes c). \<not> blank (route_id r) \<and> \<not> blank (source_match r)
        \<and> \<not> blank (event_type_pattern r) \<and> \<not> blank (target_topic r)"
    using v(4) by (simp add: validate_route_def result_iffs)
  show "\<forall>a \<in> set (ingress_adapters c). validate_ingress_adapter a = Inr ()"
    using v(5) by (simp add: for_each_Inr_iff)
qed

lemma from_env_wf:
  assumes "from_env cc e = Inr c"
  shows "config_wf c"
proof -
  obtain sources p topics where
    s: "env_csv_lower e ''RELAY_ENABLED_SOURCES'' ''github,linear'' = Inr sources"
    and p: "read_source_topic_prefix e = Inr p"
    and t: "read_source_topics e sources p = Inr topics"
    and r: "read_config cc e sources p topics = Inr c"
    and v: "validate_config c = Inr ()"
    using assms by (auto simp: from_env_def and_then_Inr_iff split: if_splits)
  have members: "sources \<noteq> []" "\<forall>s \<in> set sources. s \<noteq> [] \<and> to_ascii_lowercase (trim s) = s"
    using env_csv_lower_members [OF s] by auto
  have "source_wf c s" if "s \<in> set sources" for s
    using that members read_source_topics_cover [OF t read_source_topic_prefix_trimmed [OF p]]
      read_config_fields [OF r]
    by (auto simp: source_wf_def contains_source_def)
  with members read_config_fields(1) [OF r] validate_config_wf [OF v] show ?thesis
    by (simp add: config_wf_def)
qed

lemma enabled_topic_configured:
  assumes "config_wf c" "is_source_enabled c s"
  shows "config_source_topic_name c s \<in> set (relay_source_topics c)
       \<and> topic_matches_source (config_source_topic_name c s) (to_ascii_lowercase (trim s))"
proof -
  let ?n = "to_ascii_lowercase (trim s)"
  have "\<exists>topic \<in> set (relay_source_topics c). topic_matches_source topic ?n"
    using assms by (auto simp: config_wf_def is_source_enabled_def Let_def source_wf_def)
  then obtain topic where "find (\<lambda>topic. topic_matches_source topic ?n) (relay_source_topics c) = Some topic"
    by (cases "find (\<lambda>topic. topic_matches_source topic ?n) (relay_source_topics c)")
       (auto simp: find_None_iff)
  then show ?thesis
    by (auto simp: config_source_topic_name_def Let_def dest: find_SomeD)
qed

subsection \<open>Properties\<close>

text \<open>A small environment and the readers of the other crates, for the witnesses.\<close>

definition demo_config_crates :: config_crates where
  "demo_config_crates = \<lparr>parse_ipnet = \<lambda>s. Some (IpNet (V4 [127, 0, 0, 1]) 32),
     de_serve_routes = \<lambda>s. None, de_ingress_adapters = \<lambda>s. None\<rparr>"

definition demo_env :: env where
  "demo_env = map_of
     [(''KAFKA_BROKERS'', ''broker:9093''), (''HMAC_SECRET_GITHUB'', ''github-secret''),
      (''HMAC_SECRET_LINEAR'', ''linear-secret''), (''KAFKA_SECURITY_PROTOCOL'', ''plaintext''),
      (''KAFKA_ALLOW_PLAINTEXT'', ''true'')]"

definition demo_config :: config where
  "demo_config = projr (from_env demo_config_crates demo_env)"

lemma demo_config_loaded: "from_env demo_config_crates demo_env = Inr demo_config"
proof -
  have "\<not> isl (from_env demo_config_crates demo_env)" by code_simp
  then show ?thesis by (cases "from_env demo_config_crates demo_env") (auto simp: demo_config_def)
qed

text \<open>C27. Every configuration the receiver starts with is well-formed, whatever the environment:
  at least one source, each with a normalised name, a topic, and (for the built-in ones) a
  non-blank secret; positive partitions, replication, time-to-live, cooldown and window; TLS
  material for \<open>ssl\<close> or an explicit opt-in for \<open>plaintext\<close> and no other protocol; a known
  validation mode; no blank field in a route and only valid adapters.\<close>

theorem from_env_config_wf:
  assumes "from_env cc e = Inr c"
  shows "config_wf c"
  using assms by (rule from_env_wf)

theorem from_env_config_wf_witness: "config_wf demo_config"
  by (rule from_env_config_wf [OF demo_config_loaded])

text \<open>In a loaded configuration the topic of an enabled source is one of the configured topics
  (the ones the receiver creates and the consumer subscribes to), and its name ends in the
  source's name, however the source is spelt.\<close>

theorem enabled_source_topic:
  assumes "from_env cc e = Inr c" "is_source_enabled c s"
  shows "config_source_topic_name c s \<in> set (relay_source_topics c)
       \<and> topic_matches_source (config_source_topic_name c s) (to_ascii_lowercase (trim s))"
  using assms by (intro enabled_topic_configured from_env_wf)

theorem enabled_source_topic_witness:
  "config_source_topic_name demo_config '' GitHub '' \<in> set (relay_source_topics demo_config)"
proof -
  have "is_source_enabled demo_config '' GitHub ''" by code_simp
  from enabled_source_topic [OF demo_config_loaded this] show ?thesis by blast
qed

text \<open>A boolean variable is read as false for every set value but \<open>1\<close>, \<open>true\<close>,
  \<open>yes\<close> and \<open>on\<close>, blank included, while the numeric readers take a blank value for unset: so a
  blank or misspelt \<open>RELAY_ENFORCE_LINEAR_TIMESTAMP_WINDOW\<close> switches the replay check off.\<close>

theorem blank_switches_replay_check_off:
  assumes "from_env cc e = Inr c" "e ''RELAY_ENFORCE_LINEAR_TIMESTAMP_WINDOW'' = Some v"
    "to_ascii_lowercase (trim v) \<notin> {''1'', ''true'', ''yes'', ''on''}"
  shows "\<not> enforce_linear_timestamp_window c \<and> verify_linear_timestamp_window pl now w (enforce_linear_timestamp_window c)"
proof -
  have "enforce_linear_timestamp_window c = env_bool e ''RELAY_ENFORCE_LINEAR_TIMESTAMP_WINDOW'' True"
    using assms(1) by (auto simp: from_env_def read_config_def and_then_Inr_iff split: if_splits)
  with assms(2,3) show ?thesis by (simp add: env_bool_def verify_linear_timestamp_window_def)
qed

theorem blank_switches_replay_check_off_witness:
  "\<exists>c. from_env demo_config_crates (demo_env(''RELAY_ENFORCE_LINEAR_TIMESTAMP_WINDOW'' \<mapsto> [])) = Inr c
     \<and> \<not> enforce_linear_timestamp_window c"
proof -
  let ?e = "demo_env(''RELAY_ENFORCE_LINEAR_TIMESTAMP_WINDOW'' \<mapsto> [])"
  have "\<not> isl (from_env demo_config_crates ?e)" by code_simp
  then obtain c where c: "from_env demo_config_crates ?e = Inr c"
    by (cases "from_env demo_config_crates ?e") auto
  then show ?thesis using blank_switches_replay_check_off [of demo_config_crates ?e c "[]"] by simp
qed

end
