(* ===== verification/Sources.thy ===== *)
theory Sources
  imports Serve_Config
begin

section \<open>Webhook sources\<close>

text \<open>
  \<open>src/sources/\<close>: the trait \<open>SourceHandler\<close> is the record \<open>source_handler\<close> of its methods,
  and each implementation (\<open>github.rs\<close>, \<open>linear.rs\<close>, \<open>example.rs\<close>) a value of it, so that
  \<open>handler_for_source\<close> returns one as the source returns a \<open>&dyn SourceHandler\<close>. What the
  webhook handler relies on is the locale \<open>source_contract\<close>; the three implementations are its
  instances.

  An \<open>axum::http::HeaderMap\<close> is the partial map from lower-case names to the values that are
  visible ASCII (\<open>headers.get(name).and_then(|v| v.to_str().ok())\<close>); \<open>get\<close> ignores the case of
  the name.
\<close>

type_synonym headers = "string \<Rightarrow> string option"

definition header_get :: "headers \<Rightarrow> string \<Rightarrow> string option" where
  "header_get headers name = headers (to_ascii_lowercase name)"

datatype validation_error = Unauthorized string | BadRequest string

record source_handler =
  sh_source_name :: string
  sh_validate_request :: "crates \<Rightarrow> config \<Rightarrow> headers \<Rightarrow> string \<Rightarrow> validation_error + unit"
  sh_validate_payload :: "config \<Rightarrow> json \<Rightarrow> i64 \<Rightarrow> validation_error + unit"
  sh_event_type :: "headers \<Rightarrow> json \<Rightarrow> validation_error + string"
  sh_dedup_key :: "headers \<Rightarrow> json \<Rightarrow> validation_error + string"
  sh_cooldown_key :: "json \<Rightarrow> string option"

subsection \<open>sources/mod.rs\<close>

text \<open>The default method \<open>topic_name\<close> and the default \<open>validate_payload\<close>.\<close>

definition handler_topic_name :: "source_handler \<Rightarrow> config \<Rightarrow> string" where
  "handler_topic_name h c = config_source_topic_name c (sh_source_name h)"

definition default_validate_payload :: "config \<Rightarrow> json \<Rightarrow> i64 \<Rightarrow> validation_error + unit" where
  "default_validate_payload c p now = Inr ()"

definition normalize_source :: "string \<Rightarrow> string option" where
  "normalize_source source =
     (let normalized = to_ascii_lowercase (trim source)
      in if normalized = [] then None else Some normalized)"

fun json_path :: "string list \<Rightarrow> json \<Rightarrow> json option" where
  "json_path [] current = Some current"
| "json_path (segment # path) current = Option.bind (json_get segment current) (json_path path)"

definition payload_token :: "json \<Rightarrow> string list \<Rightarrow> string option" where
  "payload_token payload path =
     Option.bind (json_path path payload) (\<lambda>current.
       case as_str current of
         Some v \<Rightarrow> (let trimmed = trim v in if trimmed = [] then None else Some trimmed)
       | None \<Rightarrow>
           (case as_i64 current of
              Some v \<Rightarrow> Some (show_int (sint v))
            | None \<Rightarrow> map_option (\<lambda>v. show_nat (unat v)) (as_u64 current)))"

definition header_value :: "headers \<Rightarrow> string \<Rightarrow> string option" where
  "header_value headers name =
     opt_filter (\<lambda>v. v \<noteq> []) (map_option trim (header_get headers name))"

subsection \<open>sources/github.rs\<close>

definition github_header_string :: "headers \<Rightarrow> string \<Rightarrow> string option" where
  "github_header_string headers name =
     opt_filter (\<lambda>v. v \<noteq> []) (map_option trim (header_get headers name))"

definition github_validate :: "crates \<Rightarrow> string \<Rightarrow> headers \<Rightarrow> string \<Rightarrow> validation_error + unit" where
  "github_validate cr secret headers body =
     and_then (ok_or (Unauthorized ''missing github signature'')
                 (github_header_string headers ''X-Hub-Signature-256'')) (\<lambda>signature.
       if verify_github_signature cr secret body signature then Inr ()
       else Inl (Unauthorized ''invalid github signature''))"

definition github_event_type :: "headers \<Rightarrow> json \<Rightarrow> validation_error + string" where
  "github_event_type headers payload =
     and_then (ok_or (BadRequest ''missing X-GitHub-Event'')
                 (github_header_string headers ''X-GitHub-Event'')) (\<lambda>event_name.
       let action = trim (unwrap_or [] (Option.bind (json_get ''action'' payload) as_str))
       in if action = [] then Inr event_name else Inr (event_name @ ''.'' @ action))"

definition github_entity_id_for_cooldown :: "json \<Rightarrow> string option" where
  "github_entity_id_for_cooldown payload =
     or_else (payload_token payload [''pull_request'', ''number''])
      (or_else (payload_token payload [''issue'', ''number''])
               (payload_token payload [''number'']))"

definition github_entity_id :: "json \<Rightarrow> string" where
  "github_entity_id payload =
     unwrap_or ''unknown''
       (or_else (github_entity_id_for_cooldown payload)
         (or_else (payload_token payload [''comment'', ''id''])
           (or_else (payload_token payload [''review'', ''id''])
                    (payload_token payload [''repository'', ''id'']))))"

definition github_handler_validate_request ::
  "crates \<Rightarrow> config \<Rightarrow> headers \<Rightarrow> string \<Rightarrow> validation_error + unit" where
  "github_handler_validate_request cr c headers body =
     and_then (ok_or (Unauthorized ''missing github secret'') (hmac_secret_github c)) (\<lambda>secret.
       github_validate cr secret headers body)"

definition github_handler_dedup_key :: "headers \<Rightarrow> json \<Rightarrow> validation_error + string" where
  "github_handler_dedup_key headers payload =
     and_then (ok_or (BadRequest ''missing X-GitHub-Delivery'')
                 (header_value headers ''X-GitHub-Delivery'')) (\<lambda>delivery_id.
       let action = unwrap_or ''unknown'' (payload_token payload [''action'']);
           entity_id = github_entity_id payload
       in Inr (github_dedup_key delivery_id action entity_id))"

definition github_handler_cooldown_key :: "json \<Rightarrow> string option" where
  "github_handler_cooldown_key payload =
     Option.bind (payload_token payload [''repository'', ''full_name'']) (\<lambda>repo.
     Option.bind (github_entity_id_for_cooldown payload) (\<lambda>entity_id.
       Some (github_cooldown_key repo entity_id)))"

definition github_handler :: source_handler where
  "github_handler = \<lparr>sh_source_name = ''github'',
     sh_validate_request = github_handler_validate_request,
     sh_validate_payload = default_validate_payload,
     sh_event_type = github_event_type,
     sh_dedup_key = github_handler_dedup_key,
     sh_cooldown_key = github_handler_cooldown_key\<rparr>"

subsection \<open>sources/linear.rs\<close>

definition linear_header_string :: "headers \<Rightarrow> string \<Rightarrow> string option" where
  "linear_header_string headers name =
     opt_filter (\<lambda>v. v \<noteq> []) (map_option trim (header_get headers name))"

definition linear_validate :: "crates \<Rightarrow> string \<Rightarrow> headers \<Rightarrow> string \<Rightarrow> validation_error + unit" where
  "linear_validate cr secret headers body =
     and_then (ok_or (Unauthorized ''missing linear signature'')
                 (linear_header_string headers ''Linear-Signature'')) (\<lambda>signature.
       if verify_linear_signature cr secret body signature then Inr ()
       else Inl (Unauthorized ''invalid linear signature''))"

definition linear_event_type :: "headers \<Rightarrow> json \<Rightarrow> validation_error + string" where
  "linear_event_type headers payload =
     and_then (ok_or (BadRequest ''missing linear type'')
        (or_else (opt_filter (\<lambda>v. v \<noteq> []) (map_option trim (Option.bind (json_get ''type'' payload) as_str)))
                 (linear_header_string headers ''Linear-Event''))) (\<lambda>linear_type.
       let action = opt_filter (\<lambda>v. v \<noteq> []) (map_option trim (Option.bind (json_get ''action'' payload) as_str));
           normalized_type = to_ascii_lowercase linear_type
       in case action of
            Some action \<Rightarrow> Inr (normalized_type @ ''.'' @ to_ascii_lowercase action)
          | None \<Rightarrow> Inr normalized_type)"

definition linear_entity_id_for_cooldown :: "json \<Rightarrow> string option" where
  "linear_entity_id_for_cooldown payload =
     or_else (payload_token payload [''data'', ''id'']) (payload_token payload [''data'', ''identifier''])"

definition linear_entity_id :: "json \<Rightarrow> string" where
  "linear_entity_id payload =
     unwrap_or ''unknown''
       (or_else (linear_entity_id_for_cooldown payload) (payload_token payload [''webhookId'']))"

definition linear_handler_validate_request ::
  "crates \<Rightarrow> config \<Rightarrow> headers \<Rightarrow> string \<Rightarrow> validation_error + unit" where
  "linear_handler_validate_request cr c headers body =
     and_then (ok_or (Unauthorized ''missing linear secret'') (hmac_secret_linear c)) (\<lambda>secret.
       linear_validate cr secret headers body)"

definition linear_handler_validate_payload :: "config \<Rightarrow> json \<Rightarrow> i64 \<Rightarrow> validation_error + unit" where
  "linear_handler_validate_payload c payload now_epoch_seconds =
     (if verify_linear_timestamp_window payload now_epoch_seconds
           (linear_timestamp_window_seconds c) (enforce_linear_timestamp_window c)
      then Inr ()
      else Inl (Unauthorized ''linear webhook rejected due to timestamp window check''))"

definition linear_handler_dedup_key :: "headers \<Rightarrow> json \<Rightarrow> validation_error + string" where
  "linear_handler_dedup_key headers payload =
     and_then (ok_or (BadRequest ''missing Linear-Delivery'')
                 (header_value headers ''Linear-Delivery'')) (\<lambda>delivery_id.
       let action = unwrap_or ''unknown'' (payload_token payload [''action'']);
           entity_id = linear_entity_id payload
       in Inr (linear_dedup_key delivery_id action entity_id))"

definition linear_handler_cooldown_key :: "json \<Rightarrow> string option" where
  "linear_handler_cooldown_key payload =
     Option.bind (payload_token payload [''data'', ''team'', ''key'']) (\<lambda>team_key.
     Option.bind (linear_entity_id_for_cooldown payload) (\<lambda>entity_id.
       Some (linear_cooldown_key team_key entity_id)))"

definition linear_handler :: source_handler where
  "linear_handler = \<lparr>sh_source_name = ''linear'',
     sh_validate_request = linear_handler_validate_request,
     sh_validate_payload = linear_handler_validate_payload,
     sh_event_type = linear_event_type,
     sh_dedup_key = linear_handler_dedup_key,
     sh_cooldown_key = linear_handler_cooldown_key\<rparr>"

subsection \<open>sources/example.rs\<close>

definition example_validate :: "crates \<Rightarrow> string \<Rightarrow> headers \<Rightarrow> string \<Rightarrow> validation_error + unit" where
  "example_validate cr secret headers body =
     and_then (ok_or (Unauthorized ''missing example token'')
                 (header_value headers ''X-Example-Token'')) (\<lambda>token.
       if verify_shared_token cr secret token then Inr ()
       else Inl (Unauthorized ''invalid example token''))"

definition example_event_type :: "headers \<Rightarrow> json \<Rightarrow> validation_error + string" where
  "example_event_type headers payload =
     and_then (ok_or (BadRequest ''missing example event'')
        (or_else (header_value headers ''X-Example-Event'')
          (or_else (payload_token payload [''event_type'']) (payload_token payload [''type'']))))
       (\<lambda>event.
         let action = payload_token payload [''action''];
             normalized_event = to_ascii_lowercase event
         in case action of
              Some action \<Rightarrow> Inr (normalized_event @ ''.'' @ to_ascii_lowercase action)
            | None \<Rightarrow> Inr normalized_event)"

definition example_entity_id_for_cooldown :: "json \<Rightarrow> string option" where
  "example_entity_id_for_cooldown payload =
     or_else (payload_token payload [''data'', ''id'']) (payload_token payload [''id''])"

definition example_entity_id :: "json \<Rightarrow> string" where
  "example_entity_id payload =
     unwrap_or ''unknown''
       (or_else (example_entity_id_for_cooldown payload) (payload_token payload [''resource'', ''id'']))"

definition example_handler_validate_request ::
  "crates \<Rightarrow> config \<Rightarrow> headers \<Rightarrow> string \<Rightarrow> validation_error + unit" where
  "example_handler_validate_request cr c headers body =
     and_then (ok_or (Unauthorized ''missing example secret'') (hmac_secret_example c)) (\<lambda>secret.
       example_validate cr secret headers body)"

definition example_handler_dedup_key :: "headers \<Rightarrow> json \<Rightarrow> validation_error + string" where
  "example_handler_dedup_key headers payload =
     and_then (ok_or (BadRequest ''missing X-Example-Delivery'')
                 (header_value headers ''X-Example-Delivery'')) (\<lambda>delivery_id.
       let action = unwrap_or ''unknown'' (payload_token payload [''action'']);
           entity_id = example_entity_id payload
       in Inr (''example:'' @ delivery_id @ '':'' @ action @ '':'' @ entity_id))"

definition example_handler_cooldown_key :: "json \<Rightarrow> string option" where
  "example_handler_cooldown_key payload =
     Option.bind (or_else (payload_token payload [''scope''])
        (or_else (payload_token payload [''tenant'']) (payload_token payload [''project'', ''id''])))
       (\<lambda>scope. Option.bind (example_entity_id_for_cooldown payload) (\<lambda>entity_id.
          Some (''cooldown-example-'' @ scope @ ''-'' @ entity_id)))"

definition example_handler :: source_handler where
  "example_handler = \<lparr>sh_source_name = ''example'',
     sh_validate_request = example_handler_validate_request,
     sh_validate_payload = default_validate_payload,
     sh_event_type = example_event_type,
     sh_dedup_key = example_handler_dedup_key,
     sh_cooldown_key = example_handler_cooldown_key\<rparr>"

subsection \<open>The registry\<close>

definition SOURCE_HANDLERS :: "string \<rightharpoonup> source_handler" where
  "SOURCE_HANDLERS =
     Map.empty(sh_source_name example_handler \<mapsto> example_handler,
               sh_source_name github_handler \<mapsto> github_handler,
               sh_source_name linear_handler \<mapsto> linear_handler)"

definition handler_for_source :: "string \<Rightarrow> source_handler option" where
  "handler_for_source source = Option.bind (normalize_source source) SOURCE_HANDLERS"

definition has_handler :: "string \<Rightarrow> bool" where
  "has_handler source = (handler_for_source source \<noteq> None)"

definition known_source_names :: "string list" where
  "known_source_names = [''example'', ''github'', ''linear'']"

subsection \<open>What the webhook handler relies on\<close>

text \<open>
  The laws of a source: without its secret no request passes; a request fails only as
  unauthorized; the delivery header decides whether there is an idempotency key, and the key
  starts with the source's name and the delivery id; cooldown keys carry the source's name; event
  types are never empty.
\<close>

locale source_contract =
  fixes h :: source_handler
    and secret :: "config \<Rightarrow> string option"
    and delivery :: string
  assumes closed: "secret c = None \<Longrightarrow> \<exists>m. sh_validate_request h cr c hs body = Inl (Unauthorized m)"
    and request_error: "sh_validate_request h cr c hs body = Inl e \<Longrightarrow> \<exists>m. e = Unauthorized m"
    and dedup_missing: "header_value hs delivery = None \<Longrightarrow> \<exists>m. sh_dedup_key h hs p = Inl (BadRequest m)"
    and dedup_present: "header_value hs delivery = Some d \<Longrightarrow>
      \<exists>r. sh_dedup_key h hs p = Inr (sh_source_name h @ '':'' @ d @ '':'' @ r)"
    and cooldown_named: "sh_cooldown_key h p = Some k \<Longrightarrow> \<exists>r. k = ''cooldown-'' @ sh_source_name h @ ''-'' @ r"
    and type_nonempty: "sh_event_type h hs p = Inr t \<Longrightarrow> t \<noteq> []"
    and name_ok: "sh_source_name h \<noteq> []" "CHR '':'' \<notin> set (sh_source_name h)"
      "to_ascii_lowercase (trim (sh_source_name h)) = sh_source_name h"
begin

lemma accepted_has_secret: "sh_validate_request h cr c hs body = Inr () \<Longrightarrow> \<exists>s. secret c = Some s"
  using closed [of c cr hs body] by (cases "secret c") auto

lemma dedup_delivery:
  "sh_dedup_key h hs p = Inr k \<Longrightarrow>
     \<exists>d r. header_value hs delivery = Some d \<and> k = sh_source_name h @ '':'' @ d @ '':'' @ r"
  using dedup_missing [of hs p] dedup_present [of hs _ p] by (cases "header_value hs delivery") fastforce+

lemma dedup_nonempty: "sh_dedup_key h hs p = Inr k \<Longrightarrow> k \<noteq> []"
  using dedup_delivery by fastforce

lemma topic_of_enabled:
  assumes "config_wf c" "is_source_enabled c (sh_source_name h)"
  shows "handler_topic_name h c \<in> set (relay_source_topics c)"
  using enabled_topic_configured [OF assms] by (simp add: handler_topic_name_def)

end

lemma header_value_nonempty: "header_value hs n = Some v \<Longrightarrow> v \<noteq> []"
  by (auto simp: header_value_def opt_filter_def split: option.splits if_splits)

lemma header_copies:
  "github_header_string = header_value" "linear_header_string = header_value"
  by (auto simp: fun_eq_iff header_value_def github_header_string_def linear_header_string_def)

lemma payload_token_nonempty: "payload_token p path = Some v \<Longrightarrow> v \<noteq> []"
  by (auto simp: payload_token_def show_int_def Let_def split: option.splits if_splits bind_splits)

lemmas handler_defs = github_handler_def linear_handler_def example_handler_def
lemmas request_defs = github_handler_validate_request_def github_validate_def
  linear_handler_validate_request_def linear_validate_def
  example_handler_validate_request_def example_validate_def
lemmas key_defs = github_handler_dedup_key_def linear_handler_dedup_key_def
  example_handler_dedup_key_def github_dedup_key_def linear_dedup_key_def
lemmas cooldown_defs = github_handler_cooldown_key_def linear_handler_cooldown_key_def
  example_handler_cooldown_key_def github_cooldown_key_def linear_cooldown_key_def

interpretation github: source_contract github_handler hmac_secret_github "''X-GitHub-Delivery''"
proof unfold_locales
  fix hs p t assume "sh_event_type github_handler hs p = Inr t"
  then show "t \<noteq> []"
    by (auto simp: handler_defs github_event_type_def header_copies Let_def result_iffs
        dest: header_value_nonempty split: if_splits)
next
  show "to_ascii_lowercase (trim (sh_source_name github_handler)) = sh_source_name github_handler"
    unfolding handler_defs by code_simp
qed (auto simp: handler_defs request_defs key_defs cooldown_defs Let_def and_then_def ok_or_def
    split: option.splits if_splits bind_splits)

interpretation linear: source_contract linear_handler hmac_secret_linear "''Linear-Delivery''"
proof unfold_locales
  fix hs p t assume "sh_event_type linear_handler hs p = Inr t"
  then show "t \<noteq> []"
    by (auto simp: handler_defs linear_event_type_def header_copies Let_def result_iffs or_else_def
        dest: header_value_nonempty split: if_splits option.splits)
next
  show "to_ascii_lowercase (trim (sh_source_name linear_handler)) = sh_source_name linear_handler"
    unfolding handler_defs by code_simp
qed (auto simp: handler_defs request_defs key_defs cooldown_defs Let_def and_then_def ok_or_def
    split: option.splits if_splits bind_splits)

interpretation example: source_contract example_handler hmac_secret_example "''X-Example-Delivery''"
proof unfold_locales
  fix hs p t assume "sh_event_type example_handler hs p = Inr t"
  then show "t \<noteq> []"
    by (auto simp: handler_defs example_event_type_def Let_def result_iffs or_else_def
        dest: header_value_nonempty payload_token_nonempty split: if_splits option.splits)
next
  show "to_ascii_lowercase (trim (sh_source_name example_handler)) = sh_source_name example_handler"
    unfolding handler_defs by code_simp
qed (auto simp: handler_defs request_defs key_defs cooldown_defs Let_def and_then_def ok_or_def
    split: option.splits if_splits bind_splits)

text \<open>The registry holds these three and nothing else.\<close>

lemma handler_names [simp]:
  "sh_source_name github_handler = ''github''" "sh_source_name linear_handler = ''linear''"
  "sh_source_name example_handler = ''example''"
  by (simp_all add: handler_defs)

lemma handler_for_source_cases:
  assumes "handler_for_source s = Some h"
  obtains "h = github_handler" | "h = linear_handler" | "h = example_handler"
  using assms by (auto simp: handler_for_source_def SOURCE_HANDLERS_def split: bind_splits if_splits)

lemma handler_for_source_name:
  "handler_for_source s = Some h \<Longrightarrow> normalize_source s = Some (sh_source_name h)"
  by (auto simp: handler_for_source_def SOURCE_HANDLERS_def split: bind_splits if_splits)

lemma registered_names [simp]:
  "handler_for_source ''github'' = Some github_handler"
  "handler_for_source ''linear'' = Some linear_handler"
  "handler_for_source ''example'' = Some example_handler"
proof -
  have "normalize_source ''github'' = Some ''github''" "normalize_source ''linear'' = Some ''linear''"
    "normalize_source ''example'' = Some ''example''" by code_simp+
  then show "handler_for_source ''github'' = Some github_handler"
    "handler_for_source ''linear'' = Some linear_handler"
    "handler_for_source ''example'' = Some example_handler"
    by (simp_all add: handler_for_source_def SOURCE_HANDLERS_def)
qed

definition handler_secret :: "config \<Rightarrow> source_handler \<Rightarrow> string option" where
  "handler_secret c h =
     (if sh_source_name h = ''github'' then hmac_secret_github c
      else if sh_source_name h = ''linear'' then hmac_secret_linear c
      else if sh_source_name h = ''example'' then hmac_secret_example c else None)"

definition delivery_header :: "source_handler \<Rightarrow> string" where
  "delivery_header h =
     (if sh_source_name h = ''github'' then ''X-GitHub-Delivery''
      else if sh_source_name h = ''linear'' then ''Linear-Delivery'' else ''X-Example-Delivery'')"

lemma registered_contract:
  "handler_for_source s = Some h \<Longrightarrow> source_contract h (\<lambda>c. handler_secret c h) (delivery_header h)"
  by (erule handler_for_source_cases)
     (simp_all add: handler_secret_def delivery_header_def github.source_contract_axioms
       linear.source_contract_axioms example.source_contract_axioms)

subsection \<open>Properties\<close>

text \<open>Sources fail closed: whatever name a request uses, the handler it reaches rejects every
  request as unauthorized when the source's secret is not configured; and no request is ever
  rejected by authentication in another way.\<close>

theorem handlers_fail_closed:
  assumes "handler_for_source s = Some h"
  shows "(handler_secret c h = None \<longrightarrow> (\<exists>m. sh_validate_request h cr c hs body = Inl (Unauthorized m)))
       \<and> (\<forall>e. sh_validate_request h cr c hs body = Inl e \<longrightarrow> (\<exists>m. e = Unauthorized m))"
  using source_contract.closed [OF registered_contract [OF assms]]
    source_contract.request_error [OF registered_contract [OF assms]] by blast

theorem handlers_fail_closed_witness:
  "\<exists>m. sh_validate_request example_handler demo_crates demo_config (\<lambda>_. Some ''guess'') ''{}'' = Inl (Unauthorized m)"
proof -
  have "hmac_secret_example demo_config = None" by code_simp
  then show ?thesis
    using handlers_fail_closed [OF registered_names(3), of demo_config demo_crates "\<lambda>_. Some ''guess''" "''{}''"]
    by (simp add: handler_secret_def)
qed

text \<open>The idempotency keys of the receiver identify deliveries across all sources: if two
  requests, through handlers of any registered sources, get the same key, they came to the same
  source with the same delivery id (for delivery ids without a colon, such as the UUIDs of GitHub
  and Linear).\<close>

theorem dedup_key_identifies_delivery:
  assumes h: "handler_for_source s = Some h" "handler_for_source s' = Some h'"
    and k: "sh_dedup_key h hs p = Inr k" "sh_dedup_key h' hs' p' = Inr k"
    and d: "header_value hs (delivery_header h) = Some d" "CHR '':'' \<notin> set d"
    and d': "header_value hs' (delivery_header h') = Some d'" "CHR '':'' \<notin> set d'"
  shows "sh_source_name h = sh_source_name h' \<and> d = d'"
proof -
  obtain r where r: "k = sh_source_name h @ CHR '':'' # d @ CHR '':'' # r"
    using source_contract.dedup_delivery [OF registered_contract [OF h(1)] k(1)] d by auto
  obtain r' where "k = sh_source_name h' @ CHR '':'' # d' @ CHR '':'' # r'"
    using source_contract.dedup_delivery [OF registered_contract [OF h(2)] k(2)] d' by auto
  with r have "sh_source_name h @ CHR '':'' # d @ CHR '':'' # r =
      sh_source_name h' @ CHR '':'' # d' @ CHR '':'' # r'" by simp
  then show ?thesis
    using source_contract.name_ok(2) [OF registered_contract [OF h(1)]]
      source_contract.name_ok(2) [OF registered_contract [OF h(2)]] d d'
    by (simp add: append_sep_inj)
qed

definition demo_headers :: headers where
  "demo_headers = map_of [(''x-github-delivery'', ''d1''), (''linear-delivery'', ''d1'')]"

theorem dedup_key_identifies_delivery_witness:
  "sh_dedup_key github_handler demo_headers (JObject []) \<noteq> sh_dedup_key linear_handler demo_headers (JObject [])"
proof -
  have d: "header_value demo_headers (delivery_header github_handler) = Some ''d1''"
    "header_value demo_headers (delivery_header linear_handler) = Some ''d1''"
    by (simp_all add: delivery_header_def) code_simp+
  obtain k where k: "sh_dedup_key github_handler demo_headers (JObject []) = Inr k"
    using github.dedup_present [of demo_headers "''d1''" "JObject []"] d by (auto simp: delivery_header_def)
  show ?thesis
    using dedup_key_identifies_delivery [OF registered_names(1,2) k _ d(1) _ d(2), where p' = "JObject []"] k by auto
qed

text \<open>C17. Authenticity of the signed sources: a GitHub or Linear request passes exactly when the
  secret is configured and the signature header, normalised, is the hexadecimal HMAC-SHA256 of the
  very bytes of the body under that secret.\<close>

theorem signed_sources_authentic:
  assumes "ct_eq_ok cr" "hex_ok cr"
  shows "(sh_validate_request github_handler cr c hs body = Inr () \<longleftrightarrow>
       (\<exists>secret sig. hmac_secret_github c = Some secret \<and> header_value hs ''X-Hub-Signature-256'' = Some sig
          \<and> normalize_signature sig = compute_hmac_sha256_hex cr secret body))
     \<and> (sh_validate_request linear_handler cr c hs body = Inr () \<longleftrightarrow>
       (\<exists>secret sig. hmac_secret_linear c = Some secret \<and> header_value hs ''Linear-Signature'' = Some sig
          \<and> normalize_signature sig = compute_hmac_sha256_hex cr secret body))"
  by (auto simp: handler_defs request_defs header_copies result_iffs verify_github_signature_def
      verify_linear_signature_def Let_def constant_time_hex_equals_iff [OF assms(1)] split: if_splits)

theorem signed_sources_authentic_witness:
  "sh_validate_request github_handler demo_crates demo_config (\<lambda>_. None) ''{}'' \<noteq> Inr ()"
  using signed_sources_authentic [OF ct_eq_ok_demo(2) hex_ok_demo(2), of demo_config "\<lambda>_. None" "''{}''"]
  by (simp add: header_value_def header_get_def)

text \<open>The shared token of the example source is compared after the normalisation made for
  hexadecimal signatures: a request passes exactly when header and secret agree once trimmed, freed
  of one \<open>sha256=\<close> prefix and of white space and lower-cased, so letter case does not count.\<close>

theorem example_token_normalised:
  assumes "ct_eq_ok cr"
  shows "sh_validate_request example_handler cr c hs body = Inr () \<longleftrightarrow>
     (\<exists>secret token. hmac_secret_example c = Some secret \<and> header_value hs ''X-Example-Token'' = Some token
        \<and> normalize_signature token = normalize_signature secret)"
  by (auto simp: handler_defs request_defs result_iffs verify_shared_token_def Let_def
      constant_time_hex_equals_iff [OF assms] split: if_splits)

theorem example_token_normalised_witness:
  "sh_validate_request example_handler demo_crates (demo_config\<lparr>hmac_secret_example := Some ''Secret''\<rparr>)
     (\<lambda>_. Some ''sECRET'') ''{}'' = Inr ()"
proof -
  have "header_value (\<lambda>_. Some ''sECRET'') ''X-Example-Token'' = Some ''sECRET''"
    "normalize_signature ''sECRET'' = normalize_signature ''Secret''" by code_simp+
  then show ?thesis
    using example_token_normalised [OF ct_eq_ok_demo(2), of "demo_config\<lparr>hmac_secret_example := Some ''Secret''\<rparr>"
        "\<lambda>_. Some ''sECRET''" "''{}''"] by auto
qed

end
