(* ===== verification/Wildcard.thy ===== *)
theory Wildcard
  imports Prelude
begin

section \<open>Glob patterns of routes\<close>

text \<open>
  \<open>wildcard_matches\<close> occurs twice in the program: in the receiver
  (\<open>src/main.rs\<close>, for the serve routes) and in the consumer
  (\<open>crates/hook-runtime/src/smash/consumer.rs\<close>, for topics and event filters). Both copies
  scan greedily over the literal segments of the pattern. The reference is the relation
  \<open>glob\<close>: every star stands for any text. The locale \<open>glob_matcher\<close> is what the route
  look-ups rely on; both copies are instances of it.
\<close>

subsection \<open>The matcher of the receiver and of the consumer\<close>

text \<open>
  The \<open>for\<close> loop over the non-empty segments: \<open>index\<close> counts from 0, and
  \<open>index == segments.len() - 1\<close> is \<open>rest = []\<close>.
\<close>

fun match_segments :: "bool \<Rightarrow> bool \<Rightarrow> nat \<Rightarrow> string list \<Rightarrow> string \<Rightarrow> bool" where
  "match_segments requires_prefix requires_suffix index [] remainder = True"
| "match_segments requires_prefix requires_suffix index (segment # rest) remainder =
     (if index = 0 \<and> requires_prefix then
        (if \<not> starts_with segment remainder then False
         else match_segments requires_prefix requires_suffix (Suc index) rest
                (drop (length segment) remainder))
      else if rest = [] \<and> requires_suffix then ends_with segment remainder
      else (case find_sub segment remainder of
              Some position \<Rightarrow>
                match_segments requires_prefix requires_suffix (Suc index) rest
                  (drop (position + length segment) remainder)
            | None \<Rightarrow> False))"

definition wildcard_matches :: "string \<Rightarrow> string \<Rightarrow> bool" where
  "wildcard_matches pattern v =
     (let normalized_pattern = trim pattern
      in if normalized_pattern = [] then False
         else if normalized_pattern = ''*'' then True
         else if \<not> contains_sub ''*'' normalized_pattern then normalized_pattern = v
         else
           let requires_prefix = \<not> starts_with ''*'' normalized_pattern;
               requires_suffix = \<not> ends_with ''*'' normalized_pattern;
               segments = filter (\<lambda>segment. segment \<noteq> []) (split_on (CHR ''*'') normalized_pattern)
           in if segments = [] then True
              else match_segments requires_prefix requires_suffix 0 segments v)"

definition smash_wildcard_matches :: "string \<Rightarrow> string \<Rightarrow> bool" where
  "smash_wildcard_matches pattern v =
     (let normalized_pattern = trim pattern
      in if normalized_pattern = [] then False
         else if normalized_pattern = ''*'' then True
         else if \<not> contains_sub ''*'' normalized_pattern then normalized_pattern = v
         else
           let requires_prefix = \<not> starts_with ''*'' normalized_pattern;
               requires_suffix = \<not> ends_with ''*'' normalized_pattern;
               segments = filter (\<lambda>segment. segment \<noteq> []) (split_on (CHR ''*'') normalized_pattern)
           in if segments = [] then True
              else match_segments requires_prefix requires_suffix 0 segments v)"

subsection \<open>The meaning of a pattern\<close>

inductive glob :: "string \<Rightarrow> string \<Rightarrow> bool" where
  glob_Nil: "glob [] []"
| glob_char: "c \<noteq> CHR ''*'' \<Longrightarrow> glob p v \<Longrightarrow> glob (c # p) (c # v)"
| glob_star: "glob p v \<Longrightarrow> glob (CHR ''*'' # p) (w @ v)"

inductive_simps glob_Nil_simp: "glob [] v"
inductive_simps glob_Cons_simp: "glob (c # p) v"

lemma glob_self: "glob p p"
proof (induction p)
  case (Cons c p)
  then show ?case using glob_star [of p p "[c]"] glob_char [of c p p] by (cases "c = CHR ''*''") simp_all
qed (rule glob_Nil)

text \<open>The same by segments: literal texts in order, anything between two of them.\<close>

fun seg_match :: "string list \<Rightarrow> string \<Rightarrow> bool" where
  "seg_match [] v = False"
| "seg_match [s] v = (v = s)"
| "seg_match (s # t # ss) v = (\<exists>w v'. v = s @ w @ v' \<and> seg_match (t # ss) v')"

definition floating :: "string list \<Rightarrow> string \<Rightarrow> bool" where
  "floating ss v \<longleftrightarrow> (\<exists>w v'. v = w @ v' \<and> seg_match ss v')"

subsection \<open>Splitting at stars\<close>

lemma split_on_some: "c \<in> set s \<Longrightarrow> \<exists>t ts. split_on c s = t # ts \<and> ts \<noteq> []"
  by (induction s) (auto split: list.splits)

lemma hd_split_on: "s \<noteq> [] \<Longrightarrow> hd (split_on c s) = [] \<longleftrightarrow> hd s = c"
  by (cases s) (auto split: list.splits)

lemma last_split_on: "s \<noteq> [] \<Longrightarrow> last (split_on c s) = [] \<longleftrightarrow> last s = c"
proof (induction s)
  case (Cons x s)
  show ?case
  proof (cases s)
    case (Cons y t)
    obtain z zs where z: "split_on c (y # t) = z # zs" by (meson neq_Nil_conv split_on_not_Nil)
    have "last ((x # z) # zs) = [] \<longleftrightarrow> last (z # zs) = []" if "zs \<noteq> []"
      using that by simp
    moreover have "last (y # t) \<noteq> c" if "zs = []"
    proof -
      have "c \<notin> set (y # t)" using that z split_on_some [of c "y # t"] by auto
      then show ?thesis using last_in_set [of "y # t"] by auto
    qed
    ultimately show ?thesis using Cons.IH Cons z
      by (cases "zs = []") (auto split: list.splits)
  qed simp
qed simp

lemma find_sub_single: "find_sub [c] s = None \<longleftrightarrow> c \<notin> set s"
  by (induction s) auto

lemma contains_star: "contains_sub [c] s \<longleftrightarrow> c \<in> set s"
  by (simp add: contains_sub_def find_sub_single del: not_None_eq)

lemma starts_with_single: "s \<noteq> [] \<Longrightarrow> starts_with [c] s \<longleftrightarrow> hd s = c"
  by (cases s) (auto simp: starts_with_def)

lemma ends_with_single: "s \<noteq> [] \<Longrightarrow> ends_with [c] s \<longleftrightarrow> last s = c"
  by (cases s rule: rev_cases) (auto simp: ends_with_def)

subsection \<open>First occurrences\<close>

lemma find_sub_Some: "find_sub s v = Some n \<Longrightarrow> \<exists>w v'. v = w @ s @ v' \<and> length w = n"
proof (induction v arbitrary: n)
  case Nil
  then show ?case by (auto split: if_splits)
next
  case (Cons c v)
  show ?case
  proof (cases "prefix s (c # v)")
    case True
    with Cons.prems show ?thesis by (auto simp: prefix_def)
  next
    case False
    with Cons.prems obtain m where m: "find_sub s v = Some m" "n = Suc m" by auto
    from Cons.IH [OF m(1)] obtain w v' where "v = w @ s @ v'" "length w = m" by blast
    with m show ?thesis by (metis append_Cons length_Cons)
  qed
qed

lemma find_sub_prefix: "prefix s v \<Longrightarrow> find_sub s v = Some 0"
  by (cases v) auto

lemma find_sub_occurs: "\<exists>n. find_sub s (w @ s @ v) = Some n \<and> n \<le> length w"
proof (induction w)
  case Nil
  then show ?case by (simp add: find_sub_prefix)
next
  case (Cons c w)
  then show ?case by auto
qed

subsection \<open>The greedy scan is complete\<close>

lemma floating_mono: "floating ss v \<Longrightarrow> floating ss (x @ v)"
  unfolding floating_def by (metis append.assoc)

lemma floating_last: "floating [s] v \<longleftrightarrow> suffix s v"
  by (auto simp: floating_def suffix_def)

lemma floating_Cons:
  "ss \<noteq> [] \<Longrightarrow> floating (s # ss) v \<longleftrightarrow> (\<exists>w v'. v = w @ s @ v' \<and> floating ss v')"
  by (cases ss) (auto simp: floating_def)

lemma floating_find:
  assumes "ss \<noteq> []"
  shows "floating (s # ss) v \<longleftrightarrow>
    (case find_sub s v of Some n \<Rightarrow> floating ss (drop (n + length s) v) | None \<Rightarrow> False)"
proof (cases "find_sub s v")
  case None
  have "v \<noteq> w @ s @ v'" for w v' using None find_sub_occurs [of s w v'] by auto
  with None assms show ?thesis by (simp add: floating_Cons)
next
  case (Some n)
  obtain w v' where v: "v = w @ s @ v'" "length w = n" using find_sub_Some [OF Some] by blast
  have "floating ss v'" if f: "floating ss y" and eq: "v = x @ s @ y" for x y
  proof -
    have "n \<le> length x" using find_sub_occurs [of s x y] Some eq by simp
    moreover have "length x + length s + length y = n + length s + length v'"
      using arg_cong [OF eq, of length] v by simp
    ultimately have "length y \<le> length v'" by simp
    moreover have "suffix y v" using eq suffixI [of v "x @ s" y] by simp
    moreover have "suffix v' v" using v suffixI [of v "w @ s" v'] by simp
    ultimately have "suffix y v'" by (metis suffix_length_suffix)
    then show ?thesis using f floating_mono by (auto simp: suffix_def)
  qed
  with v Some assms show ?thesis by (auto simp: floating_Cons)
qed

lemma floating_empty: "ss \<noteq> [] \<Longrightarrow> floating ([] # ss) v \<longleftrightarrow> floating ss v"
  by (auto simp: floating_Cons intro: floating_mono exI [of _ "[]"])

lemma match_segments_floating:
  assumes "ss \<noteq> []" "i \<noteq> 0 \<or> \<not> pre"
  shows "match_segments pre (last ss \<noteq> []) i (filter (\<lambda>s. s \<noteq> []) ss) v \<longleftrightarrow> floating ss v"
  using assms
proof (induction ss arbitrary: i v)
  case (Cons s ss)
  show ?case
  proof (cases "ss = []")
    case True
    with Cons.prems show ?thesis by (auto simp: floating_last ends_with_def)
  next
    case False
    have rest: "filter (\<lambda>s. s \<noteq> []) ss = [] \<Longrightarrow> last ss = []"
      using False by (metis (mono_tags, lifting) filter_empty_conv last_in_set)
    show ?thesis
    proof (cases "s = []")
      case True
      with False Cons show ?thesis by (simp add: floating_empty)
    next
      case nonempty: False
      have "match_segments pre (last ss \<noteq> []) (Suc i) (filter (\<lambda>s. s \<noteq> []) ss) x \<longleftrightarrow> floating ss x"
        for x using Cons.IH [OF False] by simp
      with False nonempty Cons.prems rest show ?thesis
        by (auto simp: floating_find split: option.splits)
    qed
  qed
qed simp

subsection \<open>Segments and globs\<close>

lemma seg_match_Cons: "ss \<noteq> [] \<Longrightarrow> seg_match (s # ss) v \<longleftrightarrow> (\<exists>v'. v = s @ v' \<and> floating ss v')"
  by (cases ss) (auto simp: floating_def)

lemma glob_segments: "glob p v \<longleftrightarrow> seg_match (split_on (CHR ''*'') p) v"
proof (induction p arbitrary: v)
  case Nil
  then show ?case by (simp add: glob_Nil_simp)
next
  case (Cons c p)
  obtain z zs where z: "split_on (CHR ''*'') p = z # zs" by (meson neq_Nil_conv split_on_not_Nil)
  show ?case
  proof (cases "c = CHR ''*''")
    case True
    with Cons z show ?thesis by (auto simp: glob_Cons_simp)
  next
    case False
    have "seg_match ((c # z) # zs) v \<longleftrightarrow> (\<exists>v'. v = c # v' \<and> seg_match (z # zs) v')"
      by (cases zs) auto
    with False Cons z show ?thesis by (auto simp: glob_Cons_simp)
  qed
qed

lemma match_segments_glob:
  assumes "p \<noteq> []" "CHR ''*'' \<in> set p"
  shows "match_segments (hd p \<noteq> CHR ''*'') (last p \<noteq> CHR ''*'') 0
           (filter (\<lambda>s. s \<noteq> []) (split_on (CHR ''*'') p)) v \<longleftrightarrow> glob p v"
proof -
  obtain s ss where s: "split_on (CHR ''*'') p = s # ss" "ss \<noteq> []"
    using split_on_some [OF assms(2)] by auto
  have pre: "hd p \<noteq> CHR ''*'' \<longleftrightarrow> s \<noteq> []" using hd_split_on [OF assms(1), of "CHR ''*''"] s by simp
  have suf: "last p \<noteq> CHR ''*'' \<longleftrightarrow> last ss \<noteq> []"
    using last_split_on [OF assms(1), of "CHR ''*''"] s by simp
  show ?thesis
  proof (cases "s = []")
    case True
    then have "match_segments (hd p \<noteq> CHR ''*'') (last ss \<noteq> []) 0 (filter (\<lambda>s. s \<noteq> []) ss) v
        \<longleftrightarrow> floating ss v"
      using s pre by (intro match_segments_floating) auto
    with True s suf show ?thesis by (simp add: glob_segments seg_match_Cons)
  next
    case False
    have fl: "match_segments True (last ss \<noteq> []) (Suc 0) (filter (\<lambda>s. s \<noteq> []) ss) x \<longleftrightarrow> floating ss x"
      for x using s by (intro match_segments_floating) auto
    have "glob p v \<longleftrightarrow> prefix s v \<and> floating ss (drop (length s) v)"
      by (auto simp: glob_segments s seg_match_Cons prefix_def)
    moreover have "(hd p \<noteq> CHR ''*'') = True" "(last p \<noteq> CHR ''*'') = (last ss \<noteq> [])"
      using False pre suf by simp_all
    ultimately show ?thesis using False
      by (simp only: s(1) filter.simps match_segments.simps simp_thms if_True fl starts_with_def)
         simp
  qed
qed

lemma glob_literal: "CHR ''*'' \<notin> set p \<Longrightarrow> glob p v \<longleftrightarrow> v = p"
  by (simp add: glob_segments split_on_none)

lemma glob_all: "glob ''*'' v"
  using glob_star [OF glob_Nil, of v] by simp

text \<open>An empty list of segments is no special case: the loop answers the same.\<close>

lemma wildcard_matches_glob: "wildcard_matches p v \<longleftrightarrow> trim p \<noteq> [] \<and> glob (trim p) v"
proof (cases "trim p = [] \<or> trim p = ''*'' \<or> CHR ''*'' \<notin> set (trim p)")
  case True
  then show ?thesis
    by (elim disjE) (auto simp: wildcard_matches_def Let_def contains_star glob_literal glob_all split: if_splits)
next
  case False
  then have "p \<noteq> []" and t: "trim p \<noteq> []" and star: "CHR ''*'' \<in> set (trim p)" by auto
  show ?thesis
    using match_segments_glob [OF t star, of v] False
    by (cases "filter (\<lambda>s. s \<noteq> []) (split_on (CHR ''*'') (trim p)) = []")
       (simp_all add: wildcard_matches_def Let_def contains_star starts_with_single
         ends_with_single del: filter_empty_conv filter_False)
qed

lemma smash_wildcard_matches_glob:
  "smash_wildcard_matches p v \<longleftrightarrow> trim p \<noteq> [] \<and> glob (trim p) v"
  using wildcard_matches_glob by (simp add: smash_wildcard_matches_def wildcard_matches_def)

subsection \<open>What a route look-up relies on\<close>

locale glob_matcher =
  fixes matches :: "string \<Rightarrow> string \<Rightarrow> bool"
  assumes matches_glob: "matches p v \<longleftrightarrow> trim p \<noteq> [] \<and> glob (trim p) v"
begin

lemma blank_never: "trim p = [] \<Longrightarrow> \<not> matches p v"
  by (simp add: matches_glob)

lemma literal_exact: "CHR ''*'' \<notin> set (trim p) \<Longrightarrow> matches p v \<longleftrightarrow> trim p \<noteq> [] \<and> v = trim p"
  by (simp add: matches_glob glob_literal)

lemma star_always: "trim p = ''*'' \<Longrightarrow> matches p v"
  by (simp add: matches_glob glob_all)

lemma first_match:
  "find (\<lambda>r. matches (f r) v) rs = Some r \<longleftrightarrow>
     (\<exists>i < length rs. rs ! i = r \<and> matches (f r) v \<and> (\<forall>j < i. \<not> matches (f (rs ! j)) v))"
  by (auto simp: find_Some_iff)

end

interpretation serve: glob_matcher wildcard_matches
  by unfold_locales (rule wildcard_matches_glob)

interpretation smash: glob_matcher smash_wildcard_matches
  by unfold_locales (rule smash_wildcard_matches_glob)

subsection \<open>Properties\<close>

text \<open>C14. The greedy matcher of the receiver decides exactly the glob language of the trimmed
  pattern, where each star stands for any text; a blank pattern matches nothing.\<close>

theorem wildcard_matches_is_glob:
  "wildcard_matches pattern v \<longleftrightarrow> trim pattern \<noteq> [] \<and> glob (trim pattern) v"
  by (rule serve.matches_glob)

text \<open>The two copies of the matcher agree on every pattern and value, so a topic pattern
  means the same in the receiver and in the consumer.\<close>

theorem wildcard_copies_agree: "smash_wildcard_matches pattern v = wildcard_matches pattern v"
  by (simp add: smash.matches_glob serve.matches_glob)

end
