(* ===== verification/Idempotency.thy ===== *)
theory Idempotency
  imports Numbers
begin

section \<open>Idempotency store and source rate limiter\<close>

text \<open>
  The in-memory state of the receiver: \<open>src/idempotency.rs\<close> (which deliveries were seen, which
  entities cool down) and \<open>src/middleware.rs\<close> (how many requests a source made in the current
  minute). A \<open>Mutex<HashMap<..>>\<close> is a partial map behind \<open>Mutex\<close>, or \<open>Poisoned\<close> after a
  panic of a holder; each operation takes the state and returns it updated. Handlers run one at a
  time on each mutex, so a history of the store is a list of calls, folded by \<open>check_all\<close> and
  \<open>allow_all\<close>.
\<close>

datatype 'a mutex = Mutex 'a | Poisoned

subsection \<open>idempotency.rs\<close>

datatype idempotency_decision = Accept | Duplicate | Cooldown

type_synonym expirations = "string \<rightharpoonup> i64"

record idempotency_store =
  dedup_ttl_seconds :: i64
  cooldown_seconds :: i64
  dedup_expirations :: "expirations mutex"
  cooldown_expirations :: "expirations mutex"

definition new_idempotency_store :: "i64 \<Rightarrow> i64 \<Rightarrow> idempotency_store" where
  "new_idempotency_store ttl cooldown =
     \<lparr>dedup_ttl_seconds = ttl, cooldown_seconds = cooldown,
      dedup_expirations = Mutex Map.empty, cooldown_expirations = Mutex Map.empty\<rparr>"

definition prune_expired :: "expirations \<Rightarrow> i64 \<Rightarrow> expirations" where
  "prune_expired cache now_epoch = (\<lambda>k. opt_filter (\<lambda>expires_at. less_i64 now_epoch expires_at) (cache k))"

definition live :: "expirations \<Rightarrow> string \<Rightarrow> i64 \<Rightarrow> bool" where
  "live cache k now_epoch =
     (case cache k of Some expires_at \<Rightarrow> less_i64 now_epoch expires_at | None \<Rightarrow> False)"

text \<open>The second half of \<open>check\<close>, after the delivery was recorded.\<close>

definition check_cooldown ::
  "idempotency_store \<Rightarrow> string option \<Rightarrow> i64 \<Rightarrow> idempotency_decision \<times> idempotency_store" where
  "check_cooldown st cooldown_key now_epoch =
     (case cooldown_key of
        None \<Rightarrow> (Accept, st)
      | Some key \<Rightarrow>
          if key = [] then (Accept, st)
          else (case cooldown_expirations st of
                  Poisoned \<Rightarrow> (Cooldown, st)
                | Mutex cache \<Rightarrow>
                    let guard = prune_expired cache now_epoch
                    in if live guard key now_epoch
                       then (Cooldown, st\<lparr>cooldown_expirations := Mutex guard\<rparr>)
                       else (Accept, st\<lparr>cooldown_expirations :=
                               Mutex (guard(key \<mapsto> now_epoch + cooldown_seconds st))\<rparr>)))"

definition check ::
  "idempotency_store \<Rightarrow> string \<Rightarrow> string option \<Rightarrow> i64 \<Rightarrow> idempotency_decision \<times> idempotency_store" where
  "check st dedup_key cooldown_key now_epoch =
     (if dedup_key = [] then (Accept, st)
      else (case dedup_expirations st of
              Poisoned \<Rightarrow> (Duplicate, st)
            | Mutex cache \<Rightarrow>
                let guard = prune_expired cache now_epoch
                in if live guard dedup_key now_epoch
                   then (Duplicate, st\<lparr>dedup_expirations := Mutex guard\<rparr>)
                   else check_cooldown
                          (st\<lparr>dedup_expirations := Mutex (guard(dedup_key \<mapsto> now_epoch + dedup_ttl_seconds st))\<rparr>)
                          cooldown_key now_epoch))"

text \<open>A history of calls: dedup key, cooldown key, clock.\<close>

type_synonym check_call = "string \<times> string option \<times> i64"

fun check_all :: "idempotency_store \<Rightarrow> check_call list \<Rightarrow> idempotency_decision list \<times> idempotency_store" where
  "check_all st [] = ([], st)"
| "check_all st ((k, c, t) # calls) =
     (let (d, st') = check st k c t; (ds, st'') = check_all st' calls in (d # ds, st''))"

subsection \<open>middleware.rs\<close>

record source_rate_window =
  minute_bucket :: i64
  window_count :: u32

record source_rate_limiter =
  limit_per_minute :: u32
  windows :: "(string \<rightharpoonup> source_rate_window) mutex"

definition new_source_rate_limiter :: "u32 \<Rightarrow> source_rate_limiter" where
  "new_source_rate_limiter limit = \<lparr>limit_per_minute = limit, windows = Mutex Map.empty\<rparr>"

definition now_minute :: "i64 \<Rightarrow> i64" where
  "now_minute now_epoch = div_i64 now_epoch 60"

definition allow :: "source_rate_limiter \<Rightarrow> string \<Rightarrow> i64 \<Rightarrow> bool \<times> source_rate_limiter" where
  "allow lim source now_epoch =
     (case windows lim of
        Poisoned \<Rightarrow> (False, lim)
      | Mutex guard \<Rightarrow>
          let minute = now_minute now_epoch;
              entry = unwrap_or \<lparr>minute_bucket = minute, window_count = 0\<rparr> (guard source);
              entry = (if minute_bucket entry \<noteq> minute
                       then entry\<lparr>minute_bucket := minute, window_count := 0\<rparr> else entry)
          in if limit_per_minute lim \<le> window_count entry
             then (False, lim\<lparr>windows := Mutex (guard(source \<mapsto> entry))\<rparr>)
             else (True, lim\<lparr>windows := Mutex (guard(source \<mapsto>
                     entry\<lparr>window_count := saturating_add (window_count entry) 1\<rparr>))\<rparr>))"

fun allow_all :: "source_rate_limiter \<Rightarrow> (string \<times> i64) list \<Rightarrow> bool list \<times> source_rate_limiter" where
  "allow_all lim [] = ([], lim)"
| "allow_all lim ((s, t) # calls) =
     (let (ok, lim') = allow lim s t; (oks, lim'') = allow_all lim' calls in (ok # oks, lim''))"

subsection \<open>One call of the store\<close>

lemma prune_live: "live (prune_expired cache now) k t \<longleftrightarrow> live cache k now \<and> live cache k t"
  by (auto simp: live_def prune_expired_def opt_filter_def split: option.splits)

lemma live_update: "live (cache(k \<mapsto> e)) k' t \<longleftrightarrow> (if k' = k then less_i64 t e else live cache k' t)"
  by (simp add: live_def)

lemma live_earlier: "live cache k t \<Longrightarrow> le_i64 u t \<Longrightarrow> live cache k u"
  by (auto simp: live_def num_simps split: option.splits)

text \<open>Whether a delivery key is taken at a time; a poisoned map takes every key.\<close>

definition taken :: "expirations mutex \<Rightarrow> string \<Rightarrow> i64 \<Rightarrow> bool" where
  "taken m k t = (case m of Poisoned \<Rightarrow> True | Mutex cache \<Rightarrow> live cache k t)"

lemma taken_simps [simp]: "taken Poisoned k t" "taken (Mutex cache) k t = live cache k t"
  by (simp_all add: taken_def)

lemma check_cooldown_keeps [simp]:
  "dedup_expirations (snd (check_cooldown st c t)) = dedup_expirations st"
  "dedup_ttl_seconds (snd (check_cooldown st c t)) = dedup_ttl_seconds st"
  "cooldown_seconds (snd (check_cooldown st c t)) = cooldown_seconds st"
  by (auto simp: check_cooldown_def Let_def split: option.splits mutex.splits)

lemma check_keeps [simp]:
  "dedup_ttl_seconds (snd (check st k c t)) = dedup_ttl_seconds st"
  "cooldown_seconds (snd (check st k c t)) = cooldown_seconds st"
  by (auto simp: check_def Let_def split: mutex.splits)

lemma check_cooldown_not_duplicate [simp]: "fst (check_cooldown st c t) \<noteq> Duplicate"
  by (auto simp: check_cooldown_def Let_def split: option.splits mutex.splits)

lemma check_Duplicate_iff:
  "fst (check st k c t) = Duplicate \<longleftrightarrow> k \<noteq> [] \<and> taken (dedup_expirations st) k t"
  by (auto simp: check_def Let_def prune_live split: mutex.splits)

lemma check_Cooldown_iff:
  "fst (check st k c t) = Cooldown \<longleftrightarrow>
     k \<noteq> [] \<and> \<not> taken (dedup_expirations st) k t \<and>
     (\<exists>key. c = Some key \<and> key \<noteq> [] \<and> taken (cooldown_expirations st) key t)"
  by (auto simp: check_def check_cooldown_def Let_def prune_live split: mutex.splits option.splits)

lemma fst_check:
  "fst (check st k c t) =
     (if k = [] then Accept
      else if taken (dedup_expirations st) k t then Duplicate
      else (case c of
              Some key \<Rightarrow> if key \<noteq> [] \<and> taken (cooldown_expirations st) key t then Cooldown else Accept
            | None \<Rightarrow> Accept))"
  by (auto simp: check_def check_cooldown_def Let_def prune_live split: mutex.splits option.splits)

text \<open>A taken key stays taken until its expiry, whatever else is checked meanwhile.\<close>

lemma check_taken_mono:
  assumes "taken (dedup_expirations st) k t" "k \<noteq> []" "le_i64 u t"
  shows "taken (dedup_expirations (snd (check st k' c u))) k t"
proof (cases "dedup_expirations st")
  case (Mutex cache)
  with assms have lt: "live cache k t" and lu: "live cache k u"
    using live_earlier by auto
  show ?thesis
    using Mutex lt lu assms
    by (cases "k' = k") (auto simp: check_def Let_def prune_live live_update)
qed (simp add: check_def)

lemma cooldown_taken_mono:
  assumes "taken (cooldown_expirations st) key t" "key \<noteq> []" "le_i64 u t"
  shows "taken (cooldown_expirations (snd (check st k' c u))) key t"
proof (cases "cooldown_expirations st")
  case (Mutex cache)
  with assms have lt: "live cache key t" and lu: "live cache key u"
    using live_earlier by auto
  show ?thesis
    using Mutex lt lu assms
    by (cases "c = Some key") (auto simp: check_def check_cooldown_def Let_def prune_live
        live_update split: mutex.splits option.splits)
next
  case Poisoned
  then show ?thesis
    by (auto simp: check_def check_cooldown_def Let_def split: mutex.splits option.splits)
qed

lemma check_records:
  assumes "fst (check st k c u) \<noteq> Duplicate" "k \<noteq> []"
    "sint u + sint (dedup_ttl_seconds st) < 2 ^ 63" "0 \<le> sint u" "0 \<le> sint (dedup_ttl_seconds st)"
    "sint t < sint u + sint (dedup_ttl_seconds st)"
  shows "taken (dedup_expirations (snd (check st k c u))) k t"
proof (cases "dedup_expirations st")
  case (Mutex cache)
  have "sint (u + dedup_ttl_seconds st) = sint u + sint (dedup_ttl_seconds st)"
    using assms by (intro sint_add_no_overflow) auto
  with Mutex assms show ?thesis
    by (auto simp: check_def Let_def prune_live live_update less_i64_def)
qed (simp add: check_def)

lemma check_records_cooldown:
  assumes "fst (check st k (Some key) u) = Accept" "k \<noteq> []" "key \<noteq> []"
    "sint u + sint (cooldown_seconds st) < 2 ^ 63" "0 \<le> sint u" "0 \<le> sint (cooldown_seconds st)"
    "sint t < sint u + sint (cooldown_seconds st)"
  shows "taken (cooldown_expirations (snd (check st k (Some key) u))) key t"
proof -
  have "sint (u + cooldown_seconds st) = sint u + sint (cooldown_seconds st)"
    using assms by (intro sint_add_no_overflow) auto
  with assms show ?thesis
    by (auto simp: check_def check_cooldown_def Let_def prune_live live_update less_i64_def
        split: mutex.splits if_splits)
qed

subsection \<open>Histories of the store\<close>

lemma length_check_all [simp]: "length (fst (check_all st calls)) = length calls"
  by (induction st calls rule: check_all.induct) (auto split: prod.splits)

lemma check_all_Cons:
  "check_all st ((k, c, t) # calls) =
     (fst (check st k c t) # fst (check_all (snd (check st k c t)) calls),
      snd (check_all (snd (check st k c t)) calls))"
  by (simp split: prod.splits)

declare check_all.simps(2) [simp del]

lemmas check_all_step [simp] = check_all_Cons

lemma taken_persists:
  assumes "taken (dedup_expirations st) k t" "k \<noteq> []"
    "\<forall>(k', c', u) \<in> set calls. le_i64 u t"
  shows "taken (dedup_expirations (snd (check_all st calls))) k t"
  using assms
proof (induction st calls rule: check_all.induct)
  case (2 st k' c u calls)
  then have "taken (dedup_expirations (snd (check st k' c u))) k t"
    by (intro check_taken_mono) auto
  with 2 show ?case by (cases "check st k' c u") auto
qed simp

lemma cooldown_persists:
  assumes "taken (cooldown_expirations st) key t" "key \<noteq> []"
    "\<forall>(k', c', u) \<in> set calls. le_i64 u t"
  shows "taken (cooldown_expirations (snd (check_all st calls))) key t"
  using assms
proof (induction st calls rule: check_all.induct)
  case (2 st k' c u calls)
  then have "taken (cooldown_expirations (snd (check st k' c u))) key t"
    by (intro cooldown_taken_mono) auto
  with 2 show ?case by (cases "check st k' c u") auto
qed simp

subsection \<open>The rate limiter over a history\<close>

lemma sdiv_mono: "x \<le> y \<Longrightarrow> 0 < d \<Longrightarrow> x sdiv d \<le> y sdiv (d :: int)"
proof -
  assume a: "x \<le> y" "0 < d"
  show ?thesis
  proof (cases "0 \<le> x")
    case True
    with a show ?thesis by (auto simp: signed_divide_int_def zdiv_mono1 sgn_if pos_imp_zdiv_nonneg_iff)
  next
    case x: False
    show ?thesis
    proof (cases "0 \<le> y")
      case True
      have "x sdiv d \<le> 0" using x a by (simp add: signed_divide_int_def pos_imp_zdiv_nonneg_iff)
      moreover have "0 \<le> y sdiv d"
        using True a by (simp add: signed_divide_int_def pos_imp_zdiv_nonneg_iff sgn_if)
      ultimately show ?thesis by simp
    next
      case False
      with x a show ?thesis by (simp add: signed_divide_int_def zdiv_mono1)
    qed
  qed
qed

lemma now_minute_mono: "le_i64 t u \<Longrightarrow> le_i64 (now_minute t) (now_minute u)"
  by (simp add: now_minute_def le_i64_def sint_div_i64 sdiv_mono)

text \<open>How much of the bucket \<open>b\<close> of a source is used up.\<close>

definition used :: "source_rate_limiter \<Rightarrow> string \<Rightarrow> i64 \<Rightarrow> nat" where
  "used lim s b =
     (case windows lim of
        Mutex m \<Rightarrow> (case m s of Some w \<Rightarrow> if minute_bucket w = b then unat (window_count w) else 0
                   | None \<Rightarrow> 0)
      | Poisoned \<Rightarrow> 0)"

definition not_poisoned :: "source_rate_limiter \<Rightarrow> bool" where
  "not_poisoned lim = (windows lim \<noteq> Poisoned)"

definition bucket_before :: "source_rate_limiter \<Rightarrow> string \<Rightarrow> i64 \<Rightarrow> bool" where
  "bucket_before lim s t =
     (case windows lim of
        Mutex m \<Rightarrow> (case m s of Some w \<Rightarrow> le_i64 (minute_bucket w) (now_minute t) | None \<Rightarrow> True)
      | Poisoned \<Rightarrow> True)"

lemmas limiter_defs = used_def not_poisoned_def bucket_before_def

lemma allow_keeps [simp]:
  "limit_per_minute (snd (allow lim s t)) = limit_per_minute lim"
  "not_poisoned (snd (allow lim s t)) = not_poisoned lim"
  by (auto simp: allow_def Let_def limiter_defs split: mutex.splits)

lemma allow_other:
  assumes "s' \<noteq> s"
  shows "used (snd (allow lim s t)) s' b = used lim s' b"
    "bucket_before (snd (allow lim s t)) s' u = bucket_before lim s' u"
  using assms by (auto simp: allow_def Let_def limiter_defs split: mutex.splits)

lemma allow_bucket:
  "le_i64 (now_minute t) (now_minute u) \<Longrightarrow> bucket_before (snd (allow lim s t)) s u"
  by (auto simp: allow_def Let_def limiter_defs split: mutex.splits option.splits)

lemma allow_iff:
  "not_poisoned lim \<Longrightarrow>
     fst (allow lim s t) \<longleftrightarrow> used lim s (now_minute t) < unat (limit_per_minute lim)"
  by (auto simp: allow_def Let_def limiter_defs word_le_nat_alt split: mutex.splits option.splits)

lemma allow_used:
  assumes "not_poisoned lim"
  shows "used (snd (allow lim s t)) s b =
     (if b = now_minute t then (if fst (allow lim s t) then Suc (used lim s b) else used lim s b)
      else 0)"
proof -
  have "unat (saturating_add c 1) = Suc (unat c)" if "\<not> limit_per_minute lim \<le> c" for c :: u32
  proof -
    have "unat c < unat (limit_per_minute lim)" using that by (simp add: word_le_nat_alt)
    moreover have "unat (limit_per_minute lim) < 2 ^ LENGTH(32)" by (rule unsigned_less)
    ultimately have "Suc (unat c) < 2 ^ 32" by simp
    then show ?thesis by (simp add: unat_saturating_add)
  qed
  with assms show ?thesis
    by (auto simp: allow_def Let_def limiter_defs split: mutex.splits option.splits)
qed

lemma allow_all_Cons:
  "allow_all lim ((s, t) # calls) =
     (fst (allow lim s t) # fst (allow_all (snd (allow lim s t)) calls),
      snd (allow_all (snd (allow lim s t)) calls))"
  by (simp split: prod.splits)

declare allow_all.simps(2) [simp del]

lemmas allow_all_step [simp] = allow_all_Cons

text \<open>The calls of a source that fall into a bucket, and those of them that were allowed.\<close>

definition calls_in :: "string \<Rightarrow> i64 \<Rightarrow> (string \<times> i64) list \<Rightarrow> nat" where
  "calls_in s b calls = length (filter (\<lambda>(s', t). s' = s \<and> now_minute t = b) calls)"

definition allowed_in :: "string \<Rightarrow> i64 \<Rightarrow> (string \<times> i64) list \<Rightarrow> bool list \<Rightarrow> nat" where
  "allowed_in s b calls oks =
     length (filter (\<lambda>((s', t), ok). s' = s \<and> now_minute t = b \<and> ok) (zip calls oks))"

lemma calls_in_later:
  "\<forall>(s', u) \<in> set calls. le_i64 m (now_minute u) \<Longrightarrow> less_i64 b m \<Longrightarrow> calls_in s b calls = 0"
  by (auto simp: calls_in_def filter_empty_conv num_simps)

lemma allowed_count:
  assumes "not_poisoned lim" "sorted_wrt le_i64 (map snd calls)"
    "\<forall>(s', t) \<in> set calls. bucket_before lim s t"
    "used lim s b \<le> unat (limit_per_minute lim)"
  shows "allowed_in s b calls (fst (allow_all lim calls)) =
     min (unat (limit_per_minute lim) - used lim s b) (calls_in s b calls)"
  using assms
proof (induction lim calls rule: allow_all.induct)
  case (1 lim)
  then show ?case by (simp add: allowed_in_def calls_in_def)
next
  case (2 lim s' t calls)
  let ?lim = "snd (allow lim s' t)"
  have later: "\<forall>(s'', u) \<in> set calls. le_i64 (now_minute t) (now_minute u)"
    using 2(3) by (fastforce intro: now_minute_mono)
  have before: "\<forall>(s'', u) \<in> set calls. bucket_before ?lim s u"
    using 2(4) later allow_bucket [of t _ lim s] allow_other(2) [of s s' lim t]
    by (cases "s' = s") auto
  have le: "used ?lim s b \<le> unat (limit_per_minute lim)"
    using 2(5) allow_used [OF 2(2), of s t b] allow_iff [OF 2(2), of s t] allow_other(1) [of s s' lim t b]
    by (cases "s' = s") (auto split: if_splits)
  have IH: "allowed_in s b calls (fst (allow_all ?lim calls)) =
      min (unat (limit_per_minute lim) - used ?lim s b) (calls_in s b calls)"
    using 2(1) [OF refl prod.collapse] 2(2,3) before le by simp
  have none: "calls_in s b calls = 0" if "s' = s" "b \<noteq> now_minute t" "used lim s b \<noteq> 0"
  proof -
    from that(3) 2(4) that(1) have "le_i64 b (now_minute t)"
      by (auto simp: limiter_defs split: mutex.splits option.splits if_splits)
    moreover have "sint b \<noteq> sint (now_minute t)" using that(2) signed_word_eqI by blast
    ultimately have "less_i64 b (now_minute t)" by (simp add: num_simps)
    then show ?thesis using later calls_in_later by blast
  qed
  show ?case
    using IH none allow_used [OF 2(2), of s t b] allow_iff [OF 2(2), of s t]
      allow_other(1) [of s s' lim t b]
    by (cases "s' = s"; cases "b = now_minute t"; cases "used lim s b = 0")
       (auto simp: allowed_in_def calls_in_def)
qed

subsection \<open>Abstract specification of the store: a log of decisions\<close>

text \<open>
  The specification keeps no maps and expires nothing: it remembers every earlier call with its
  decision. A delivery is a duplicate when its key was let through less than the time-to-live
  ago, and cools down when an accepted delivery of the entity is less than the cooldown ago.
\<close>

type_synonym check_log = "(check_call \<times> idempotency_decision) list"

definition seen :: "i64 \<Rightarrow> check_log \<Rightarrow> string \<Rightarrow> i64 \<Rightarrow> bool" where
  "seen ttl hist k t \<longleftrightarrow>
     (\<exists>((k', c, u), d) \<in> set hist. k' = k \<and> d \<noteq> Duplicate \<and> sint t < sint u + sint ttl)"

definition cooling :: "i64 \<Rightarrow> check_log \<Rightarrow> string \<Rightarrow> i64 \<Rightarrow> bool" where
  "cooling cd hist key t \<longleftrightarrow>
     (\<exists>((k', c, u), d) \<in> set hist. k' \<noteq> [] \<and> c = Some key \<and> d = Accept \<and> sint t < sint u + sint cd)"

definition spec_decision :: "i64 \<Rightarrow> i64 \<Rightarrow> check_log \<Rightarrow> check_call \<Rightarrow> idempotency_decision" where
  "spec_decision ttl cd hist call =
     (case call of (k, c, t) \<Rightarrow>
        if k = [] then Accept
        else if seen ttl hist k t then Duplicate
        else (case c of
                Some key \<Rightarrow> if key \<noteq> [] \<and> cooling cd hist key t then Cooldown else Accept
              | None \<Rightarrow> Accept))"

fun spec_all :: "i64 \<Rightarrow> i64 \<Rightarrow> check_log \<Rightarrow> check_call list \<Rightarrow> idempotency_decision list" where
  "spec_all ttl cd hist [] = []"
| "spec_all ttl cd hist (call # calls) =
     (let d = spec_decision ttl cd hist call in d # spec_all ttl cd (hist @ [(call, d)]) calls)"

text \<open>A clock that does not run backwards and stays clear of the 64-bit bound.\<close>

definition clock_ok :: "i64 \<Rightarrow> i64 \<Rightarrow> check_call list \<Rightarrow> bool" where
  "clock_ok ttl cd calls \<longleftrightarrow>
     0 \<le> sint ttl \<and> 0 \<le> sint cd \<and> sorted_wrt le_i64 (map (\<lambda>(k, c, t). t) calls) \<and>
     (\<forall>(k, c, t) \<in> set calls. 0 \<le> sint t \<and> sint t + sint ttl < 2 ^ 63 \<and> sint t + sint cd < 2 ^ 63)"

definition store_rel :: "i64 \<Rightarrow> i64 \<Rightarrow> int \<Rightarrow> check_log \<Rightarrow> idempotency_store \<Rightarrow> bool" where
  "store_rel ttl cd now hist st \<longleftrightarrow>
     dedup_ttl_seconds st = ttl \<and> cooldown_seconds st = cd \<and>
     dedup_expirations st \<noteq> Poisoned \<and> cooldown_expirations st \<noteq> Poisoned \<and>
     (\<forall>k t. k \<noteq> [] \<and> now \<le> sint t \<longrightarrow> taken (dedup_expirations st) k t = seen ttl hist k t) \<and>
     (\<forall>k t. k \<noteq> [] \<and> now \<le> sint t \<longrightarrow> taken (cooldown_expirations st) k t = cooling cd hist k t)"

lemma seen_snoc:
  "seen ttl (hist @ [((k', c, u), d)]) k t \<longleftrightarrow>
     seen ttl hist k t \<or> (k' = k \<and> d \<noteq> Duplicate \<and> sint t < sint u + sint ttl)"
  by (auto simp: seen_def)

lemma cooling_snoc:
  "cooling cd (hist @ [((k', c, u), d)]) key t \<longleftrightarrow>
     cooling cd hist key t \<or> (k' \<noteq> [] \<and> c = Some key \<and> d = Accept \<and> sint t < sint u + sint cd)"
  by (auto simp: cooling_def)

lemma seen_earlier: "seen ttl hist k t \<Longrightarrow> sint u \<le> sint t \<Longrightarrow> seen ttl hist k u"
  unfolding seen_def by (elim bexE, rule bexI) auto

lemma cooling_earlier: "cooling cd hist k t \<Longrightarrow> sint u \<le> sint t \<Longrightarrow> cooling cd hist k u"
  unfolding cooling_def by (elim bexE, rule bexI) auto

lemma spec_step:
  assumes "store_rel ttl cd now hist st" "now \<le> sint t"
  shows "fst (check st k c t) = spec_decision ttl cd hist (k, c, t)"
  using assms by (auto simp: fst_check spec_decision_def store_rel_def split: option.splits)

text \<open>What one call does to the two maps, seen from its own time on.\<close>

lemma check_dedup_after:
  assumes "dedup_expirations st = Mutex D" "k' \<noteq> []" "sint t \<le> sint v"
    and "sint (t + dedup_ttl_seconds st) = sint t + sint (dedup_ttl_seconds st)"
  shows "taken (dedup_expirations (snd (check st k c t))) k' v \<longleftrightarrow>
     (if k' = k \<and> fst (check st k c t) \<noteq> Duplicate then sint v < sint t + sint (dedup_ttl_seconds st)
      else live D k' v)"
proof -
  have "live D k' v \<Longrightarrow> live D k' t" using assms(3) live_earlier by (simp add: le_i64_def)
  with assms show ?thesis
    by (auto simp: check_def Let_def prune_live live_update less_i64_def)
qed

lemma check_cooldown_after:
  assumes "cooldown_expirations st = Mutex C" "key \<noteq> []" "sint t \<le> sint v"
    and "sint (t + cooldown_seconds st) = sint t + sint (cooldown_seconds st)"
  shows "taken (cooldown_expirations (snd (check st k c t))) key v \<longleftrightarrow>
     (if k \<noteq> [] \<and> c = Some key \<and> fst (check st k c t) = Accept
      then sint v < sint t + sint (cooldown_seconds st) else live C key v)"
proof -
  have "live C key v \<Longrightarrow> live C key t" using assms(3) live_earlier by (simp add: le_i64_def)
  with assms show ?thesis
    by (auto simp: check_def check_cooldown_def Let_def prune_live live_update less_i64_def
        split: mutex.splits option.splits)
qed

lemma check_mutexes:
  "dedup_expirations st \<noteq> Poisoned \<Longrightarrow> dedup_expirations (snd (check st k c t)) \<noteq> Poisoned"
  "cooldown_expirations st \<noteq> Poisoned \<Longrightarrow> cooldown_expirations (snd (check st k c t)) \<noteq> Poisoned"
  by (auto simp: check_def check_cooldown_def Let_def split: mutex.splits option.splits)

lemma store_rel_step:
  assumes rel: "store_rel ttl cd now hist st" and now: "now \<le> sint t" "0 \<le> sint t"
    and pos: "0 \<le> sint ttl" "0 \<le> sint cd"
    and fits: "sint t + sint ttl < 2 ^ 63" "sint t + sint cd < 2 ^ 63"
  shows "store_rel ttl cd (sint t) (hist @ [((k, c, t), fst (check st k c t))]) (snd (check st k c t))"
proof -
  obtain D C where D: "dedup_expirations st = Mutex D" and C: "cooldown_expirations st = Mutex C"
    using rel unfolding store_rel_def by (metis mutex.exhaust)
  have ttl: "dedup_ttl_seconds st = ttl" "cooldown_seconds st = cd" using rel by (auto simp: store_rel_def)
  have sums: "sint (t + ttl) = sint t + sint ttl" "sint (t + cd) = sint t + sint cd"
    using now pos fits by (auto intro: sint_add_no_overflow)
  have old: "live D k' v = seen ttl hist k' v" "live C k' v = cooling cd hist k' v"
    if "k' \<noteq> []" "sint t \<le> sint v" for k' v
    using rel that now D C by (auto simp: store_rel_def)
  have seen: "\<not> seen ttl hist k t" if "fst (check st k c t) \<noteq> Duplicate" "k \<noteq> []"
    using that rel now by (auto simp: check_Duplicate_iff store_rel_def)
  have cool: "\<not> cooling cd hist key t"
    if "fst (check st k c t) = Accept" "k \<noteq> []" "c = Some key" "key \<noteq> []" for key
    using that rel now check_Cooldown_iff [of st k c t] check_Duplicate_iff [of st k c t]
    by (auto simp: store_rel_def)
  show ?thesis
    unfolding store_rel_def
  proof (intro conjI allI impI)
    fix k' :: string and v :: i64 assume "k' \<noteq> [] \<and> sint t \<le> sint v"
    then show "taken (dedup_expirations (snd (check st k c t))) k' v =
        seen ttl (hist @ [((k, c, t), fst (check st k c t))]) k' v"
      using check_dedup_after [OF D, of k' t v k c] old seen seen_earlier [of ttl hist k' v t] sums ttl
      by (auto simp: seen_snoc)
  next
    fix k' :: string and v :: i64 assume "k' \<noteq> [] \<and> sint t \<le> sint v"
    then show "taken (cooldown_expirations (snd (check st k c t))) k' v =
        cooling cd (hist @ [((k, c, t), fst (check st k c t))]) k' v"
      using check_cooldown_after [OF C, of k' t v k c] old cool cooling_earlier [of cd hist k' v t] sums ttl
      by (auto simp: cooling_snoc)
  qed (use ttl D C check_mutexes in \<open>simp_all\<close>)
qed

lemma check_all_refines:
  assumes "store_rel ttl cd now hist st" "clock_ok ttl cd calls" "\<forall>(k, c, t) \<in> set calls. now \<le> sint t"
  shows "fst (check_all st calls) = spec_all ttl cd hist calls"
  using assms
proof (induction calls arbitrary: st hist now)
  case (Cons call calls)
  obtain k c t where call: "call = (k, c, t)" using prod_cases3 by blast
  have t: "now \<le> sint t" "0 \<le> sint t" "0 \<le> sint ttl" "0 \<le> sint cd"
      "sint t + sint ttl < 2 ^ 63" "sint t + sint cd < 2 ^ 63"
    using Cons.prems call by (auto simp: clock_ok_def)
  have d: "fst (check st k c t) = spec_decision ttl cd hist (k, c, t)"
    by (rule spec_step [OF Cons.prems(1) t(1)])
  have "store_rel ttl cd (sint t) (hist @ [(call, fst (check st k c t))]) (snd (check st k c t))"
    using store_rel_step [OF Cons.prems(1) t] call by simp
  moreover have "clock_ok ttl cd calls" "\<forall>(k, c, u) \<in> set calls. sint t \<le> sint u"
    using Cons.prems(2) call by (auto simp: clock_ok_def le_i64_def)
  ultimately show ?case using Cons.IH call d by (simp add: Let_def)
qed simp

lemma store_rel_new: "store_rel ttl cd 0 [] (new_idempotency_store ttl cd)"
  by (simp add: store_rel_def new_idempotency_store_def live_def seen_def cooling_def)

subsection \<open>Properties\<close>

text \<open>C3. Refinement: on a clock that does not run backwards, the store with its two expiring maps
  gives exactly the decisions of the specification that remembers every earlier delivery: a key is
  a duplicate exactly when it was let through less than the time-to-live ago, an entity cools
  down exactly when it was accepted less than the cooldown ago, everything else is accepted.
  Pruning therefore never forgets a key too early nor keeps it too long.\<close>

theorem idempotency_refines_log:
  assumes "clock_ok ttl cd calls"
  shows "fst (check_all (new_idempotency_store ttl cd) calls) = spec_all ttl cd [] calls"
  using assms by (intro check_all_refines [OF store_rel_new]) (auto simp: clock_ok_def)

theorem idempotency_refines_log_witness:
  "fst (check_all (new_idempotency_store 60 30)
     [(''d1'', Some ''c1'', 1700000000), (''d1'', Some ''c1'', 1700000010),
      (''d2'', Some ''c1'', 1700000020), (''d1'', Some ''c2'', 1700000061)]) =
   [Accept, Duplicate, Cooldown, Accept]"
proof -
  let ?calls = "[(''d1'', Some ''c1'', 1700000000), (''d1'', Some ''c1'', 1700000010),
      (''d2'', Some ''c1'', 1700000020), (''d1'', Some ''c2'', 1700000061)]"
  have "clock_ok 60 30 ?calls" by (simp add: clock_ok_def num_simps)
  from idempotency_refines_log [OF this] show ?thesis
    by (simp add: spec_decision_def seen_def cooling_def Let_def)
qed

text \<open>A delivery that was let through is not let through again before its time-to-live is
  over, whatever other deliveries are checked in between and even if a mutex is poisoned, and the
  same holds for the cooldown of an accepted entity.\<close>

theorem no_second_acceptance:
  assumes k: "k \<noteq> []" and between: "\<forall>(k', c', v) \<in> set mid. le_i64 v t"
    and u: "0 \<le> sint u" "0 \<le> sint (dedup_ttl_seconds st)" "0 \<le> sint (cooldown_seconds st)"
    and fits: "sint u + sint (dedup_ttl_seconds st) < 2 ^ 63" "sint u + sint (cooldown_seconds st) < 2 ^ 63"
    and st': "st' = snd (check_all (snd (check st k c u)) mid)"
  shows "(fst (check st k c u) \<noteq> Duplicate \<and> sint t < sint u + sint (dedup_ttl_seconds st)
            \<longrightarrow> fst (check st' k c' t) = Duplicate)
       \<and> (fst (check st k c u) = Accept \<and> c = Some key \<and> key \<noteq> []
            \<and> sint t < sint u + sint (cooldown_seconds st)
            \<longrightarrow> fst (check st' k' (Some key) t) \<noteq> Accept \<or> k' = [])"
proof (intro conjI impI)
  assume "fst (check st k c u) \<noteq> Duplicate \<and> sint t < sint u + sint (dedup_ttl_seconds st)"
  then have "taken (dedup_expirations st') k t"
    unfolding st' using check_records u fits k between by (intro taken_persists) auto
  with k show "fst (check st' k c' t) = Duplicate" by (simp add: check_Duplicate_iff)
next
  assume a: "fst (check st k c u) = Accept \<and> c = Some key \<and> key \<noteq> []
      \<and> sint t < sint u + sint (cooldown_seconds st)"
  then have "taken (cooldown_expirations st') key t"
    unfolding st' using check_records_cooldown u fits k between by (intro cooldown_persists) auto
  with a show "fst (check st' k' (Some key) t) \<noteq> Accept \<or> k' = []" by (simp add: fst_check)
qed

theorem no_second_acceptance_witness:
  "fst (check (snd (check (new_idempotency_store 60 30) ''d1'' None 1700000000)) ''d1'' None 1700000059)
     = Duplicate"
  using no_second_acceptance [of "''d1''" "[]" 1700000059 1700000000 "new_idempotency_store 60 30" _ None,
      OF _ _ _ _ _ _ _ refl]
  by (simp add: new_idempotency_store_def fst_check live_def)

text \<open>C22. The per-source limit is exact: on a clock that does not run backwards, of the requests a
  source makes in one minute bucket exactly the first \<open>limit\<close> are let through, independent of the
  traffic of other sources, and at most \<open>limit\<close> in any case.\<close>

theorem rate_limit_exact:
  assumes "sorted_wrt le_i64 (map snd calls)"
  shows "allowed_in s b calls (fst (allow_all (new_source_rate_limiter limit) calls)) =
     min (unat limit) (calls_in s b calls)"
  using allowed_count [of "new_source_rate_limiter limit" calls s b] assms
  by (simp add: new_source_rate_limiter_def limiter_defs)

theorem rate_limit_exact_witness:
  "allowed_in ''github'' 1 [(''github'', 60), (''linear'', 61), (''github'', 61), (''github'', 62), (''github'', 120)]
     (fst (allow_all (new_source_rate_limiter 2)
       [(''github'', 60), (''linear'', 61), (''github'', 61), (''github'', 62), (''github'', 120)])) = 2"
proof -
  have "calls_in ''github'' 1
      [(''github'', 60), (''linear'', 61), (''github'', 61), (''github'', 62), (''github'', 120)] = 3"
    by (simp add: calls_in_def now_minute_def div_i64_def signed_divide_int_def)
  then show ?thesis
    using rate_limit_exact [of "[(''github'', 60), (''linear'', 61), (''github'', 61), (''github'', 62), (''github'', 120)]"
        "''github''" 1 2] by (simp add: num_simps)
qed

end
