(* ===== verification/Backoff.thy ===== *)
theory Backoff
  imports Numbers
begin

section \<open>Retry delays\<close>

text \<open>
  The exponential delays of the two retrying senders: \<open>retry_backoff_ms\<close> of the Kafka publisher
  (\<open>src/producer.rs\<close>) and \<open>retry_backoff_seconds\<close> of the OpenClaw output
  (\<open>crates/hook-runtime/src/adapters/egress/openclaw.rs\<close>), in 64-bit arithmetic. What the retry
  loops rely on is the locale \<open>capped_backoff\<close>.
\<close>

definition retry_backoff_ms :: "u64 \<Rightarrow> u64 \<Rightarrow> u32 \<Rightarrow> u64" where
  "retry_backoff_ms base_ms max_ms attempt_index =
     (let exponent = min attempt_index 31;
          scaled = saturating_mul base_ms (push_bit (unat exponent) 1)
      in min scaled max_ms)"

definition retry_backoff_seconds :: "u64 \<Rightarrow> u64 \<Rightarrow> u32 \<Rightarrow> u64" where
  "retry_backoff_seconds base_seconds max_seconds attempt_index =
     (let exponent = min attempt_index 31;
          scaled = saturating_mul base_seconds (push_bit (unat exponent) 1)
      in min scaled max_seconds)"

subsection \<open>The delays as natural numbers\<close>

lemma unat_min: "unat (min a b) = min (unat a) (unat b)"
  by (simp add: min_def word_le_nat_alt)

lemma unat_push_bit_1: "n \<le> 31 \<Longrightarrow> unat (push_bit n 1 :: u64) = 2 ^ n"
proof -
  assume "n \<le> 31"
  then have "(2 :: nat) ^ n < 2 ^ 64" by (intro power_strict_increasing) simp_all
  moreover have "unat (push_bit n 1 :: u64) = 2 ^ n mod 2 ^ 64"
    unfolding unsigned_push_bit_eq by (simp add: push_bit_eq_mult take_bit_eq_mod)
  ultimately show ?thesis by simp
qed

lemma unat_retry_backoff_ms:
  "unat (retry_backoff_ms b m i) = min (unat b * 2 ^ min (unat i) 31) (unat m)"
proof -
  have m: "unat m \<le> 2 ^ 64 - 1"
  proof -
    have "unat m < 2 ^ LENGTH(64)" by (rule unsigned_less)
    then show ?thesis by simp
  qed
  have "unat (push_bit (unat (min i 31)) 1 :: u64) = 2 ^ min (unat i) 31"
    using unat_push_bit_1 [of "min (unat i) 31"] by (simp add: unat_min)
  then have "unat (saturating_mul b (push_bit (unat (min i 31)) 1)) =
      min (unat b * 2 ^ min (unat i) 31) (2 ^ 64 - 1)"
    by (simp add: unat_saturating_mul)
  then show ?thesis using m unfolding retry_backoff_ms_def Let_def unat_min by linarith
qed

lemma backoff_copies: "retry_backoff_seconds = retry_backoff_ms"
  by (simp add: fun_eq_iff retry_backoff_seconds_def retry_backoff_ms_def)

subsection \<open>What a retry loop relies on\<close>

locale capped_backoff =
  fixes delay :: "nat \<Rightarrow> nat" and cap :: nat
  assumes capped: "delay i \<le> cap"
    and monotone: "i \<le> j \<Longrightarrow> delay i \<le> delay j"
begin

lemma total_wait: "(\<Sum>i<n. delay i) \<le> n * cap"
  using sum_bounded_above [of "{..<n}" delay cap] capped by simp

lemma sleeps_bounded: "\<forall>d \<in> set (map delay [0..<n]). d \<le> cap"
  using capped by auto

end

lemma doubling_mono: "i \<le> j \<Longrightarrow> min (b * 2 ^ min i 31) m \<le> min (b * 2 ^ min j 31) (m :: nat)"
proof -
  assume "i \<le> j"
  then have "min i 31 \<le> min j (31 :: nat)" by simp
  then have "(2 :: nat) ^ min i 31 \<le> 2 ^ min j 31" by (rule power_increasing) simp
  then show ?thesis by (meson min.mono mult_le_mono order_refl)
qed

interpretation publish_wait: capped_backoff "\<lambda>i. min (unat b * 2 ^ min i 31) (unat m)" "unat m"
  for b m :: u64
  by unfold_locales (simp, rule doubling_mono)

subsection \<open>Properties\<close>

text \<open>Both delay functions are the exact capped doubling, with no overflow at 64 bits:
  \<open>min (base * 2^min(attempt,31)) max\<close>, for every base, cap and attempt; so they never
  decrease from one attempt to the next and never exceed the cap.\<close>

theorem backoff_exact:
  "unat (retry_backoff_ms b m i) = min (unat b * 2 ^ min (unat i) 31) (unat m)
   \<and> unat (retry_backoff_seconds b m i) = min (unat b * 2 ^ min (unat i) 31) (unat m)"
  by (simp add: unat_retry_backoff_ms backoff_copies)

end
