(* ===== verification/Producer.thy ===== *)
theory Producer
  imports Serve_Config Backoff
begin

section \<open>Kafka publisher of the receiver\<close>

text \<open>
  \<open>src/producer.rs\<close> and \<open>src/envelope.rs\<close>. The broker is outside: what \<open>producer.send\<close>
  answers to each attempt is an argument (\<open>None\<close> a delivery, \<open>Some e\<close> an error), and so are the
  admin client's answers and the JSON text of an envelope. The publishing loop records what it does
  (attempts and sleeps) in a trace, so that its effects can be stated; it is a terminating
  \<open>function\<close>, because the attempt counter saturates and reaches the limit.
\<close>

subsection \<open>envelope.rs\<close>

text \<open>The fresh UUID and the time stamp are arguments.\<close>

definition build_envelope ::
  "string \<Rightarrow> string \<Rightarrow> string \<Rightarrow> string \<Rightarrow> json \<Rightarrow> event_meta option \<Rightarrow> event_envelope" where
  "build_envelope uuid now source event_type payload meta =
     \<lparr>ev_id = uuid, ev_source = source, ev_type = event_type, ev_received_at = now,
      ev_payload = payload, ev_meta = meta\<rparr>"

subsection \<open>producer.rs\<close>

record publish_job =
  job_topic :: string
  job_envelope :: event_envelope

record kafka_publisher =
  pub_max_retries :: u32
  pub_backoff_base_ms :: u64
  pub_backoff_max_ms :: u64

type_synonym client_config = "string \<rightharpoonup> string"

definition base_client_config :: "config \<Rightarrow> client_config" where
  "base_client_config c =
     (let client_config = Map.empty(''bootstrap.servers'' \<mapsto> kafka_brokers c,
                                    ''security.protocol'' \<mapsto> kafka_security_protocol c)
      in if kafka_security_protocol c = ''ssl''
         then client_config(''ssl.certificate.location'' \<mapsto> kafka_tls_cert c,
                            ''ssl.key.location'' \<mapsto> kafka_tls_key c,
                            ''ssl.ca.location'' \<mapsto> kafka_tls_ca c)
         else client_config)"

text \<open>Whether the client library accepts a configuration is an argument.\<close>

definition publisher_from_config :: "(client_config \<Rightarrow> bool) \<Rightarrow> config \<Rightarrow> kafka_publisher result" where
  "publisher_from_config create c =
     (if create ((base_client_config c)(''message.timeout.ms'' \<mapsto> ''5000'', ''queue.buffering.max.ms'' \<mapsto> ''5''))
      then Inr \<lparr>pub_max_retries = publish_max_retries c,
                pub_backoff_base_ms = publish_backoff_base_ms c,
                pub_backoff_max_ms = publish_backoff_max_ms c\<rparr>
      else Inl ''create kafka future producer'')"

datatype publish_event = Send nat | Sleep u64

function publish_loop ::
  "(nat \<Rightarrow> string option) \<Rightarrow> kafka_publisher \<Rightarrow> u32 \<Rightarrow> unit result \<times> publish_event list" where
  "publish_loop send pub attempt =
     (case send (unat attempt) of
        None \<Rightarrow> (Inr (), [Send (unat attempt)])
      | Some error \<Rightarrow>
          let attempt' = saturating_add attempt 1
          in if pub_max_retries pub \<le> attempt'
             then (Inl (''kafka publish failed after '' @ show_nat (unat attempt') @ '' attempts: '' @ error),
                   [Send (unat attempt)])
             else
               let backoff = retry_backoff_ms (pub_backoff_base_ms pub) (pub_backoff_max_ms pub)
                               (saturating_sub attempt' 1);
                   (r, trace) = publish_loop send pub attempt'
               in (r, Send (unat attempt) # Sleep backoff # trace))"
  by pat_completeness auto

lemma attempt_grows:
  "\<not> m \<le> saturating_add a (1 :: u32) \<Longrightarrow> unat (saturating_add a 1) = Suc (unat a) \<and> Suc (unat a) < unat m"
proof -
  assume a: "\<not> m \<le> saturating_add a (1 :: u32)"
  then have lt: "unat (saturating_add a 1) < unat m" by (simp add: word_le_nat_alt)
  have "unat m < 2 ^ LENGTH(32)" by (rule unsigned_less)
  with lt have "unat (saturating_add a 1) < 2 ^ 32 - 1" by simp
  then have "unat (saturating_add a 1) = Suc (unat a)" by (simp add: unat_saturating_add min_def split: if_splits)
  with lt show ?thesis by simp
qed

termination publish_loop
  by (relation "measure (\<lambda>(send, pub, attempt). unat (pub_max_retries pub) - unat attempt)")
     (auto dest!: attempt_grows)

declare publish_loop.simps [simp del]

text \<open>\<open>serialize\<close> is \<open>serde_json::to_string\<close>; the answers of the broker depend on the record.\<close>

definition publish ::
  "(event_envelope \<Rightarrow> string option) \<Rightarrow> (string \<Rightarrow> string \<Rightarrow> string \<Rightarrow> nat \<Rightarrow> string option) \<Rightarrow>
   kafka_publisher \<Rightarrow> publish_job \<Rightarrow> unit result \<times> publish_event list" where
  "publish serialize send pub job =
     (case serialize (job_envelope job) of
        None \<Rightarrow> (Inl ''serialize webhook envelope'', [])
      | Some payload \<Rightarrow>
          let key = ev_id (job_envelope job)
          in publish_loop (send (job_topic job) key payload) pub 0)"

text \<open>The worker takes the jobs of the channel in order and never stops at an error; the result
  pairs each job with whether it was published.\<close>

fun run_publish_worker ::
  "(event_envelope \<Rightarrow> string option) \<Rightarrow> (string \<Rightarrow> string \<Rightarrow> string \<Rightarrow> nat \<Rightarrow> string option) \<Rightarrow>
   kafka_publisher \<Rightarrow> publish_job list \<Rightarrow> (publish_job \<times> unit result) list" where
  "run_publish_worker serialize send pub [] = []"
| "run_publish_worker serialize send pub (job # rx) =
     (job, fst (publish serialize send pub job)) # run_publish_worker serialize send pub rx"

datatype kafka_code = TopicAlreadyExists | OtherCode string

text \<open>The answers of \<open>create_topics\<close>: \<open>None\<close> is a failure of the request as a whole.\<close>

type_synonym topic_answers = "(string \<times> kafka_code option) list"

definition required_topic_names :: "config \<Rightarrow> string list" where
  "required_topic_names c =
     set_insert (kafka_dlq_topic c)
       (btree_set (filter (\<lambda>topic. topic \<noteq> []) (map trim (relay_source_topics c))))"

definition check_topic_answer :: "string \<times> kafka_code option \<Rightarrow> unit result" where
  "check_topic_answer ans =
     (case ans of
        (topic, None) \<Rightarrow> Inr ()
      | (topic, Some TopicAlreadyExists) \<Rightarrow> Inr ()
      | (topic, Some (OtherCode code)) \<Rightarrow> Inl (''failed to create topic '' @ topic @ '': '' @ code))"

definition ensure_required_topics ::
  "(client_config \<Rightarrow> bool) \<Rightarrow> (string list \<Rightarrow> i32 \<Rightarrow> i32 \<Rightarrow> topic_answers option) \<Rightarrow> config \<Rightarrow> unit result" where
  "ensure_required_topics create_client create_topics c =
     (if \<not> kafka_auto_create_topics c then Inr ()
      else if \<not> create_client (base_client_config c) then Inl ''create kafka admin client''
      else and_then
        (ok_or ''create kafka topics''
           (create_topics (required_topic_names c) (kafka_topic_partitions c) (kafka_topic_replication_factor c)))
        (for_each check_topic_answer))"

subsection \<open>The loop, attempt by attempt\<close>

definition attempts :: "kafka_publisher \<Rightarrow> nat" where
  "attempts pub = max 1 (unat (pub_max_retries pub))"

definition wait_after :: "kafka_publisher \<Rightarrow> nat \<Rightarrow> u64" where
  "wait_after pub i = retry_backoff_ms (pub_backoff_base_ms pub) (pub_backoff_max_ms pub) (of_nat i)"

definition attempt_trace :: "kafka_publisher \<Rightarrow> nat \<Rightarrow> nat \<Rightarrow> publish_event list" where
  "attempt_trace pub a k = concat (map (\<lambda>i. [Send i, Sleep (wait_after pub i)]) [a..<k]) @ [Send k]"

lemma attempt_trace_step:
  "a < k \<Longrightarrow> attempt_trace pub a k = Send a # Sleep (wait_after pub a) # attempt_trace pub (Suc a) k"
  by (simp add: attempt_trace_def upt_conv_Cons)

lemma attempts_less: "attempts pub < 2 ^ 32"
proof -
  have "unat (pub_max_retries pub) < 2 ^ LENGTH(32)" by (rule unsigned_less)
  then show ?thesis by (simp add: attempts_def)
qed

lemma unat_next_attempt: "Suc (unat a) < 2 ^ 32 \<Longrightarrow> unat (saturating_add a (1 :: u32)) = Suc (unat a)"
  by (simp add: unat_saturating_add)

lemma saturating_sub_next: "Suc (unat a) < 2 ^ 32 \<Longrightarrow> saturating_sub (saturating_add a (1 :: u32)) 1 = of_nat (unat a)"
proof -
  assume "Suc (unat a) < 2 ^ 32"
  then have "unat (saturating_sub (saturating_add a 1) 1) = unat a"
    by (simp add: unat_saturating_sub unat_next_attempt)
  then have "saturating_sub (saturating_add a 1) 1 = a" by (simp add: word_unat_eq_iff)
  then show ?thesis by simp
qed

definition publish_result :: "(nat \<Rightarrow> string option) \<Rightarrow> nat \<Rightarrow> unit result" where
  "publish_result send k =
     (case send k of
        None \<Rightarrow> Inr ()
      | Some error \<Rightarrow> Inl (''kafka publish failed after '' @ show_nat (Suc k) @ '' attempts: '' @ error))"

lemma publish_loop_trace:
  assumes "unat a \<le> k" "k < attempts pub" "\<forall>i. unat a \<le> i \<and> i < k \<longrightarrow> send i \<noteq> None"
    "send k = None \<or> Suc k = attempts pub"
  shows "publish_loop send pub a = (publish_result send k, attempt_trace pub (unat a) k)"
  using assms
proof (induction "k - unat a" arbitrary: a)
  case 0
  then have k: "k = unat a" by simp
  have "unat (saturating_add a 1) = Suc k"
    using 0(3) attempts_less [of pub] k unat_next_attempt [of a] by simp
  moreover have "pub_max_retries pub \<le> saturating_add a 1" if "Suc k = attempts pub"
    using that calculation by (simp add: word_le_nat_alt attempts_def)
  ultimately show ?case
    using 0(5) k
    by (auto simp: publish_loop.simps [of send pub a] publish_result_def attempt_trace_def
        split: option.splits)
next
  case (Suc n)
  then have ak: "unat a < k" by simp
  then obtain error where err: "send (unat a) = Some error" using Suc(5) by fastforce
  have small: "Suc (unat a) < 2 ^ 32" using ak Suc(4) attempts_less [of pub] by simp
  note next_a = unat_next_attempt [OF small]
  have "\<not> pub_max_retries pub \<le> saturating_add a 1"
    using ak Suc(4) next_a by (simp add: word_le_nat_alt attempts_def)
  moreover have "publish_loop send pub (saturating_add a 1) =
      (publish_result send k, attempt_trace pub (Suc (unat a)) k)"
    using Suc(1) [of "saturating_add a 1"] Suc(2-) ak next_a by simp
  ultimately show ?case
    using err ak saturating_sub_next [OF small]
    by (simp add: publish_loop.simps [of send pub a] attempt_trace_step wait_after_def)
qed

lemma first_or_last:
  "\<exists>k < attempts pub. (\<forall>i < k. send i \<noteq> None) \<and> (send k = None \<or> Suc k = attempts pub)"
proof (cases "\<exists>i < attempts pub. send i = None")
  case True
  then obtain i where i: "i < attempts pub" "send i = None" by blast
  let ?k = "LEAST i. send i = None"
  have "?k \<le> i" "send ?k = None" using i(2) by (auto intro: Least_le LeastI)
  moreover have "\<forall>j < ?k. send j \<noteq> None" using not_less_Least by blast
  moreover have "?k < attempts pub" using calculation(1) i(1) by (rule le_less_trans)
  ultimately show ?thesis by blast
next
  case False
  then show ?thesis by (intro exI [of _ "attempts pub - 1"]) (auto simp: attempts_def)
qed

definition sleeps :: "publish_event list \<Rightarrow> nat" where
  "sleeps trace = sum_list (map (\<lambda>e. case e of Sleep d \<Rightarrow> unat d | Send _ \<Rightarrow> 0) trace)"

lemma sleeps_attempt_trace:
  "k < 2 ^ 32 \<Longrightarrow> sleeps (attempt_trace pub 0 k) =
     (\<Sum>i<k. min (unat (pub_backoff_base_ms pub) * 2 ^ min i 31) (unat (pub_backoff_max_ms pub)))"
proof -
  assume k: "k < 2 ^ 32"
  have "unat (wait_after pub i) =
      min (unat (pub_backoff_base_ms pub) * 2 ^ min i 31) (unat (pub_backoff_max_ms pub))"
    if "i < k" for i
    using that k by (simp add: wait_after_def unat_retry_backoff_ms unat_of_nat)
  then have "sum_list (map (\<lambda>i. unat (wait_after pub i)) [0..<k]) =
      (\<Sum>i<k. min (unat (pub_backoff_base_ms pub) * 2 ^ min i 31) (unat (pub_backoff_max_ms pub)))"
    by (simp add: interv_sum_list_conv_sum_set_nat atLeast0LessThan)
  moreover have "sleeps (attempt_trace pub 0 k) = sum_list (map (\<lambda>i. unat (wait_after pub i)) [0..<k])"
  proof -
    have "sum_list (map (\<lambda>e. case e of Sleep d \<Rightarrow> unat d | Send _ \<Rightarrow> 0)
        (concat (map (\<lambda>i. [Send i, Sleep (wait_after pub i)]) is))) = sum_list (map (\<lambda>i. unat (wait_after pub i)) is)"
      for "is" by (induction "is") simp_all
    then show ?thesis by (simp add: sleeps_def attempt_trace_def)
  qed
  ultimately show ?thesis by simp
qed

subsection \<open>Properties\<close>

text \<open>C23. Publishing always returns, after at most \<open>max(1, max_retries)\<close> attempts: it stops at the
  first attempt the broker accepts and reports success, or fails after exactly that many refused
  attempts with their number and the last error; between attempts it sleeps the capped doubling
  delay, in total at most (attempts - 1) times the cap.\<close>

theorem publish_bounded_retry:
  "\<exists>k < attempts pub. (\<forall>i < k. send i \<noteq> None) \<and> (send k = None \<or> Suc k = attempts pub)
     \<and> publish_loop send pub 0 = (publish_result send k, attempt_trace pub 0 k)
     \<and> sleeps (attempt_trace pub 0 k) \<le> k * unat (pub_backoff_max_ms pub)"
proof -
  obtain k where k: "k < attempts pub" "\<forall>i < k. send i \<noteq> None" "send k = None \<or> Suc k = attempts pub"
    using first_or_last by blast
  then have "publish_loop send pub 0 = (publish_result send k, attempt_trace pub 0 k)"
    using publish_loop_trace [of 0 k pub send] by simp
  moreover have "sleeps (attempt_trace pub 0 k) \<le> k * unat (pub_backoff_max_ms pub)"
    using k(1) attempts_less [of pub] publish_wait.total_wait by (subst sleeps_attempt_trace) auto
  ultimately show ?thesis using k by blast
qed

definition demo_publisher :: kafka_publisher where
  "demo_publisher = \<lparr>pub_max_retries = 5, pub_backoff_base_ms = 200, pub_backoff_max_ms = 5000\<rparr>"

theorem publish_bounded_retry_witness:
  "publish_loop (\<lambda>i. if i < 2 then Some ''busy'' else None) demo_publisher 0 = (Inr (), attempt_trace demo_publisher 0 2)"
proof -
  let ?send = "\<lambda>i. if i < (2 :: nat) then Some ''busy'' else None"
  obtain k where k: "k < attempts demo_publisher" "\<forall>i < k. ?send i \<noteq> None" "?send k = None \<or> Suc k = attempts demo_publisher"
    "publish_loop ?send demo_publisher 0 = (publish_result ?send k, attempt_trace demo_publisher 0 k)"
    using publish_bounded_retry [of demo_publisher ?send] by blast
  have "attempts demo_publisher = 5" by (simp add: attempts_def demo_publisher_def)
  with k(1-3) have "k = 2" by (auto split: if_splits)
  with k(4) show ?thesis by (simp add: publish_result_def)
qed

text \<open>The worker loses no job silently and keeps their order: it handles every job of the
  channel once, in the order they were queued, and reports a job as unpublished only when its
  envelope could not be serialized or all of its attempts were refused.\<close>

theorem worker_handles_all:
  "map fst (run_publish_worker serialize send pub jobs) = jobs
   \<and> (\<forall>job r. (job, r) \<in> set (run_publish_worker serialize send pub jobs) \<longrightarrow>
        (isl r \<longleftrightarrow> serialize (job_envelope job) = None \<or>
           (\<exists>payload. serialize (job_envelope job) = Some payload \<and>
              (\<forall>i < attempts pub. send (job_topic job) (ev_id (job_envelope job)) payload i \<noteq> None))))"
proof -
  have one: "isl (fst (publish serialize send pub job)) \<longleftrightarrow> serialize (job_envelope job) = None \<or>
      (\<exists>payload. serialize (job_envelope job) = Some payload \<and>
         (\<forall>i < attempts pub. send (job_topic job) (ev_id (job_envelope job)) payload i \<noteq> None))" for job
  proof (cases "serialize (job_envelope job)")
    case (Some payload)
    let ?send = "send (job_topic job) (ev_id (job_envelope job)) payload"
    obtain k where k: "k < attempts pub" "\<forall>i < k. ?send i \<noteq> None" "?send k = None \<or> Suc k = attempts pub"
      using first_or_last by blast
    then have "publish_loop ?send pub 0 = (publish_result ?send k, attempt_trace pub 0 k)"
      using publish_loop_trace [of 0 k pub ?send] by simp
    moreover have "?send k \<noteq> None \<longleftrightarrow> (\<forall>i < attempts pub. ?send i \<noteq> None)"
      using k by (metis less_SucE)
    ultimately show ?thesis
      using Some by (auto simp: publish_def publish_result_def split: option.splits)
  qed (simp add: publish_def)
  show ?thesis by (induction jobs) (auto simp: one)
qed

definition demo_job :: publish_job where
  "demo_job = \<lparr>job_topic = ''webhooks.github'',
     job_envelope = build_envelope ''e1'' ''2024-01-01T00:00:00Z'' ''github'' ''ping'' (JObject []) None\<rparr>"

theorem worker_handles_all_witness:
  "\<exists>r. run_publish_worker (\<lambda>_. Some ''{}'') (\<lambda>_ _ _ i. if i < 2 then Some ''busy'' else None)
     demo_publisher [demo_job] = [(demo_job, r)] \<and> \<not> isl r"
proof -
  let ?send = "\<lambda>_ _ _ i. if i < 2 then Some ''busy'' else None"
  have "(2 :: nat) < attempts demo_publisher" by (simp add: attempts_def demo_publisher_def)
  then show ?thesis
    using worker_handles_all [of "\<lambda>_. Some ''{}''" ?send demo_publisher "[demo_job]"]
    by (auto intro!: exI [of _ 2])
qed

end
