(* ===== verification/Serve.thy ===== *)
theory Serve
  imports Sources Sanitize Wildcard Idempotency Producer
begin

section \<open>The receiver\<close>

text \<open>
  \<open>src/main.rs\<close>: the HTTP, websocket, MCP and Kafka ingress handlers over the shared
  \<open>AppState\<close>. A handler is a function from the state and the request to the response and the new
  state. The publish channel is the list of the jobs in it, oldest first; whether \<open>try_send\<close>
  accepts a job is decided by the field \<open>try_send\<close> of the record \<open>channel\<close> (the channel is
  tokio's), and a job it accepts is appended. Fresh UUIDs and the clock are the record \<open>moment\<close>.
  Readers generated by serde are the fields of \<open>ingress_crates\<close>. Log lines are left out.
\<close>

subsection \<open>State\<close>

record websocket_ingress_runtime =
  wir_id :: string
  wir_path_template :: string
  wir_auth_mode :: string
  wir_auth_token :: "string option"
  wir_plugins :: "serve_plugin list"

record mcp_ingress_runtime =
  mir_id :: string
  mir_tool_name :: string
  mir_path :: string
  mir_auth_mode :: string
  mir_auth_token :: "string option"
  mir_max_payload_bytes :: usize
  mir_plugins :: "serve_plugin list"

record kafka_ingress_runtime =
  kir_id :: string
  kir_topics :: "string list"
  kir_group_id :: string
  kir_brokers :: string
  kir_plugins :: "serve_plugin list"

record ingress_runtime_selection =
  sel_http_path :: string
  sel_http_adapter_id :: "string option"
  sel_http_plugins :: "serve_plugin list"
  sel_websocket :: "websocket_ingress_runtime option"
  sel_mcp :: "mcp_ingress_runtime option"
  sel_kafka :: "kafka_ingress_runtime list"

record app_state =
  app_config :: config
  publish_queue :: "publish_job list"
  app_rate_limiter :: source_rate_limiter
  app_idempotency :: idempotency_store
  publish_worker_alive :: bool
  http_ingress_adapter_id :: "string option"
  http_ingress_plugins :: "serve_plugin list"
  websocket_ingress :: "websocket_ingress_runtime option"
  mcp_ingress :: "mcp_ingress_runtime option"

datatype try_send_result = SendOk | SendFull | SendClosed

record channel =
  try_send :: "publish_job list \<Rightarrow> publish_job \<Rightarrow> try_send_result"
  try_send_text :: "try_send_result \<Rightarrow> string"

record moment =
  now_epoch_seconds :: i64
  now_rfc3339 :: string
  trace_uuid :: string
  event_uuid :: string

type_synonym response = "nat \<times> json"

record enqueue_accepted =
  acc_event_id :: string
  acc_topic :: string
  acc_event_type :: string

subsection \<open>Plugins, metadata and routes\<close>

fun serve_plugins_loop ::
  "crates \<Rightarrow> serve_plugin list \<Rightarrow> string \<Rightarrow> json \<Rightarrow> string list \<Rightarrow> (string \<times> json \<times> string list) result" where
  "serve_plugins_loop cr [] event_type payload flags = Inr (event_type, payload, flags)"
| "serve_plugins_loop cr (EventTypeAlias from to # plugins) event_type payload flags =
     serve_plugins_loop cr plugins (if event_type = from then to else event_type) payload flags"
| "serve_plugins_loop cr (RequirePayloadField pointer # plugins) event_type payload flags =
     (if json_pointer cr payload pointer = None
      then Inl (''payload missing required field '' @ quoted pointer)
      else serve_plugins_loop cr plugins event_type payload flags)"
| "serve_plugins_loop cr (AddMetaFlag flag # plugins) event_type payload flags =
     serve_plugins_loop cr plugins event_type payload (if flag \<in> set flags then flags else flags @ [flag])"

definition apply_serve_plugins ::
  "crates \<Rightarrow> serve_plugin list \<Rightarrow> string \<Rightarrow> json \<Rightarrow> (string \<times> json \<times> string list) result" where
  "apply_serve_plugins cr plugins event_type payload = serve_plugins_loop cr plugins event_type payload []"

definition build_event_meta ::
  "string option \<Rightarrow> string option \<Rightarrow> string option \<Rightarrow> string list \<Rightarrow> event_meta option" where
  "build_event_meta trace_id ingress_adapter route_key flags =
     (if trace_id = None \<and> ingress_adapter = None \<and> route_key = None \<and> flags = [] then None
      else Some \<lparr>meta_trace_id = trace_id, meta_ingress_adapter = ingress_adapter,
                 meta_route_key = route_key, meta_flags = flags\<rparr>)"

definition resolve_serve_route :: "config \<Rightarrow> string \<Rightarrow> string \<Rightarrow> serve_route_rule option" where
  "resolve_serve_route c source event_type =
     find (\<lambda>route. wildcard_matches (source_match route) source
                 \<and> wildcard_matches (event_type_pattern route) event_type) (serve_routes c)"

subsection \<open>Webhook requests\<close>

definition error_response :: "nat \<Rightarrow> string \<Rightarrow> response" where
  "error_response status message = (status, obj [(''error'', JString message)])"

text \<open>The four matches on a \<open>ValidationError\<close> answer alike.\<close>

fun validation_response :: "validation_error \<Rightarrow> response" where
  "validation_response (Unauthorized message) = error_response 401 ''unauthorized''"
| "validation_response (BadRequest message) = error_response 400 message"

definition ignored_response :: "string \<Rightarrow> response" where
  "ignored_response reason = (200, obj [(''status'', JString ''ignored''), (''reason'', JString reason)])"

text \<open>A job offered to the channel: it is appended when the channel accepts it.\<close>

definition offer :: "channel \<Rightarrow> app_state \<Rightarrow> publish_job \<Rightarrow> try_send_result \<times> app_state" where
  "offer ch st job =
     (case try_send ch (publish_queue st) job of
        SendOk \<Rightarrow> (SendOk, st\<lparr>publish_queue := publish_queue st @ [job]\<rparr>)
      | r \<Rightarrow> (r, st))"

text \<open>From the route look-up to the channel.\<close>

definition webhook_publish ::
  "channel \<Rightarrow> moment \<Rightarrow> app_state \<Rightarrow> source_handler \<Rightarrow> string \<Rightarrow> json \<Rightarrow> string list \<Rightarrow> response \<times> app_state" where
  "webhook_publish ch now st handler event_type sanitized_payload plugin_flags =
     (let c = app_config st; source = sh_source_name handler;
          matched_route = resolve_serve_route c source event_type
      in if matched_route = None \<and> serve_routes c \<noteq> []
         then (error_response 400 ''no matching serve route'', st)
         else
           let route_key = map_option route_id matched_route;
               topic = unwrap_or (handler_topic_name handler c) (map_option target_topic matched_route);
               trace_id = (if route_key \<noteq> None \<or> http_ingress_adapter_id st \<noteq> None
                           then Some (trace_uuid now) else None);
               event_meta = build_event_meta trace_id (http_ingress_adapter_id st) route_key plugin_flags;
               envelope = build_envelope (event_uuid now) (now_rfc3339 now) source event_type
                            sanitized_payload event_meta
           in case offer ch st \<lparr>job_topic = topic, job_envelope = envelope\<rparr> of
                (SendOk, st') \<Rightarrow> ((200, obj [(''status'', JString ''ok''), (''id'', JString (ev_id envelope))]), st')
              | (SendFull, st') \<Rightarrow> (error_response 503 ''publisher queue is full'', st')
              | (SendClosed, st') \<Rightarrow> (error_response 503 ''publisher unavailable'', st'))"

text \<open>From the idempotency check on, with the event type already derived.\<close>

definition webhook_accept ::
  "crates \<Rightarrow> channel \<Rightarrow> moment \<Rightarrow> app_state \<Rightarrow> source_handler \<Rightarrow> headers \<Rightarrow> json \<Rightarrow> string \<Rightarrow> response \<times> app_state" where
  "webhook_accept cr ch now st handler headers payload event_type =
     (case sh_dedup_key handler headers payload of
        Inl err \<Rightarrow> (validation_response err, st)
      | Inr dedup_key \<Rightarrow>
          let cooldown_key = sh_cooldown_key handler payload;
              (decision, store) = check (app_idempotency st) dedup_key cooldown_key (now_epoch_seconds now);
              st = st\<lparr>app_idempotency := store\<rparr>
          in case decision of
               Duplicate \<Rightarrow> (ignored_response ''duplicate'', st)
             | Cooldown \<Rightarrow> (ignored_response ''cooldown'', st)
             | Accept \<Rightarrow>
                 (case sanitize_payload cr (sh_source_name handler) payload of
                    Inl err \<Rightarrow> (error_response 400 ''invalid payload'', st)
                  | Inr sanitized_payload \<Rightarrow>
                      (case apply_serve_plugins cr (http_ingress_plugins st) event_type sanitized_payload of
                         Inl err \<Rightarrow> (error_response 400 err, st)
                       | Inr (event_type, sanitized_payload, plugin_flags) \<Rightarrow>
                           webhook_publish ch now st handler event_type sanitized_payload plugin_flags)))"

text \<open>Authentication and the checks of the payload.\<close>

definition webhook_validate ::
  "crates \<Rightarrow> channel \<Rightarrow> moment \<Rightarrow> app_state \<Rightarrow> source_handler \<Rightarrow> headers \<Rightarrow> string \<Rightarrow> response \<times> app_state" where
  "webhook_validate cr ch now st handler headers body =
     (case sh_validate_request handler cr (app_config st) headers body of
        Inl err \<Rightarrow> (validation_response err, st)
      | Inr _ \<Rightarrow>
          (case json_from_slice cr body of
             None \<Rightarrow> (error_response 400 ''invalid json payload'', st)
           | Some payload \<Rightarrow>
               (case sh_validate_payload handler (app_config st) payload (now_epoch_seconds now) of
                  Inl err \<Rightarrow> (validation_response err, st)
                | Inr _ \<Rightarrow>
                    (case sh_event_type handler headers payload of
                       Inl err \<Rightarrow> (validation_response err, st)
                     | Inr event_type \<Rightarrow> webhook_accept cr ch now st handler headers payload event_type))))"

definition webhook_handler ::
  "crates \<Rightarrow> channel \<Rightarrow> moment \<Rightarrow> app_state \<Rightarrow> string \<Rightarrow> headers \<Rightarrow> string \<Rightarrow> response \<times> app_state" where
  "webhook_handler cr ch now st source_path headers body =
     (case normalize_source source_path of
        None \<Rightarrow> (error_response 404 ''not found'', st)
      | Some normalized_source \<Rightarrow>
          if \<not> is_source_enabled (app_config st) normalized_source
          then (error_response 404 ''not found'', st)
          else (case handler_for_source normalized_source of
                  None \<Rightarrow> (error_response 404 ''not found'', st)
                | Some handler \<Rightarrow>
                    let (ok, limiter) = allow (app_rate_limiter st) (sh_source_name handler) (now_epoch_seconds now);
                        st = st\<lparr>app_rate_limiter := limiter\<rparr>
                    in if \<not> ok then (error_response 429 ''source rate limit exceeded'', st)
                       else webhook_validate cr ch now st handler headers body))"

subsection \<open>What a webhook request does to the state\<close>

definition ok_response :: "string \<Rightarrow> response" where
  "ok_response i = (200, obj [(''status'', JString ''ok''), (''id'', JString i)])"

lemma obj_neq: "k \<in> fst ` set kvs \<Longrightarrow> k \<notin> fst ` set kvs' \<Longrightarrow> obj kvs \<noteq> obj kvs'"
proof
  assume k: "k \<in> fst ` set kvs" "k \<notin> fst ` set kvs'" and eq: "obj kvs = obj kvs'"
  then have "map_of (rev kvs) = map_of (rev kvs')"
    by (metis json.inject(5) map_of_btree_collect obj_def)
  then have "dom (map_of (rev kvs)) = dom (map_of (rev kvs'))" by simp
  with k show False by (simp add: dom_map_of_conv_image_fst)
qed

lemma ok_response_neq [simp]:
  "ok_response i \<noteq> error_response n m" "error_response n m \<noteq> ok_response i"
  "ok_response i \<noteq> ignored_response r" "ignored_response r \<noteq> ok_response i"
  "ok_response i \<noteq> validation_response e" "validation_response e \<noteq> ok_response i"
proof -
  have err: "obj [(''status'', JString ''ok''), (''id'', JString i)] \<noteq> obj [(''error'', JString m)]" for i m
    by (rule obj_neq [of "''id''"]) auto
  have ign: "obj [(''status'', JString ''ok''), (''id'', JString i)] \<noteq>
      obj [(''status'', JString ''ignored''), (''reason'', JString r)]" for i r
    by (rule obj_neq [of "''id''"]) auto
  show oe: "ok_response i \<noteq> error_response n m" for n m using err by (simp add: error_response_def ok_response_def)
  show "error_response n m \<noteq> ok_response i" using oe by metis
  show oi: "ok_response i \<noteq> ignored_response r" using ign by (simp add: ignored_response_def ok_response_def)
  show "ignored_response r \<noteq> ok_response i" using oi by metis
  show ov: "ok_response i \<noteq> validation_response e" using oe by (cases e) simp_all
  show "validation_response e \<noteq> ok_response i" using ov by metis
qed

text \<open>The topic a job goes to: that of the first matching route, else that of the source.\<close>

definition route_topic :: "config \<Rightarrow> string \<Rightarrow> string \<Rightarrow> string" where
  "route_topic c source event_type =
     (case resolve_serve_route c source event_type of
        Some route \<Rightarrow> target_topic route | None \<Rightarrow> config_source_topic_name c source)"

lemma offer_cases:
  "offer ch st job = (r, st') \<longleftrightarrow>
     r = try_send ch (publish_queue st) job \<and>
     st' = (if r = SendOk then st\<lparr>publish_queue := publish_queue st @ [job]\<rparr> else st)"
  by (auto simp: offer_def split: try_send_result.splits)

text \<open>Everything the handler checks before it offers a job, and the job it offers.\<close>

record admission =
  adm_handler :: source_handler
  adm_payload :: json
  adm_sanitized :: json
  adm_key :: string
  adm_event_type :: string
  adm_flags :: "string list"

definition admitted ::
  "crates \<Rightarrow> moment \<Rightarrow> app_state \<Rightarrow> string \<Rightarrow> headers \<Rightarrow> string \<Rightarrow> admission \<Rightarrow> bool" where
  "admitted cr now st path hs body a \<longleftrightarrow>
     handler_for_source path = Some (adm_handler a) \<and>
     is_source_enabled (app_config st) (sh_source_name (adm_handler a)) \<and>
     fst (allow (app_rate_limiter st) (sh_source_name (adm_handler a)) (now_epoch_seconds now)) \<and>
     sh_validate_request (adm_handler a) cr (app_config st) hs body = Inr () \<and>
     json_from_slice cr body = Some (adm_payload a) \<and>
     sh_validate_payload (adm_handler a) (app_config st) (adm_payload a) (now_epoch_seconds now) = Inr () \<and>
     sh_dedup_key (adm_handler a) hs (adm_payload a) = Inr (adm_key a) \<and>
     fst (check (app_idempotency st) (adm_key a) (sh_cooldown_key (adm_handler a) (adm_payload a))
            (now_epoch_seconds now)) = Accept \<and>
     sanitize_payload cr (sh_source_name (adm_handler a)) (adm_payload a) = Inr (adm_sanitized a) \<and>
     (\<exists>t. sh_event_type (adm_handler a) hs (adm_payload a) = Inr t \<and>
        apply_serve_plugins cr (http_ingress_plugins st) t (adm_sanitized a) =
          Inr (adm_event_type a, adm_sanitized a, adm_flags a)) \<and>
     (serve_routes (app_config st) \<noteq> [] \<longrightarrow>
        resolve_serve_route (app_config st) (sh_source_name (adm_handler a)) (adm_event_type a) \<noteq> None)"

definition admitted_job :: "moment \<Rightarrow> app_state \<Rightarrow> admission \<Rightarrow> publish_job" where
  "admitted_job now st a =
     (let c = app_config st; source = sh_source_name (adm_handler a);
          route_key = map_option route_id (resolve_serve_route c source (adm_event_type a));
          trace_id = (if route_key \<noteq> None \<or> http_ingress_adapter_id st \<noteq> None
                      then Some (trace_uuid now) else None)
      in \<lparr>job_topic = route_topic c source (adm_event_type a),
          job_envelope = build_envelope (event_uuid now) (now_rfc3339 now) source (adm_event_type a)
            (adm_sanitized a) (build_event_meta trace_id (http_ingress_adapter_id st) route_key (adm_flags a))\<rparr>)"

text \<open>The plugins of the receiver never touch the payload.\<close>

lemma serve_plugins_loop_payload:
  "serve_plugins_loop cr plugins t p fl = Inr (t', p', fl') \<Longrightarrow> p' = p"
  by (induction cr plugins t p fl rule: serve_plugins_loop.induct) (auto split: if_splits)

lemma apply_serve_plugins_payload: "apply_serve_plugins cr plugins t p = Inr (t', p', fl) \<Longrightarrow> p' = p"
  by (simp add: apply_serve_plugins_def serve_plugins_loop_payload)

lemma webhook_publish_spec:
  assumes "webhook_publish ch now st h t p fl = (resp, st')"
  shows "resp \<noteq> ok_response (event_uuid now) \<and> st' = st
       \<or> resp = ok_response (event_uuid now)
         \<and> (serve_routes (app_config st) \<noteq> [] \<longrightarrow>
               resolve_serve_route (app_config st) (sh_source_name h) t \<noteq> None)
         \<and> (\<forall>a. adm_handler a = h \<and> adm_event_type a = t \<and> adm_sanitized a = p \<and> adm_flags a = fl \<longrightarrow>
              try_send ch (publish_queue st) (admitted_job now st a) = SendOk \<and>
              st' = st\<lparr>publish_queue := publish_queue st @ [admitted_job now st a]\<rparr>)"
  using assms
  by (cases "resolve_serve_route (app_config st) (sh_source_name h) t")
     (auto simp: webhook_publish_def Let_def admitted_job_def route_topic_def offer_def build_envelope_def
       handler_topic_name_def
       simp flip: ok_response_def split: try_send_result.splits if_splits)

text \<open>Frame: a request changes the queue, the rate windows and the idempotency store only.\<close>

definition frame :: "app_state \<Rightarrow> app_state \<Rightarrow> bool" where
  "frame st st' \<longleftrightarrow>
     app_config st' = app_config st \<and> publish_worker_alive st' = publish_worker_alive st \<and>
     http_ingress_adapter_id st' = http_ingress_adapter_id st \<and>
     http_ingress_plugins st' = http_ingress_plugins st \<and>
     websocket_ingress st' = websocket_ingress st \<and> mcp_ingress st' = mcp_ingress st"

lemma frame_refl [simp]: "frame st st"
  and frame_updates [simp]:
    "frame st (st\<lparr>publish_queue := q\<rparr>)" "frame st (st\<lparr>app_idempotency := i\<rparr>)"
    "frame st (st\<lparr>app_rate_limiter := l\<rparr>)"
  by (simp_all add: frame_def)

lemma frame_trans: "frame a b \<Longrightarrow> frame b c \<Longrightarrow> frame a c"
  by (simp add: frame_def)

lemma admitted_job_frame: "frame st st' \<Longrightarrow> admitted_job now st' a = admitted_job now st a"
  by (simp add: frame_def admitted_job_def)

lemma offer_frame: "offer ch st job = (r, st') \<Longrightarrow> frame st st'"
  by (auto simp: offer_cases)

lemma webhook_publish_frame: "frame st (snd (webhook_publish ch now st h t p fl))"
  by (auto simp: webhook_publish_def Let_def offer_def split: try_send_result.splits)

lemma webhook_accept_frame: "frame st (snd (webhook_accept cr ch now st h hs p t))"
  using frame_trans [OF frame_updates(2) webhook_publish_frame]
  by (auto simp: webhook_accept_def Let_def split: prod.splits sum.splits idempotency_decision.splits)

lemma webhook_validate_frame: "frame st (snd (webhook_validate cr ch now st h hs body))"
  using webhook_accept_frame
  by (auto simp: webhook_validate_def split: sum.splits option.splits)

lemma webhook_handler_frame: "frame st (snd (webhook_handler cr ch now st path hs body))"
  using frame_trans [OF frame_updates(3) webhook_validate_frame]
  by (auto simp: webhook_handler_def Let_def split: option.splits prod.splits)

text \<open>The outcome of a stage: nothing queued and no success, or exactly the admitted job.\<close>

definition outcome ::
  "channel \<Rightarrow> moment \<Rightarrow> app_state \<Rightarrow> (admission \<Rightarrow> bool) \<Rightarrow> response \<times> app_state \<Rightarrow> bool" where
  "outcome ch now st P r \<longleftrightarrow>
     (fst r \<noteq> ok_response (event_uuid now) \<and> publish_queue (snd r) = publish_queue st)
     \<or> (fst r = ok_response (event_uuid now) \<and>
        (\<exists>a. P a \<and> try_send ch (publish_queue st) (admitted_job now st a) = SendOk \<and>
             publish_queue (snd r) = publish_queue st @ [admitted_job now st a]))"

lemma outcome_mono:
  "outcome ch now st' P r \<Longrightarrow> frame st st' \<Longrightarrow> publish_queue st' = publish_queue st \<Longrightarrow>
     (\<And>a. P a \<Longrightarrow> Q a) \<Longrightarrow> outcome ch now st Q r"
  by (auto simp: outcome_def admitted_job_frame)

lemma outcome_reject [simp]:
  "fst r \<noteq> ok_response (event_uuid now) \<Longrightarrow> publish_queue (snd r) = publish_queue st \<Longrightarrow> outcome ch now st P r"
  by (simp add: outcome_def)

lemma webhook_publish_outcome:
  "outcome ch now st (\<lambda>a. adm_handler a = h \<and> adm_event_type a = t \<and> adm_sanitized a = p \<and> adm_flags a = fl \<and>
       Q a \<and> (serve_routes (app_config st) \<noteq> [] \<longrightarrow>
               resolve_serve_route (app_config st) (sh_source_name h) t \<noteq> None))
     (webhook_publish ch now st h t p fl)"
  if "\<exists>a. adm_handler a = h \<and> adm_event_type a = t \<and> adm_sanitized a = p \<and> adm_flags a = fl \<and> Q a"
  using that webhook_publish_spec [of ch now st h t p fl "fst (webhook_publish ch now st h t p fl)"
      "snd (webhook_publish ch now st h t p fl)"]
  by (auto simp: outcome_def)

lemma webhook_accept_outcome:
  assumes t: "sh_event_type h hs pl = Inr t"
  shows "outcome ch now st (\<lambda>a. adm_handler a = h \<and> adm_payload a = pl \<and>
       sh_dedup_key h hs pl = Inr (adm_key a) \<and>
       fst (check (app_idempotency st) (adm_key a) (sh_cooldown_key h pl) (now_epoch_seconds now)) = Accept \<and>
       sanitize_payload cr (sh_source_name h) pl = Inr (adm_sanitized a) \<and>
       (\<exists>t. sh_event_type h hs pl = Inr t \<and>
          apply_serve_plugins cr (http_ingress_plugins st) t (adm_sanitized a) =
            Inr (adm_event_type a, adm_sanitized a, adm_flags a)) \<and>
       (serve_routes (app_config st) \<noteq> [] \<longrightarrow>
          resolve_serve_route (app_config st) (sh_source_name h) (adm_event_type a) \<noteq> None))
     (webhook_accept cr ch now st h hs pl t)" (is "outcome ch now st ?P ?r")
proof (cases "sh_dedup_key h hs pl")
  case (Inr key)
  obtain d store where chk: "check (app_idempotency st) key (sh_cooldown_key h pl) (now_epoch_seconds now) = (d, store)"
    by force
  let ?st = "st\<lparr>app_idempotency := store\<rparr>"
  show ?thesis
  proof (cases d)
    case Accept
    show ?thesis
    proof (cases "sanitize_payload cr (sh_source_name h) pl")
      case san: (Inr p)
      show ?thesis
      proof (cases "apply_serve_plugins cr (http_ingress_plugins st) t p")
        case (Inl e)
        with Inr chk Accept san show ?thesis by (simp add: webhook_accept_def)
      next
        case plug: (Inr out)
        then obtain t' fl where out: "out = (t', p, fl)"
          using apply_serve_plugins_payload by (cases out) metis
        let ?Q = "\<lambda>a :: admission. adm_payload a = pl \<and> adm_key a = key"
        let ?a = "\<lparr>adm_handler = h, adm_payload = pl, adm_sanitized = p, adm_key = key,
            adm_event_type = t', adm_flags = fl\<rparr>"
        have ex: "\<exists>a. adm_handler a = h \<and> adm_event_type a = t' \<and> adm_sanitized a = p \<and> adm_flags a = fl \<and> ?Q a"
          by (rule exI [of _ ?a]) simp
        have r: "?r = webhook_publish ch now ?st h t' p fl"
          using Inr chk Accept san plug out by (simp add: webhook_accept_def)
        show ?thesis
          unfolding r
          by (rule outcome_mono [OF webhook_publish_outcome [OF ex, of ch now ?st]])
             (use Inr chk Accept san plug out t in auto)
      qed
    qed (use Inr chk Accept in \<open>simp add: webhook_accept_def\<close>)
  qed (use Inr chk in \<open>simp_all add: webhook_accept_def\<close>)
qed (simp add: webhook_accept_def)

text \<open>A request that gets as far as the idempotency store: known and enabled source, within its
  rate, authenticated, valid payload, event type and delivery id present.\<close>

definition reaches_check ::
  "crates \<Rightarrow> moment \<Rightarrow> app_state \<Rightarrow> string \<Rightarrow> headers \<Rightarrow> string \<Rightarrow> source_handler \<Rightarrow> json \<Rightarrow> string \<Rightarrow> string \<Rightarrow> bool" where
  "reaches_check cr now st path hs body h pl t key \<longleftrightarrow>
     handler_for_source path = Some h \<and>
     is_source_enabled (app_config st) (sh_source_name h) \<and>
     fst (allow (app_rate_limiter st) (sh_source_name h) (now_epoch_seconds now)) \<and>
     sh_validate_request h cr (app_config st) hs body = Inr () \<and>
     json_from_slice cr body = Some pl \<and>
     sh_validate_payload h (app_config st) pl (now_epoch_seconds now) = Inr () \<and>
     sh_event_type h hs pl = Inr t \<and> sh_dedup_key h hs pl = Inr key"

lemma handler_path_normal:
  "normalize_source path = Some n \<Longrightarrow> handler_for_source n = handler_for_source path"
  by (auto simp: handler_for_source_def normalize_source_def Let_def trim_lower split: if_splits)

text \<open>The handler with its early exits resolved.\<close>

lemma webhook_handler_open:
  assumes "handler_for_source path = Some h"
  shows "webhook_handler cr ch now st path hs body =
     (if \<not> is_source_enabled (app_config st) (sh_source_name h) then (error_response 404 ''not found'', st)
      else let (ok, limiter) = allow (app_rate_limiter st) (sh_source_name h) (now_epoch_seconds now);
               st = st\<lparr>app_rate_limiter := limiter\<rparr>
           in if \<not> ok then (error_response 429 ''source rate limit exceeded'', st)
              else webhook_validate cr ch now st h hs body)"
  using handler_for_source_name [OF assms] handler_path_normal [OF handler_for_source_name [OF assms]] assms
  by (simp add: webhook_handler_def)

lemma webhook_handler_unknown:
  "handler_for_source path = None \<Longrightarrow> webhook_handler cr ch now st path hs body = (error_response 404 ''not found'', st)"
  using handler_path_normal [of path] by (auto simp: webhook_handler_def split: option.splits)

lemma webhook_handler_reaches:
  assumes "reaches_check cr now st path hs body h pl t key"
  shows "webhook_handler cr ch now st path hs body =
     webhook_accept cr ch now
       (st\<lparr>app_rate_limiter := snd (allow (app_rate_limiter st) (sh_source_name h) (now_epoch_seconds now))\<rparr>)
       h hs pl t"
  using assms webhook_handler_open [of path h cr ch now st hs body]
  by (simp add: reaches_check_def webhook_validate_def Let_def split: prod.splits)

lemma webhook_validate_outcome:
  "outcome ch now st (\<lambda>a. adm_handler a = h \<and>
       sh_validate_request h cr (app_config st) hs body = Inr () \<and>
       json_from_slice cr body = Some (adm_payload a) \<and>
       sh_validate_payload h (app_config st) (adm_payload a) (now_epoch_seconds now) = Inr () \<and>
       sh_dedup_key h hs (adm_payload a) = Inr (adm_key a) \<and>
       fst (check (app_idempotency st) (adm_key a) (sh_cooldown_key h (adm_payload a)) (now_epoch_seconds now)) = Accept \<and>
       sanitize_payload cr (sh_source_name h) (adm_payload a) = Inr (adm_sanitized a) \<and>
       (\<exists>t. sh_event_type h hs (adm_payload a) = Inr t \<and>
          apply_serve_plugins cr (http_ingress_plugins st) t (adm_sanitized a) =
            Inr (adm_event_type a, adm_sanitized a, adm_flags a)) \<and>
       (serve_routes (app_config st) \<noteq> [] \<longrightarrow>
          resolve_serve_route (app_config st) (sh_source_name h) (adm_event_type a) \<noteq> None))
     (webhook_validate cr ch now st h hs body)" (is "outcome ch now st ?P ?r")
proof (cases "sh_validate_request h cr (app_config st) hs body")
  case req: (Inr u)
  show ?thesis
  proof (cases "json_from_slice cr body")
    case js: (Some pl)
    show ?thesis
    proof (cases "sh_validate_payload h (app_config st) pl (now_epoch_seconds now)")
      case vp: (Inr u')
      show ?thesis
      proof (cases "sh_event_type h hs pl")
        case et: (Inr t)
        have r: "?r = webhook_accept cr ch now st h hs pl t"
          using req js vp et by (simp add: webhook_validate_def)
        show ?thesis
          unfolding r
          by (rule outcome_mono [OF webhook_accept_outcome [OF et, of ch now st cr]])
             (use req js vp in auto)
      qed (use req js vp in \<open>simp add: webhook_validate_def\<close>)
    qed (use req js in \<open>simp add: webhook_validate_def\<close>)
  qed (use req in \<open>simp add: webhook_validate_def\<close>)
qed (simp add: webhook_validate_def)

lemma webhook_handler_outcome:
  "outcome ch now st (admitted cr now st path hs body) (webhook_handler cr ch now st path hs body)"
proof (cases "handler_for_source path")
  case None
  then show ?thesis by (simp add: webhook_handler_unknown)
next
  case (Some h)
  obtain ok lim where al: "allow (app_rate_limiter st) (sh_source_name h) (now_epoch_seconds now) = (ok, lim)"
    by force
  let ?st = "st\<lparr>app_rate_limiter := lim\<rparr>"
  show ?thesis
  proof (cases "is_source_enabled (app_config st) (sh_source_name h) \<and> ok")
    case True
    then have r: "webhook_handler cr ch now st path hs body = webhook_validate cr ch now ?st h hs body"
      using al by (simp add: webhook_handler_open [OF Some])
    show ?thesis
      unfolding r
      by (rule outcome_mono [OF webhook_validate_outcome [of ch now ?st h cr hs body]])
         (use True al Some in \<open>auto simp: admitted_def\<close>)
  next
    case False
    with al show ?thesis by (auto simp: webhook_handler_open [OF Some])
  qed
qed

lemma admitted_reaches:
  "admitted cr now st path hs body a \<Longrightarrow>
     \<exists>t. reaches_check cr now st path hs body (adm_handler a) (adm_payload a) t (adm_key a)"
  by (auto simp: admitted_def reaches_check_def)

lemma admitted_answer:
  assumes "admitted cr now st path hs body a"
  shows "fst (webhook_handler cr ch now st path hs body) =
     (case try_send ch (publish_queue st) (admitted_job now st a) of
        SendOk \<Rightarrow> ok_response (event_uuid now)
      | SendFull \<Rightarrow> error_response 503 ''publisher queue is full''
      | SendClosed \<Rightarrow> error_response 503 ''publisher unavailable'')"
proof -
  let ?h = "adm_handler a" let ?pl = "adm_payload a"
  obtain t where r: "reaches_check cr now st path hs body ?h ?pl t (adm_key a)"
    and t: "apply_serve_plugins cr (http_ingress_plugins st) t (adm_sanitized a) =
      Inr (adm_event_type a, adm_sanitized a, adm_flags a)"
    using assms by (auto simp: admitted_def reaches_check_def)
  let ?st = "st\<lparr>app_rate_limiter := snd (allow (app_rate_limiter st) (sh_source_name ?h) (now_epoch_seconds now)),
      app_idempotency := snd (check (app_idempotency st) (adm_key a) (sh_cooldown_key ?h ?pl) (now_epoch_seconds now))\<rparr>"
  have "webhook_handler cr ch now st path hs body =
      webhook_publish ch now ?st ?h (adm_event_type a) (adm_sanitized a) (adm_flags a)"
    using assms t r
    by (auto simp: webhook_handler_reaches [OF r] admitted_def webhook_accept_def reaches_check_def Let_def
        split: prod.splits)
  moreover have "admitted_job now ?st a = admitted_job now st a"
    by (simp add: admitted_job_def)
  ultimately show ?thesis
    using assms
    by (cases "resolve_serve_route (app_config st) (sh_source_name ?h) (adm_event_type a)")
       (auto simp: webhook_publish_def Let_def admitted_def admitted_job_def route_topic_def offer_def
         build_envelope_def handler_topic_name_def ok_response_def split: try_send_result.splits)
qed

lemma admitted_complete:
  "admitted cr now st path hs body a \<Longrightarrow> try_send ch (publish_queue st) (admitted_job now st a) = SendOk \<Longrightarrow>
     fst (webhook_handler cr ch now st path hs body) = ok_response (event_uuid now)"
  by (simp add: admitted_answer)

text \<open>What a request that reaches the store leaves in it, and what it answers.\<close>

lemma webhook_publish_store: "app_idempotency (snd (webhook_publish ch now st h t p fl)) = app_idempotency st"
  by (auto simp: webhook_publish_def Let_def offer_def split: try_send_result.splits)

lemma webhook_accept_store:
  "sh_dedup_key h hs pl = Inr key \<Longrightarrow>
     app_idempotency (snd (webhook_accept cr ch now st h hs pl t)) =
       snd (check (app_idempotency st) key (sh_cooldown_key h pl) (now_epoch_seconds now))"
  by (auto simp: webhook_accept_def Let_def webhook_publish_store
      split: prod.splits sum.splits idempotency_decision.splits)

lemma reaches_store:
  assumes "reaches_check cr now st path hs body h pl t key"
  shows "app_idempotency (snd (webhook_handler cr ch now st path hs body)) =
     snd (check (app_idempotency st) key (sh_cooldown_key h pl) (now_epoch_seconds now))"
proof -
  have "sh_dedup_key h hs pl = Inr key" using assms by (simp add: reaches_check_def)
  then show ?thesis by (simp add: webhook_handler_reaches [OF assms] webhook_accept_store)
qed

lemma reaches_duplicate:
  assumes r: "reaches_check cr now st path hs body h pl t key"
    and d: "fst (check (app_idempotency st) key (sh_cooldown_key h pl) (now_epoch_seconds now)) = Duplicate"
  shows "fst (webhook_handler cr ch now st path hs body) = ignored_response ''duplicate''"
    "publish_queue (snd (webhook_handler cr ch now st path hs body)) = publish_queue st"
proof -
  have k: "sh_dedup_key h hs pl = Inr key" using r by (simp add: reaches_check_def)
  from d show "fst (webhook_handler cr ch now st path hs body) = ignored_response ''duplicate''"
    "publish_queue (snd (webhook_handler cr ch now st path hs body)) = publish_queue st"
    by (auto simp: webhook_handler_reaches [OF r] webhook_accept_def k Let_def split: prod.splits)
qed

lemma reaches_key_nonempty: "reaches_check cr now st path hs body h pl t key \<Longrightarrow> key \<noteq> []"
  unfolding reaches_check_def
  by (metis registered_contract source_contract.dedup_nonempty)

text \<open>A request leaves the store alone, or makes one call of it at its own time; a key that is taken stays
  taken until its expiry.\<close>

lemma webhook_handler_store:
  "app_idempotency (snd (webhook_handler cr ch now st path hs body)) = app_idempotency st
     \<or> (\<exists>k c. app_idempotency (snd (webhook_handler cr ch now st path hs body)) =
            snd (check (app_idempotency st) k c (now_epoch_seconds now)))"
proof (cases "\<exists>h pl t key. reaches_check cr now st path hs body h pl t key")
  case True
  then show ?thesis using reaches_store by blast
next
  case no: False
  show ?thesis
  proof (cases "handler_for_source path")
    case None
    then show ?thesis by (simp add: webhook_handler_unknown)
  next
    case (Some h)
    have store: "app_idempotency (snd (webhook_validate cr ch now st' h hs body)) = app_idempotency st'"
      if "is_source_enabled (app_config st) (sh_source_name h)" "app_config st' = app_config st"
        "fst (allow (app_rate_limiter st) (sh_source_name h) (now_epoch_seconds now))" for st'
      using no Some that
      by (auto simp: reaches_check_def webhook_validate_def webhook_accept_def Let_def split: sum.splits option.splits)
    obtain ok lim where al: "allow (app_rate_limiter st) (sh_source_name h) (now_epoch_seconds now) = (ok, lim)" by force
    with store [of "st\<lparr>app_rate_limiter := lim\<rparr>"] show ?thesis by (auto simp: webhook_handler_open [OF Some] Let_def)
  qed
qed

lemma webhook_handler_taken:
  assumes "taken (dedup_expirations (app_idempotency st)) k t" "k \<noteq> []" "le_i64 (now_epoch_seconds now) t"
  shows "taken (dedup_expirations (app_idempotency (snd (webhook_handler cr ch now st path hs body)))) k t"
  using webhook_handler_store [of cr ch now st path hs body] assms check_taken_mono by metis

lemma first_is_taken:
  assumes r: "reaches_check cr now st path hs body h pl t key"
    and fresh: "fst (check (app_idempotency st) key (sh_cooldown_key h pl) (now_epoch_seconds now)) \<noteq> Duplicate"
    and clock: "0 \<le> sint (now_epoch_seconds now)" "0 \<le> sint (dedup_ttl_seconds (app_idempotency st))"
      "sint (now_epoch_seconds now) + sint (dedup_ttl_seconds (app_idempotency st)) < 2 ^ 63"
      "sint u < sint (now_epoch_seconds now) + sint (dedup_ttl_seconds (app_idempotency st))"
  shows "taken (dedup_expirations (app_idempotency (snd (webhook_handler cr ch now st path hs body)))) key u"
  unfolding reaches_store [OF r] using check_records fresh reaches_key_nonempty [OF r] clock by blast

lemma taken_is_duplicate:
  assumes r: "reaches_check cr now st path hs body h pl t key"
    and "taken (dedup_expirations (app_idempotency st)) key (now_epoch_seconds now)"
  shows "fst (webhook_handler cr ch now st path hs body) = ignored_response ''duplicate''
       \<and> publish_queue (snd (webhook_handler cr ch now st path hs body)) = publish_queue st"
proof -
  have "fst (check (app_idempotency st) key (sh_cooldown_key h pl) (now_epoch_seconds now)) = Duplicate"
    using assms(2) reaches_key_nonempty [OF r] by (simp add: check_Duplicate_iff)
  then show ?thesis using reaches_duplicate [OF r] by blast
qed

lemma replay_is_duplicate:
  assumes r: "reaches_check cr now st path hs body h pl t key"
    and fresh: "fst (check (app_idempotency st) key (sh_cooldown_key h pl) (now_epoch_seconds now)) \<noteq> Duplicate"
    and st': "app_idempotency st' = app_idempotency (snd (webhook_handler cr ch now st path hs body))"
    and r': "reaches_check cr now' st' path' hs' body' h' pl' t' key"
    and clock: "0 \<le> sint (now_epoch_seconds now)" "0 \<le> sint (dedup_ttl_seconds (app_idempotency st))"
      "sint (now_epoch_seconds now) + sint (dedup_ttl_seconds (app_idempotency st)) < 2 ^ 63"
      "sint (now_epoch_seconds now') < sint (now_epoch_seconds now) + sint (dedup_ttl_seconds (app_idempotency st))"
  shows "fst (webhook_handler cr ch' now' st' path' hs' body') = ignored_response ''duplicate''
       \<and> publish_queue (snd (webhook_handler cr ch' now' st' path' hs' body')) = publish_queue st'"
  by (rule taken_is_duplicate [OF r']) (simp only: st' first_is_taken [OF r fresh clock])

subsection \<open>A concrete receiver\<close>

definition demo_body_json :: json where
  "demo_body_json = JObject [(''action'', JString ''opened'')]"

definition demo_webhook_crates :: crates where
  "demo_webhook_crates = demo_crates\<lparr>json_from_slice := \<lambda>_. Some demo_body_json, regex_find := \<lambda>_ _. None\<rparr>"

definition demo_request :: headers where
  "demo_request = map_of
     [(''x-hub-signature-256'', ''sha256='' @ compute_hmac_sha256_hex demo_crates ''github-secret'' ''{}''),
      (''x-github-event'', ''ping''), (''x-github-delivery'', ''d1'')]"

definition demo_moment :: "i64 \<Rightarrow> moment" where
  "demo_moment t = \<lparr>now_epoch_seconds = t, now_rfc3339 = ''2023-11-14T22:13:20Z'', trace_uuid = ''t1'', event_uuid = ''e1''\<rparr>"

definition demo_state :: app_state where
  "demo_state = \<lparr>app_config = demo_config, publish_queue = [],
     app_rate_limiter = new_source_rate_limiter 500, app_idempotency = new_idempotency_store 604800 30,
     publish_worker_alive = True, http_ingress_adapter_id = None, http_ingress_plugins = [],
     websocket_ingress = None, mcp_ingress = None\<rparr>"

text \<open>A channel that holds \<open>n\<close> jobs.\<close>

definition bounded_channel :: "nat \<Rightarrow> channel" where
  "bounded_channel n = \<lparr>try_send = \<lambda>q job. if length q < n then SendOk else SendFull,
     try_send_text = \<lambda>r. ''no available capacity''\<rparr>"

lemma demo_request_valid:
  "sh_validate_request github_handler demo_webhook_crates demo_config demo_request ''{}'' = Inr ()"
  "sh_event_type github_handler demo_request demo_body_json = Inr ''ping.opened''"
  "sh_dedup_key github_handler demo_request demo_body_json = Inr ''github:d1:opened:unknown''"
  "sh_validate_payload github_handler demo_config demo_body_json t = Inr ()"
  "is_source_enabled demo_config ''github''"
  by (code_simp, code_simp, code_simp, simp add: github_handler_def default_validate_payload_def, code_simp)

lemma demo_reaches:
  "fst (allow (app_rate_limiter st) ''github'' t) \<Longrightarrow> app_config st = demo_config \<Longrightarrow>
   reaches_check demo_webhook_crates (demo_moment t) st ''github'' demo_request ''{}''
     github_handler demo_body_json ''ping.opened'' ''github:d1:opened:unknown''"
  using demo_request_valid by (simp add: reaches_check_def demo_moment_def demo_webhook_crates_def)

lemma demo_allowed: "fst (allow (app_rate_limiter demo_state) s t)"
  by (simp add: allow_iff demo_state_def new_source_rate_limiter_def limiter_defs)

definition demo_admission :: admission where
  "demo_admission = \<lparr>adm_handler = github_handler, adm_payload = demo_body_json,
     adm_sanitized = JObject [(''_sanitized'', JBool True), (''action'', JString ''opened'')],
     adm_key = ''github:d1:opened:unknown'', adm_event_type = ''ping.opened'', adm_flags = []\<rparr>"

lemma demo_admitted:
  "admitted demo_webhook_crates (demo_moment 1700000000) demo_state ''github'' demo_request ''{}'' demo_admission"
proof -
  have "sanitize_payload demo_webhook_crates ''github'' demo_body_json =
      Inr (JObject [(''_sanitized'', JBool True), (''action'', JString ''opened'')])" by code_simp
  moreover have "serve_routes demo_config = []" by code_simp
  moreover have "fst (check (app_idempotency demo_state) ''github:d1:opened:unknown'' None 1700000000) = Accept"
    by (simp add: fst_check demo_state_def new_idempotency_store_def live_def)
  moreover have "sh_cooldown_key github_handler demo_body_json = None" by code_simp
  ultimately show ?thesis
    using demo_request_valid demo_allowed
    by (simp add: admitted_def demo_admission_def demo_moment_def demo_webhook_crates_def
        apply_serve_plugins_def) (simp add: demo_state_def)
qed

lemma demo_cooldown: "sh_cooldown_key github_handler demo_body_json = None"
  by code_simp

text \<open>The state after a first request through a channel with room for \<open>n\<close> jobs, and a second
  request to it five seconds later.\<close>

definition demo_after :: "nat \<Rightarrow> app_state" where
  "demo_after n = demo_state\<lparr>app_idempotency := app_idempotency (snd (webhook_handler demo_webhook_crates
     (bounded_channel n) (demo_moment 1700000000) demo_state ''github'' demo_request ''{}''))\<rparr>"

lemma demo_after_store:
  "app_idempotency (demo_after n) = app_idempotency (snd (webhook_handler demo_webhook_crates
     (bounded_channel n) (demo_moment 1700000000) demo_state ''github'' demo_request ''{}''))"
  by (simp add: demo_after_def)

lemma demo_reaches_first:
  "reaches_check demo_webhook_crates (demo_moment 1700000000) demo_state ''github'' demo_request ''{}''
     github_handler demo_body_json ''ping.opened'' ''github:d1:opened:unknown''"
  by (rule demo_reaches [OF demo_allowed]) (simp add: demo_state_def)

lemma demo_reaches_again:
  "reaches_check demo_webhook_crates (demo_moment 1700000005) (demo_after n) ''github'' demo_request ''{}''
     github_handler demo_body_json ''ping.opened'' ''github:d1:opened:unknown''"
proof (rule demo_reaches)
  show "fst (allow (app_rate_limiter (demo_after n)) ''github'' 1700000005)"
    using demo_allowed by (simp add: demo_after_def)
  show "app_config (demo_after n) = demo_config" by (simp add: demo_after_def demo_state_def)
qed

lemma demo_fresh:
  "fst (check (app_idempotency demo_state) ''github:d1:opened:unknown'' (sh_cooldown_key github_handler demo_body_json)
     (now_epoch_seconds (demo_moment 1700000000))) \<noteq> Duplicate"
  by (simp add: check_Duplicate_iff demo_state_def new_idempotency_store_def live_def)

lemma demo_clock:
  "now_epoch_seconds (demo_moment t) = t" "dedup_ttl_seconds (app_idempotency demo_state) = 604800"
  by (simp_all add: demo_moment_def demo_state_def new_idempotency_store_def)

lemma demo_busy:
  "fst (webhook_handler demo_webhook_crates (bounded_channel 0) (demo_moment 1700000000) demo_state
     ''github'' demo_request ''{}'') = error_response 503 ''publisher queue is full''"
  unfolding admitted_answer [OF demo_admitted] by (simp add: bounded_channel_def)

subsection \<open>Properties\<close>

text \<open>C1. A webhook request is answered with success exactly when it was admitted (known and enabled
  source, within its rate, authenticated, valid JSON and time stamp, delivery neither repeated nor
  cooling down, sanitised, plugins and a route satisfied) and the channel takes its job. With success exactly that one job is appended to the
  queue, and with any other answer the queue is unchanged. The job carries the sanitised payload, the
  normalised source, the response's id and the topic of the route.\<close>

theorem webhook_success_iff_queued:
  "let (resp, st') = webhook_handler cr ch now st path hs body in
     (resp = ok_response (event_uuid now) \<longleftrightarrow>
        (\<exists>a. admitted cr now st path hs body a \<and> try_send ch (publish_queue st) (admitted_job now st a) = SendOk))
   \<and> (if resp = ok_response (event_uuid now)
      then \<exists>a. admitted cr now st path hs body a \<and> publish_queue st' = publish_queue st @ [admitted_job now st a]
      else publish_queue st' = publish_queue st)"
  using webhook_handler_outcome [of ch now st cr path hs body] admitted_complete [of cr now st path hs body]
  unfolding outcome_def Let_def case_prod_beta by (auto split: if_splits)

text \<open>C5. Nothing gets into Kafka through the GitHub or Linear webhook without a valid signature: if
  a request to such a path makes the queue grow, the source's secret is configured and the
  request's signature header is the HMAC-SHA256 of the received body under it.\<close>

theorem webhook_queue_authentic:
  assumes "ct_eq_ok cr" "hex_ok cr"
    and grown: "publish_queue (snd (webhook_handler cr ch now st path hs body)) \<noteq> publish_queue st"
    and path: "normalize_source path = Some source" "source \<in> {''github'', ''linear''}"
  shows "\<exists>secret sig.
      (if source = ''github'' then hmac_secret_github (app_config st) else hmac_secret_linear (app_config st)) = Some secret
    \<and> header_value hs (if source = ''github'' then ''X-Hub-Signature-256'' else ''Linear-Signature'') = Some sig
    \<and> normalize_signature sig = compute_hmac_sha256_hex cr secret body"
proof -
  obtain a where a: "admitted cr now st path hs body a"
    using webhook_handler_outcome [of ch now st cr path hs body] grown by (auto simp: outcome_def)
  then have h: "handler_for_source path = Some (adm_handler a)"
    and v: "sh_validate_request (adm_handler a) cr (app_config st) hs body = Inr ()"
    by (auto simp: admitted_def)
  from handler_for_source_name [OF h] path have n: "sh_source_name (adm_handler a) = source" by simp
  from h show ?thesis
  proof (cases rule: handler_for_source_cases)
    case 1
    with v n show ?thesis
      by (auto simp: handler_defs request_defs header_copies result_iffs verify_github_signature_def Let_def
          constant_time_hex_equals_iff [OF assms(1)] split: if_splits)
  next
    case 2
    with v n show ?thesis
      by (auto simp: handler_defs request_defs header_copies result_iffs verify_linear_signature_def Let_def
          constant_time_hex_equals_iff [OF assms(1)] split: if_splits)
  next
    case 3
    with n path show ?thesis by auto
  qed
qed

theorem webhook_queue_authentic_witness:
  "\<exists>secret sig. hmac_secret_github demo_config = Some secret
     \<and> header_value demo_request ''X-Hub-Signature-256'' = Some sig
     \<and> normalize_signature sig = compute_hmac_sha256_hex demo_webhook_crates secret ''{}''"
proof -
  have "try_send (bounded_channel 1) (publish_queue demo_state) job = SendOk" for job
    by (simp add: bounded_channel_def demo_state_def)
  with admitted_complete [OF demo_admitted]
  have "fst (webhook_handler demo_webhook_crates (bounded_channel 1) (demo_moment 1700000000) demo_state
      ''github'' demo_request ''{}'') = ok_response ''e1''" by (simp add: demo_moment_def)
  then have "publish_queue (snd (webhook_handler demo_webhook_crates (bounded_channel 1) (demo_moment 1700000000)
      demo_state ''github'' demo_request ''{}'')) \<noteq> publish_queue demo_state"
    using webhook_handler_outcome [of "bounded_channel 1" "demo_moment 1700000000" demo_state demo_webhook_crates
        "''github''" demo_request "''{}''"] by (auto simp: outcome_def demo_moment_def)
  moreover have "normalize_source ''github'' = Some ''github''" by code_simp
  moreover have "ct_eq_ok demo_webhook_crates" "hex_ok demo_webhook_crates"
    by (simp_all add: demo_webhook_crates_def)
  ultimately show ?thesis
    using webhook_queue_authentic [of demo_webhook_crates "bounded_channel 1" "demo_moment 1700000000" demo_state
        "''github''" demo_request "''{}''" "''github''"] by (simp add: demo_state_def)
qed

text \<open>C36. Back-pressure loses events: the delivery is recorded before the job is offered to the
  channel, so when the channel is full (or closed) the sender is answered 503 and nothing is
  queued, but its retry within the time-to-live is answered 200 \<open>duplicate\<close> and queues nothing
  either, even with room in the channel.\<close>

theorem webhook_lost_on_backpressure:
  assumes r: "reaches_check cr now st path hs body h pl t key"
    and busy: "fst (webhook_handler cr ch now st path hs body) = error_response 503 m"
    and st': "app_idempotency st' = app_idempotency (snd (webhook_handler cr ch now st path hs body))"
    and r': "reaches_check cr now' st' path hs body h pl t key"
    and clock: "0 \<le> sint (now_epoch_seconds now)" "0 \<le> sint (dedup_ttl_seconds (app_idempotency st))"
      "sint (now_epoch_seconds now) + sint (dedup_ttl_seconds (app_idempotency st)) < 2 ^ 63"
      "sint (now_epoch_seconds now') < sint (now_epoch_seconds now) + sint (dedup_ttl_seconds (app_idempotency st))"
  shows "publish_queue (snd (webhook_handler cr ch now st path hs body)) = publish_queue st
       \<and> fst (webhook_handler cr ch' now' st' path hs body) = ignored_response ''duplicate''
       \<and> publish_queue (snd (webhook_handler cr ch' now' st' path hs body)) = publish_queue st'"
proof -
  have "fst (check (app_idempotency st) key (sh_cooldown_key h pl) (now_epoch_seconds now)) \<noteq> Duplicate"
    using reaches_duplicate(1) [OF r] busy by (auto simp: ignored_response_def error_response_def)
  note replay_is_duplicate [OF r this st' r' clock, of ch']
  moreover have "publish_queue (snd (webhook_handler cr ch now st path hs body)) = publish_queue st"
    using webhook_handler_outcome [of ch now st cr path hs body] busy by (auto simp: outcome_def)
  ultimately show ?thesis by blast
qed

theorem webhook_lost_on_backpressure_witness:
  "fst (webhook_handler demo_webhook_crates (bounded_channel 4096) (demo_moment 1700000005) (demo_after 0) ''github''
     demo_request ''{}'') = ignored_response ''duplicate''"
  using webhook_lost_on_backpressure [OF demo_reaches_first demo_busy demo_after_store demo_reaches_again]
  by (simp add: demo_clock)

text \<open>Routing of webhooks: with routes configured, a job goes to the target topic of the first
  route whose source and event patterns (as globs) both match, and there is one; without routes,
  to the configured topic of its source.\<close>

theorem webhook_job_topic:
  assumes "admitted cr now st path hs body a"
  shows "(serve_routes (app_config st) = [] \<and>
            job_topic (admitted_job now st a) = config_source_topic_name (app_config st) (sh_source_name (adm_handler a)))
       \<or> (\<exists>i < length (serve_routes (app_config st)).
            job_topic (admitted_job now st a) = target_topic (serve_routes (app_config st) ! i)
          \<and> glob (trim (source_match (serve_routes (app_config st) ! i))) (sh_source_name (adm_handler a))
          \<and> glob (trim (event_type_pattern (serve_routes (app_config st) ! i))) (adm_event_type a)
          \<and> (\<forall>j < i. \<not> (wildcard_matches (source_match (serve_routes (app_config st) ! j)) (sh_source_name (adm_handler a))
                 \<and> wildcard_matches (event_type_pattern (serve_routes (app_config st) ! j)) (adm_event_type a))))"
proof (cases "resolve_serve_route (app_config st) (sh_source_name (adm_handler a)) (adm_event_type a)")
  case None
  with assms show ?thesis by (auto simp: admitted_def admitted_job_def route_topic_def Let_def)
next
  case (Some route)
  then have topic: "job_topic (admitted_job now st a) = target_topic route"
    by (simp add: admitted_job_def route_topic_def Let_def)
  from Some show ?thesis
    unfolding topic resolve_serve_route_def find_Some_iff by (auto simp: serve.matches_glob)
qed

theorem webhook_job_topic_witness:
  "job_topic (admitted_job (demo_moment 1700000000) demo_state demo_admission) = ''webhooks.github''"
proof -
  have "serve_routes demo_config = []" "config_source_topic_name demo_config ''github'' = ''webhooks.github''"
    by code_simp+
  with webhook_job_topic [OF demo_admitted] show ?thesis
    by (simp add: demo_state_def demo_admission_def)
qed

end
