(* ===== verification/Ingress.thy ===== *)
theory Ingress
  imports Serve
begin

section \<open>Ingress adapters\<close>

text \<open>
  The rest of \<open>src/main.rs\<close>: which adapters the configuration selects and with which token, the
  token check, the websocket, MCP and Kafka ingress, which share \<open>enqueue_prevalidated_event\<close>, the
  health end points and the start-up. Frames of a websocket session and messages of a Kafka
  consumer are arguments.
\<close>

record ingress_crates =
  de_envelope :: "string \<Rightarrow> event_envelope option"
  de_kafka_ingress :: "string \<Rightarrow> (string \<times> json \<times> string option) option"
  de_ws_frame :: "json \<Rightarrow> (json option \<times> string option) option"

subsection \<open>Tokens\<close>

definition resolve_auth_token :: "env \<Rightarrow> string \<Rightarrow> string option \<Rightarrow> string \<Rightarrow> string option result" where
  "resolve_auth_token e auth_mode token_env adapter_id =
     (let mode = to_ascii_lowercase (trim auth_mode)
      in if mode = ''none'' then Inr None
         else if mode = ''bearer'' \<or> mode = ''hmac'' then
           and_then (ok_or (''adapter '' @ quoted adapter_id @ '' auth_mode='' @ auth_mode @ '' requires token_env'')
                       token_env) (\<lambda>token_env.
           and_then (ok_or (''missing auth token env '' @ quoted token_env @ '' for adapter '' @ quoted adapter_id)
                       (e token_env)) (\<lambda>token.
             if blank token
             then Inl (''auth token env '' @ quoted token_env @ '' for adapter '' @ quoted adapter_id @ '' cannot be empty'')
             else Inr (Some token)))
         else Inl (''unsupported auth_mode '' @ quoted mode @ '' for adapter '' @ quoted adapter_id))"

definition extract_bearer_token :: "headers \<Rightarrow> string option" where
  "extract_bearer_token headers =
     Option.bind (header_get headers ''authorization'') (\<lambda>raw.
       let authorization = trim raw; bearer = ''bearer ''
       in if length authorization < length bearer
             \<or> \<not> eq_ignore_ascii_case (take (length bearer) authorization) bearer
          then None
          else let token = trim (drop (length bearer) authorization)
               in if token = [] then None else Some token)"

text \<open>The copy of \<open>header_value\<close> in \<open>main.rs\<close>.\<close>

definition main_header_value :: "headers \<Rightarrow> string \<Rightarrow> string option" where
  "main_header_value headers key = opt_filter (\<lambda>v. v \<noteq> []) (map_option trim (header_get headers key))"

definition authorize_adapter_request :: "headers \<Rightarrow> string \<Rightarrow> string option \<Rightarrow> bool" where
  "authorize_adapter_request headers auth_mode expected_token =
     (let mode = to_ascii_lowercase (trim auth_mode)
      in if mode = ''none'' then True
         else if mode = ''bearer'' \<or> mode = ''hmac'' then
           (case expected_token of
              None \<Rightarrow> False
            | Some expected \<Rightarrow>
                unwrap_or [] (or_else (extract_bearer_token headers)
                                (main_header_value headers ''x-adapter-token'')) = expected)
         else False)"

subsection \<open>Selecting the adapters\<close>

definition select_adapter ::
  "env \<Rightarrow> config \<Rightarrow> ingress_adapter \<Rightarrow> ingress_runtime_selection \<Rightarrow> ingress_runtime_selection result" where
  "select_adapter e c adapter sel =
     (case adapter of
        HttpWebhookIngress aid bind path_template plugins \<Rightarrow>
          Inr (sel\<lparr>sel_http_adapter_id :=
                     (if sel_http_adapter_id sel = None then Some aid else sel_http_adapter_id sel),
                   sel_http_path := path_template, sel_http_plugins := plugins\<rparr>)
      | WebsocketIngress aid path_template auth_mode token_env plugins \<Rightarrow>
          and_then (resolve_auth_token e auth_mode token_env aid) (\<lambda>auth_token.
            Inr (sel\<lparr>sel_websocket := Some
                  \<lparr>wir_id = aid, wir_path_template = path_template, wir_auth_mode = auth_mode,
                   wir_auth_token = auth_token, wir_plugins = plugins\<rparr>\<rparr>))
      | McpIngestExposed aid tool_name transport_driver bind auth_mode token_env max_bytes path plugins \<Rightarrow>
          and_then (resolve_auth_token e auth_mode token_env aid) (\<lambda>auth_token.
            Inr (sel\<lparr>sel_mcp := Some
                  \<lparr>mir_id = aid, mir_tool_name = tool_name, mir_path = path, mir_auth_mode = auth_mode,
                   mir_auth_token = auth_token, mir_max_payload_bytes = max_bytes, mir_plugins = plugins\<rparr>\<rparr>))
      | KafkaIngress aid topics group_id brokers plugins \<Rightarrow>
          Inr (sel\<lparr>sel_kafka := sel_kafka sel @
                 [\<lparr>kir_id = aid, kir_topics = topics, kir_group_id = group_id,
                   kir_brokers = unwrap_or (kafka_brokers c) brokers, kir_plugins = plugins\<rparr>]\<rparr>))"

fun select_adapters ::
  "env \<Rightarrow> config \<Rightarrow> ingress_adapter list \<Rightarrow> ingress_runtime_selection \<Rightarrow> ingress_runtime_selection result" where
  "select_adapters e c [] sel = Inr sel"
| "select_adapters e c (adapter # adapters) sel =
     and_then (select_adapter e c adapter sel) (select_adapters e c adapters)"

definition resolve_ingress_runtime :: "env \<Rightarrow> config \<Rightarrow> ingress_runtime_selection result" where
  "resolve_ingress_runtime e c =
     select_adapters e c (ingress_adapters c)
       \<lparr>sel_http_path = ''/webhook/{source}'', sel_http_adapter_id = active_ingress_adapter_id c,
        sel_http_plugins = [], sel_websocket = None, sel_mcp = None, sel_kafka = []\<rparr>"

subsection \<open>Events that come authenticated\<close>

text \<open>\<open>{:?}\<close> of a \<open>ValidationError\<close>: its messages hold nothing to escape.\<close>

definition debug_validation_error :: "validation_error \<Rightarrow> string" where
  "debug_validation_error err =
     (case err of
        Unauthorized m \<Rightarrow> ''Unauthorized('' @ [CHR 0x22] @ m @ [CHR 0x22] @ '')''
      | BadRequest m \<Rightarrow> ''BadRequest('' @ [CHR 0x22] @ m @ [CHR 0x22] @ '')'')"

definition prevalidated_event_type :: "string \<Rightarrow> json \<Rightarrow> string option \<Rightarrow> string result" where
  "prevalidated_event_type normalized_source payload event_type_override =
     (case event_type_override of
        Some v \<Rightarrow>
          let trimmed = trim v
          in if trimmed = [] then Inl ''event_type override cannot be empty'' else Inr trimmed
      | None \<Rightarrow>
          (case handler_for_source normalized_source of
             Some handler \<Rightarrow>
               (case sh_event_type handler (\<lambda>_. None) payload of
                  Inl err \<Rightarrow> Inl (''derive event_type failed: '' @ debug_validation_error err)
                | Inr t \<Rightarrow> Inr t)
           | None \<Rightarrow> Inr ''event''))"

definition enqueue_prevalidated_event ::
  "crates \<Rightarrow> channel \<Rightarrow> moment \<Rightarrow> app_state \<Rightarrow> string \<Rightarrow> json \<Rightarrow> string option \<Rightarrow> string option \<Rightarrow> serve_plugin list \<Rightarrow>
   enqueue_accepted result \<times> app_state" where
  "enqueue_prevalidated_event cr ch now st source payload event_type_override ingress_adapter_id plugins =
     (case normalize_source source of
        None \<Rightarrow> (Inl ''source cannot be empty'', st)
      | Some normalized_source \<Rightarrow>
          if \<not> is_source_enabled (app_config st) normalized_source
          then (Inl (''source '' @ quoted normalized_source @ '' is not enabled''), st)
          else
            (case and_then (prevalidated_event_type normalized_source payload event_type_override) (\<lambda>event_type.
                  and_then (case sanitize_payload cr normalized_source payload of
                              Inl err \<Rightarrow> Inl (''payload sanitizer rejected request: '' @ err)
                            | Inr p \<Rightarrow> Inr p) (\<lambda>sanitized_payload.
                  apply_serve_plugins cr plugins event_type sanitized_payload)) of
               Inl err \<Rightarrow> (Inl err, st)
             | Inr (event_type, sanitized_payload, plugin_flags) \<Rightarrow>
                 let c = app_config st;
                     matched_route = resolve_serve_route c normalized_source event_type;
                     route_key = map_option route_id matched_route;
                     topic = unwrap_or (config_source_topic_name c normalized_source)
                               (map_option target_topic matched_route);
                     event_meta = build_event_meta (Some (trace_uuid now)) ingress_adapter_id route_key plugin_flags;
                     envelope = build_envelope (event_uuid now) (now_rfc3339 now) normalized_source event_type
                                  sanitized_payload event_meta
                 in case offer ch st \<lparr>job_topic = topic, job_envelope = envelope\<rparr> of
                      (SendOk, st') \<Rightarrow>
                        (Inr \<lparr>acc_event_id = ev_id envelope, acc_topic = topic, acc_event_type = event_type\<rparr>, st')
                    | (r, st') \<Rightarrow> (Inl (''failed to enqueue event: '' @ try_send_text ch r), st')))"

subsection \<open>MCP ingress\<close>

record mcp_ingest_request =
  req_source :: string
  req_payload :: json
  req_event_type :: "string option"

definition mcp_ingest_handler ::
  "crates \<Rightarrow> channel \<Rightarrow> moment \<Rightarrow> app_state \<Rightarrow> headers \<Rightarrow> mcp_ingest_request \<Rightarrow> response \<times> app_state" where
  "mcp_ingest_handler cr ch now st headers request =
     (case mcp_ingress st of
        None \<Rightarrow> (error_response 404 ''not found'', st)
      | Some adapter \<Rightarrow>
          if \<not> authorize_adapter_request headers (mir_auth_mode adapter) (mir_auth_token adapter)
          then (error_response 401 ''unauthorized'', st)
          else if unat (mir_max_payload_bytes adapter) < length (json_to_string cr (req_payload request))
          then (error_response 413 ''payload exceeds adapter max_payload_bytes'', st)
          else (case enqueue_prevalidated_event cr ch now st (req_source request) (req_payload request)
                       (req_event_type request) (Some (mir_id adapter)) (mir_plugins adapter) of
                  (Inl err, st') \<Rightarrow> (error_response 400 err, st')
                | (Inr accepted, st') \<Rightarrow>
                    ((200, obj [(''status'', JString ''ok''), (''event_id'', JString (acc_event_id accepted)),
                                (''source'', JString (req_source request)),
                                (''event_type'', JString (acc_event_type accepted)),
                                (''kafka_topic'', JString (acc_topic accepted)),
                                (''queued_at'', JString (now_rfc3339 now)),
                                (''tool_name'', JString (mir_tool_name adapter))]), st')))"

subsection \<open>Websocket ingress\<close>

definition parse_ws_frame_payload :: "crates \<Rightarrow> ingress_crates \<Rightarrow> string \<Rightarrow> (json \<times> string option) result" where
  "parse_ws_frame_payload cr ic raw =
     and_then (ok_or ''parse websocket frame JSON'' (json_from_slice cr raw)) (\<lambda>parsed.
       case de_ws_frame ic parsed of
         Some (payload, event_type) \<Rightarrow> Inr (unwrap_or parsed payload, event_type)
       | None \<Rightarrow> Inr (parsed, None))"

datatype ws_frame = WsText string | WsClose | WsOther | WsError

definition ws_error :: "string \<Rightarrow> json" where
  "ws_error message = obj [(''status'', JString ''error''), (''message'', JString message)]"

definition ws_text_response ::
  "crates \<Rightarrow> ingress_crates \<Rightarrow> channel \<Rightarrow> moment \<Rightarrow> app_state \<Rightarrow> string \<Rightarrow> websocket_ingress_runtime \<Rightarrow> string \<Rightarrow>
   json \<times> app_state" where
  "ws_text_response cr ic ch now st source adapter text =
     (case parse_ws_frame_payload cr ic text of
        Inl err \<Rightarrow> (ws_error err, st)
      | Inr (payload, event_type) \<Rightarrow>
          (case enqueue_prevalidated_event cr ch now st source payload event_type (Some (wir_id adapter))
                  (wir_plugins adapter) of
             (Inr accepted, st') \<Rightarrow>
               (obj [(''status'', JString ''ok''), (''event_id'', JString (acc_event_id accepted)),
                     (''kafka_topic'', JString (acc_topic accepted))], st')
           | (Inl err, st') \<Rightarrow> (ws_error err, st')))"

text \<open>The session: each frame comes with the moment it is handled and whether the answer could be
  sent; the result is the answers and the final state.\<close>

fun run_websocket_ingress_session ::
  "crates \<Rightarrow> ingress_crates \<Rightarrow> channel \<Rightarrow> app_state \<Rightarrow> string \<Rightarrow> websocket_ingress_runtime \<Rightarrow>
   (ws_frame \<times> moment \<times> bool) list \<Rightarrow> json list \<times> app_state" where
  "run_websocket_ingress_session cr ic ch st source adapter [] = ([], st)"
| "run_websocket_ingress_session cr ic ch st source adapter ((fr, now, sent) # frames) =
     (case fr of
        WsText text \<Rightarrow>
          let (answer, st') = ws_text_response cr ic ch now st source adapter text
          in if \<not> sent then ([answer], st')
             else let (answers, st'') = run_websocket_ingress_session cr ic ch st' source adapter frames
                  in (answer # answers, st'')
      | WsClose \<Rightarrow> ([], st)
      | WsOther \<Rightarrow> run_websocket_ingress_session cr ic ch st source adapter frames
      | WsError \<Rightarrow> ([], st))"

text \<open>The upgrade request: refused, or a session.\<close>

definition websocket_ingress_handler ::
  "crates \<Rightarrow> ingress_crates \<Rightarrow> channel \<Rightarrow> app_state \<Rightarrow> string \<Rightarrow> headers \<Rightarrow> (ws_frame \<times> moment \<times> bool) list \<Rightarrow>
   (response + json list) \<times> app_state" where
  "websocket_ingress_handler cr ic ch st source_path headers frames =
     (case websocket_ingress st of
        None \<Rightarrow> (Inl (error_response 404 ''not found''), st)
      | Some adapter \<Rightarrow>
          if \<not> authorize_adapter_request headers (wir_auth_mode adapter) (wir_auth_token adapter)
          then (Inl (error_response 401 ''unauthorized''), st)
          else (case run_websocket_ingress_session cr ic ch st source_path adapter frames of
                  (answers, st') \<Rightarrow> (Inr answers, st')))"

subsection \<open>Kafka ingress\<close>

definition parse_kafka_ingress_payload ::
  "ingress_crates \<Rightarrow> string \<Rightarrow> (string \<times> json \<times> string option) result" where
  "parse_kafka_ingress_payload ic payload =
     (case de_envelope ic payload of
        Some envelope \<Rightarrow> Inr (ev_source envelope, ev_payload envelope, Some (ev_type envelope))
      | None \<Rightarrow> ok_or ''parse kafka ingress payload as object'' (de_kafka_ingress ic payload))"

text \<open>One turn of the worker's loop: \<open>None\<close> a receive error, \<open>Some None\<close> a message without
  payload. The flag says whether the offset is committed.\<close>

definition kafka_ingress_turn ::
  "crates \<Rightarrow> ingress_crates \<Rightarrow> channel \<Rightarrow> moment \<Rightarrow> app_state \<Rightarrow> kafka_ingress_runtime \<Rightarrow> string option option \<Rightarrow>
   bool \<times> app_state" where
  "kafka_ingress_turn cr ic ch now st adapter received =
     (case received of
        None \<Rightarrow> (False, st)
      | Some None \<Rightarrow> (True, st)
      | Some (Some payload_bytes) \<Rightarrow>
          (case parse_kafka_ingress_payload ic payload_bytes of
             Inl err \<Rightarrow> (True, st)
           | Inr (source, payload, event_type) \<Rightarrow>
               (True, snd (enqueue_prevalidated_event cr ch now st source payload event_type
                             (Some (kir_id adapter)) (kir_plugins adapter)))))"

subsection \<open>Health and start-up\<close>

definition health :: response where
  "health = (200, obj [(''status'', JString ''ok'')])"

definition opt_json :: "string option \<Rightarrow> json" where
  "opt_json v = (case v of None \<Rightarrow> JNull | Some s \<Rightarrow> JString s)"

definition ready :: "app_state \<Rightarrow> response" where
  "ready st =
     (if \<not> publish_worker_alive st
      then (503, obj [(''status'', JString ''not_ready''), (''reason'', JString ''publisher worker not running'')])
      else (200, obj [(''status'', JString ''ready''), (''bind'', JString (bind_addr (app_config st))),
                      (''version'', JString ''0.2.0''),
                      (''validation_mode'', JString (validation_mode (app_config st))),
                      (''profile'', JString (active_profile (app_config st))),
                      (''contract_path'', opt_json (contract_path (app_config st)))]))"

definition ensure_enabled_sources_have_handlers :: "config \<Rightarrow> unit result" where
  "ensure_enabled_sources_have_handlers c =
     (let unsupported = filter (\<lambda>source. \<not> has_handler source) (enabled_sources c)
      in if unsupported = [] then Inr ()
         else Inl (''enabled sources without handlers: '' @ join '', '' unsupported
                   @ '' (built-in handlers: '' @ join '', '' known_source_names @ '')''))"

definition ip_refill_period_ms :: "u32 \<Rightarrow> u64" where
  "ip_refill_period_ms limit =
     (if limit = 0 then 1
      else max (60000 div ucast limit) 1)"

text \<open>The start-up up to the shared state; the listener, the governor and the tasks follow it.
  \<open>mpsc::channel(0)\<close> panics, which is the last error here.\<close>

definition startup ::
  "config_crates \<Rightarrow> (client_config \<Rightarrow> bool) \<Rightarrow> (string list \<Rightarrow> i32 \<Rightarrow> i32 \<Rightarrow> topic_answers option) \<Rightarrow>
   (client_config \<Rightarrow> bool) \<Rightarrow> env \<Rightarrow> (app_state \<times> kafka_publisher \<times> ingress_runtime_selection) result" where
  "startup cc create_client create_topics create_producer e =
     and_then (with_context ''load relay config'' (from_env cc e)) (\<lambda>c.
     and_then (with_context ''resolve ingress adapters'' (resolve_ingress_runtime e c)) (\<lambda>sel.
     and_then (with_context ''validate enabled sources'' (ensure_enabled_sources_have_handlers c)) (\<lambda>_.
     and_then (with_context ''ensure kafka topics'' (ensure_required_topics create_client create_topics c)) (\<lambda>_.
     and_then (with_context ''initialize kafka producer'' (publisher_from_config create_producer c)) (\<lambda>publisher.
     and_then (ensure (publish_queue_capacity c \<noteq> 0) ''panic: channel capacity 0'') (\<lambda>_.
       Inr (\<lparr>app_config = c, publish_queue = [],
             app_rate_limiter = new_source_rate_limiter (source_limit_per_minute c),
             app_idempotency = new_idempotency_store (cfg_dedup_ttl_seconds c) (cfg_cooldown_seconds c),
             publish_worker_alive = True,
             http_ingress_adapter_id = sel_http_adapter_id sel,
             http_ingress_plugins = sel_http_plugins sel,
             websocket_ingress = sel_websocket sel,
             mcp_ingress = sel_mcp sel\<rparr>, publisher, sel)))))))"

subsection \<open>Tokens: what is accepted\<close>

text \<open>The token a request presents: the bearer token, else the adapter header, else nothing.\<close>

definition presented_token :: "headers \<Rightarrow> string" where
  "presented_token hs = unwrap_or [] (or_else (extract_bearer_token hs) (main_header_value hs ''x-adapter-token''))"

lemma extract_bearer_trimmed: "extract_bearer_token hs = Some t \<Longrightarrow> trimmed t \<and> t \<noteq> []"
  by (auto simp: extract_bearer_token_def Let_def split: bind_splits if_splits)

lemma main_header_trimmed: "main_header_value hs n = Some t \<Longrightarrow> trimmed t \<and> t \<noteq> []"
  by (auto simp: main_header_value_def opt_filter_def split: option.splits if_splits)

lemma presented_trimmed: "trimmed (presented_token hs)"
  using extract_bearer_trimmed [of hs] main_header_trimmed [of hs "''x-adapter-token''"]
  by (auto simp: presented_token_def or_else_def unwrap_or_def trimmed_def split: option.splits)

lemma resolve_auth_token_Some:
  "resolve_auth_token e mode token_env aid = Inr (Some t) \<Longrightarrow>
     \<not> blank t \<and> (\<exists>n. token_env = Some n \<and> e n = Some t)
     \<and> to_ascii_lowercase (trim mode) \<in> {''bearer'', ''hmac''}"
  by (auto simp: resolve_auth_token_def Let_def result_iffs split: if_splits)

lemma authorize_iff:
  "resolve_auth_token e mode token_env aid = Inr tok \<Longrightarrow>
     authorize_adapter_request hs mode tok \<longleftrightarrow> tok = None \<or> tok = Some (presented_token hs)"
  by (auto simp: resolve_auth_token_def authorize_adapter_request_def presented_token_def Let_def result_iffs
      split: if_splits)

subsection \<open>The shared path into the queue\<close>

lemma enqueue_frame:
  "frame st (snd (enqueue_prevalidated_event cr ch now st source payload et aid plugins))"
  by (auto simp: enqueue_prevalidated_event_def Let_def offer_def
      split: option.splits sum.splits prod.splits try_send_result.splits)

text \<open>The job an event with resolved type, payload and flags becomes.\<close>

definition prevalidated_job ::
  "moment \<Rightarrow> config \<Rightarrow> string \<Rightarrow> string option \<Rightarrow> string \<Rightarrow> json \<Rightarrow> string list \<Rightarrow> publish_job" where
  "prevalidated_job now c source aid t p fl =
     \<lparr>job_topic = route_topic c source t,
      job_envelope = build_envelope (event_uuid now) (now_rfc3339 now) source t p
        (build_event_meta (Some (trace_uuid now)) aid (map_option route_id (resolve_serve_route c source t)) fl)\<rparr>"

lemma ev_id_build [simp]: "ev_id (build_envelope u now source t p m) = u"
  by (simp add: build_envelope_def)

lemma enqueue_cases:
  assumes "enqueue_prevalidated_event cr ch now st source payload et aid plugins = (r, st')"
  shows "(isl r \<and> st' = st) \<or>
    (\<exists>n t p fl. normalize_source source = Some n \<and> is_source_enabled (app_config st) n \<and>
       sanitize_payload cr n payload = Inr p \<and>
       try_send ch (publish_queue st) (prevalidated_job now (app_config st) n aid t p fl) = SendOk \<and>
       st' = st\<lparr>publish_queue := publish_queue st @ [prevalidated_job now (app_config st) n aid t p fl]\<rparr> \<and>
       r = Inr \<lparr>acc_event_id = event_uuid now, acc_topic = route_topic (app_config st) n t, acc_event_type = t\<rparr>)"
proof (cases "normalize_source source")
  case None
  with assms show ?thesis by (auto simp: enqueue_prevalidated_event_def)
next
  case (Some n)
  show ?thesis
  proof (cases "is_source_enabled (app_config st) n")
    case False
    with Some assms show ?thesis by (auto simp: enqueue_prevalidated_event_def)
  next
    case True
    let ?m = "and_then (prevalidated_event_type n payload et) (\<lambda>event_type.
        and_then (case sanitize_payload cr n payload of
            Inl err \<Rightarrow> Inl (''payload sanitizer rejected request: '' @ err) | Inr p \<Rightarrow> Inr p)
          (\<lambda>sanitized_payload. apply_serve_plugins cr plugins event_type sanitized_payload))"
    show ?thesis
    proof (cases ?m)
      case (Inl e)
      with Some True assms show ?thesis by (auto simp: enqueue_prevalidated_event_def)
    next
      case (Inr out)
      obtain t q fl where out: "out = (t, q, fl)" using prod_cases3 by blast
      from Inr out obtain p where p: "sanitize_payload cr n payload = Inr p" "q = p"
        by (auto simp: and_then_Inr_iff split: sum.splits dest: apply_serve_plugins_payload)
      have topic: "unwrap_or (config_source_topic_name (app_config st) n)
          (map_option target_topic (resolve_serve_route (app_config st) n t)) = route_topic (app_config st) n t"
        by (simp add: route_topic_def split: option.splits)
      show ?thesis
        using assms Some True Inr out p
        unfolding enqueue_prevalidated_event_def
        by (cases "try_send ch (publish_queue st) (prevalidated_job now (app_config st) n aid t p fl)")
           (auto simp: Let_def topic prevalidated_job_def offer_def)
    qed
  qed
qed

lemma enqueue_unmatched:
  assumes "normalize_source source = Some n" "is_source_enabled (app_config st) n" "trim et \<noteq> []"
    "sanitize_payload cr n payload = Inr p" "apply_serve_plugins cr plugins (trim et) p = Inr (t, p, fl)"
    "try_send ch (publish_queue st) (prevalidated_job now (app_config st) n aid t p fl) = SendOk"
  shows "publish_queue (snd (enqueue_prevalidated_event cr ch now st source payload (Some et) aid plugins)) =
     publish_queue st @ [prevalidated_job now (app_config st) n aid t p fl]"
proof -
  have "unwrap_or (config_source_topic_name (app_config st) n)
      (map_option target_topic (resolve_serve_route (app_config st) n t)) = route_topic (app_config st) n t"
    by (simp add: route_topic_def split: option.splits)
  with assms show ?thesis
    by (simp add: enqueue_prevalidated_event_def prevalidated_event_type_def Let_def prevalidated_job_def offer_def)
qed

text \<open>Every selected adapter is one of the configuration, with the token its \<open>token_env\<close> names.\<close>

definition mcp_resolved :: "env \<Rightarrow> ingress_adapter list \<Rightarrow> mcp_ingress_runtime \<Rightarrow> bool" where
  "mcp_resolved e adapters m \<longleftrightarrow>
     (\<exists>driver bind token_env.
        McpIngestExposed (mir_id m) (mir_tool_name m) driver bind (mir_auth_mode m) token_env (mir_max_payload_bytes m)
          (mir_path m) (mir_plugins m) \<in> set adapters
        \<and> resolve_auth_token e (mir_auth_mode m) token_env (mir_id m) = Inr (mir_auth_token m))"

definition websocket_resolved :: "env \<Rightarrow> ingress_adapter list \<Rightarrow> websocket_ingress_runtime \<Rightarrow> bool" where
  "websocket_resolved e adapters w \<longleftrightarrow>
     (\<exists>token_env. WebsocketIngress (wir_id w) (wir_path_template w) (wir_auth_mode w) token_env (wir_plugins w) \<in> set adapters
        \<and> resolve_auth_token e (wir_auth_mode w) token_env (wir_id w) = Inr (wir_auth_token w))"

definition tokens_resolved :: "env \<Rightarrow> ingress_adapter list \<Rightarrow> ingress_runtime_selection \<Rightarrow> bool" where
  "tokens_resolved e adapters sel \<longleftrightarrow>
     (\<forall>m. sel_mcp sel = Some m \<longrightarrow> mcp_resolved e adapters m) \<and>
     (\<forall>w. sel_websocket sel = Some w \<longrightarrow> websocket_resolved e adapters w)"

lemma select_adapter_tokens:
  "select_adapter e c a sel = Inr sel' \<Longrightarrow> a \<in> set adapters \<Longrightarrow> tokens_resolved e adapters sel \<Longrightarrow>
     tokens_resolved e adapters sel'"
  by (cases a)
     (auto simp: select_adapter_def tokens_resolved_def mcp_resolved_def websocket_resolved_def result_iffs, blast+)

lemma select_adapters_tokens:
  "select_adapters e c as sel = Inr sel' \<Longrightarrow> set as \<subseteq> set adapters \<Longrightarrow> tokens_resolved e adapters sel \<Longrightarrow>
     tokens_resolved e adapters sel'"
  by (induction e c as sel rule: select_adapters.induct)
     (auto simp: and_then_Inr_iff dest: select_adapter_tokens)

lemma resolve_ingress_tokens: "resolve_ingress_runtime e c = Inr sel \<Longrightarrow> tokens_resolved e (ingress_adapters c) sel"
  unfolding resolve_ingress_runtime_def
  by (erule select_adapters_tokens) (simp_all add: tokens_resolved_def)

subsection \<open>Properties\<close>

text \<open>C28. The MCP ingress is guarded: if a request makes the queue grow, then the adapter is an MCP adapter of
  the configuration, the payload is within that adapter's size limit, and either the adapter is
  configured without authentication, or the request presents exactly the value of the environment
  variable its \<open>token_env\<close> names, which is not blank.\<close>

theorem mcp_ingress_guarded:
  assumes start: "resolve_ingress_runtime e (app_config st) = Inr sel" "mcp_ingress st = sel_mcp sel"
    and grown: "publish_queue (snd (mcp_ingest_handler cr ch now st hs req)) \<noteq> publish_queue st"
  shows "\<exists>m driver bind token_env. mcp_ingress st = Some m
      \<and> McpIngestExposed (mir_id m) (mir_tool_name m) driver bind (mir_auth_mode m) token_env (mir_max_payload_bytes m)
          (mir_path m) (mir_plugins m) \<in> set (ingress_adapters (app_config st))
      \<and> length (json_to_string cr (req_payload req)) \<le> unat (mir_max_payload_bytes m)
      \<and> (to_ascii_lowercase (trim (mir_auth_mode m)) = ''none''
         \<or> (\<exists>name. token_env = Some name \<and> e name = Some (presented_token hs) \<and> \<not> blank (presented_token hs)))"
proof -
  obtain m where m: "mcp_ingress st = Some m"
    using grown by (cases "mcp_ingress st") (auto simp: mcp_ingest_handler_def)
  have auth: "authorize_adapter_request hs (mir_auth_mode m) (mir_auth_token m)"
    and size: "length (json_to_string cr (req_payload req)) \<le> unat (mir_max_payload_bytes m)"
    using grown m by (auto simp: mcp_ingest_handler_def not_less split: if_splits)
  have "mcp_resolved e (ingress_adapters (app_config st)) m"
    using resolve_ingress_tokens [OF start(1)] start(2) m unfolding tokens_resolved_def by metis
  then obtain driver bind tenv where
    conf: "McpIngestExposed (mir_id m) (mir_tool_name m) driver bind (mir_auth_mode m) tenv (mir_max_payload_bytes m)
      (mir_path m) (mir_plugins m) \<in> set (ingress_adapters (app_config st))"
    and t: "resolve_auth_token e (mir_auth_mode m) tenv (mir_id m) = Inr (mir_auth_token m)"
    unfolding mcp_resolved_def by blast
  have "to_ascii_lowercase (trim (mir_auth_mode m)) = ''none''
     \<or> (\<exists>name. tenv = Some name \<and> e name = Some (presented_token hs) \<and> \<not> blank (presented_token hs))"
  proof (cases "mir_auth_token m")
    case None
    with t show ?thesis by (auto simp: resolve_auth_token_def Let_def result_iffs split: if_splits)
  next
    case (Some tok)
    with authorize_iff [OF t, of hs] auth have "tok = presented_token hs" by simp
    with resolve_auth_token_Some t Some show ?thesis by metis
  qed
  with m conf size show ?thesis by blast
qed

definition demo_mcp :: mcp_ingress_runtime where
  "demo_mcp = \<lparr>mir_id = ''mcp'', mir_tool_name = ''ingest'', mir_path = ''/mcp'', mir_auth_mode = ''bearer'',
     mir_auth_token = Some ''s3cret'', mir_max_payload_bytes = 1024, mir_plugins = []\<rparr>"

definition demo_mcp_env :: env where
  "demo_mcp_env = map_of [(''MCP_TOKEN'', ''s3cret'')]"

definition demo_mcp_state :: app_state where
  "demo_mcp_state = demo_state\<lparr>app_config := demo_config\<lparr>ingress_adapters :=
       [McpIngestExposed ''mcp'' ''ingest'' ''http_sse'' ''0.0.0.0:8080'' ''bearer'' (Some ''MCP_TOKEN'') 1024 ''/mcp'' []]\<rparr>,
     mcp_ingress := Some demo_mcp\<rparr>"

definition demo_mcp_headers :: headers where
  "demo_mcp_headers = map_of [(''authorization'', ''Bearer s3cret'')]"

lemma demo_mcp_selected:
  "\<exists>sel. resolve_ingress_runtime demo_mcp_env (app_config demo_mcp_state) = Inr sel
     \<and> mcp_ingress demo_mcp_state = sel_mcp sel"
proof -
  have "resolve_auth_token demo_mcp_env ''bearer'' (Some ''MCP_TOKEN'') ''mcp'' = Inr (Some ''s3cret'')" by code_simp
  then show ?thesis
    by (simp add: resolve_ingress_runtime_def demo_mcp_state_def select_adapter_def demo_mcp_def)
qed

lemma demo_mcp_grows:
  "publish_queue (snd (mcp_ingest_handler demo_webhook_crates (bounded_channel 1) (demo_moment 1700000000)
     demo_mcp_state demo_mcp_headers \<lparr>req_source = ''github'', req_payload = demo_body_json, req_event_type = Some ''ping''\<rparr>))
   \<noteq> publish_queue demo_mcp_state"
proof -
  have n: "normalize_source ''github'' = Some ''github''" "trim ''ping'' = ''ping''"
    "authorize_adapter_request demo_mcp_headers ''bearer'' (Some ''s3cret'')"
    "is_source_enabled demo_config ''github''"
    "sanitize_payload demo_webhook_crates ''github'' demo_body_json =
      Inr (JObject [(''_sanitized'', JBool True), (''action'', JString ''opened'')])"
    "length (json_to_string demo_webhook_crates demo_body_json) \<le> 1024"
    by code_simp+
  let ?st = demo_mcp_state
  have "publish_queue (snd (enqueue_prevalidated_event demo_webhook_crates (bounded_channel 1) (demo_moment 1700000000)
      ?st ''github'' demo_body_json (Some ''ping'') (Some ''mcp'') [])) \<noteq> publish_queue ?st"
    using enqueue_unmatched [of "''github''" "''github''" ?st "''ping''" demo_webhook_crates demo_body_json _ "[]"
        "''ping''" "[]" "bounded_channel 1" "demo_moment 1700000000" "Some ''mcp''"] n
    by (simp add: apply_serve_plugins_def demo_mcp_state_def demo_state_def is_source_enabled_def bounded_channel_def)
  with n show ?thesis
    by (auto simp: mcp_ingest_handler_def demo_mcp_state_def demo_mcp_def split: prod.splits sum.splits)
qed

theorem mcp_ingress_guarded_witness:
  "demo_mcp_env ''MCP_TOKEN'' = Some (presented_token demo_mcp_headers) \<and> \<not> blank (presented_token demo_mcp_headers)"
proof -
  obtain sel where sel: "resolve_ingress_runtime demo_mcp_env (app_config demo_mcp_state) = Inr sel"
    "mcp_ingress demo_mcp_state = sel_mcp sel" using demo_mcp_selected by blast
  from mcp_ingress_guarded [OF sel demo_mcp_grows]
  obtain m driver bind token_env where m: "mcp_ingress demo_mcp_state = Some m"
    "McpIngestExposed (mir_id m) (mir_tool_name m) driver bind (mir_auth_mode m) token_env (mir_max_payload_bytes m)
        (mir_path m) (mir_plugins m) \<in> set (ingress_adapters (app_config demo_mcp_state))"
    "to_ascii_lowercase (trim (mir_auth_mode m)) = ''none''
      \<or> (\<exists>name. token_env = Some name \<and> demo_mcp_env name = Some (presented_token demo_mcp_headers)
            \<and> \<not> blank (presented_token demo_mcp_headers))"
    by blast
  moreover have "to_ascii_lowercase (trim (mir_auth_mode demo_mcp)) \<noteq> ''none''" by code_simp
  ultimately show ?thesis by (auto simp: demo_mcp_state_def)
qed

text \<open>A token with white space at its ends locks the adapter: it passes the start-up check, which
  only asks for a non-blank value, but presented tokens are trimmed, so no request whatever is
  authorized with it.\<close>

theorem padded_token_never_authorizes:
  assumes "resolve_auth_token e mode (Some name) aid = Inr tok" "e name = Some t"
    "to_ascii_lowercase (trim mode) \<in> {''bearer'', ''hmac''}" "trim t \<noteq> t"
  shows "tok = Some t \<and> \<not> authorize_adapter_request hs mode tok"
proof -
  have "tok = Some t"
    using assms by (auto simp: resolve_auth_token_def Let_def result_iffs split: if_splits)
  moreover have "t \<noteq> presented_token hs"
    using presented_trimmed [of hs] assms(4) by (auto simp: trimmed_def)
  ultimately show ?thesis using authorize_iff [OF assms(1), of hs] by simp
qed

theorem padded_token_never_authorizes_witness:
  "\<not> authorize_adapter_request (map_of [(''authorization'', ''Bearer abc'')]) ''bearer'' (Some '' abc'')"
proof -
  have "resolve_auth_token (\<lambda>_. Some '' abc'') ''bearer'' (Some ''T'') ''mcp'' = Inr (Some '' abc'')"
    "to_ascii_lowercase (trim ''bearer'') \<in> {''bearer'', ''hmac''}" "trim '' abc'' \<noteq> '' abc''" by code_simp+
  from padded_token_never_authorizes [OF this(1) refl this(2,3)] show ?thesis by blast
qed

text \<open>The ingress adapters and the webhook disagree on unrouted events: with routes configured and
  none matching, the webhook answers 400 and queues nothing, while the same event through the MCP,
  websocket or Kafka ingress is queued for the topic of its source.\<close>

theorem adapters_bypass_routes:
  assumes routes: "serve_routes (app_config st) \<noteq> []" "resolve_serve_route (app_config st) n t = None"
    and src: "normalize_source source = Some n" "is_source_enabled (app_config st) n" "trim et \<noteq> []"
    and ok: "sanitize_payload cr n payload = Inr p" "apply_serve_plugins cr plugins (trim et) p = Inr (t, p, fl)"
      "\<And>job. try_send ch (publish_queue st) job = SendOk"
    and h: "sh_source_name h = n"
  shows "webhook_publish ch now st h t p fl = (error_response 400 ''no matching serve route'', st)
     \<and> (\<exists>job. publish_queue (snd (enqueue_prevalidated_event cr ch now st source payload (Some et) aid plugins)) =
              publish_queue st @ [job] \<and> job_topic job = config_source_topic_name (app_config st) n)"
proof
  show "webhook_publish ch now st h t p fl = (error_response 400 ''no matching serve route'', st)"
    using routes h by (simp add: webhook_publish_def Let_def)
  have "publish_queue (snd (enqueue_prevalidated_event cr ch now st source payload (Some et) aid plugins)) =
      publish_queue st @ [prevalidated_job now (app_config st) n aid t p fl]"
    using src ok by (intro enqueue_unmatched)
  moreover have "job_topic (prevalidated_job now (app_config st) n aid t p fl) = config_source_topic_name (app_config st) n"
    using routes by (simp add: prevalidated_job_def route_topic_def)
  ultimately show "\<exists>job. publish_queue (snd (enqueue_prevalidated_event cr ch now st source payload (Some et) aid plugins)) =
      publish_queue st @ [job] \<and> job_topic job = config_source_topic_name (app_config st) n" by blast
qed

definition demo_routed_state :: app_state where
  "demo_routed_state = demo_state\<lparr>app_config := demo_config\<lparr>serve_routes :=
     [\<lparr>route_id = ''r1'', source_match = ''linear'', event_type_pattern = ''*'', target_topic = ''core''\<rparr>]\<rparr>\<rparr>"

theorem adapters_bypass_routes_witness:
  "\<exists>job. publish_queue (snd (enqueue_prevalidated_event demo_webhook_crates (bounded_channel 1) (demo_moment 1700000000)
      demo_routed_state ''github'' demo_body_json (Some ''ping'') (Some ''mcp'') [])) = [job]
     \<and> job_topic job = ''webhooks.github''"
proof -
  let ?c = "demo_config\<lparr>serve_routes :=
      [\<lparr>route_id = ''r1'', source_match = ''linear'', event_type_pattern = ''*'', target_topic = ''core''\<rparr>]\<rparr>"
  have n: "normalize_source ''github'' = Some ''github''" "trim ''ping'' = ''ping''"
    "is_source_enabled ?c ''github''"
    "sanitize_payload demo_webhook_crates ''github'' demo_body_json =
      Inr (JObject [(''_sanitized'', JBool True), (''action'', JString ''opened'')])"
    "config_source_topic_name ?c ''github'' = ''webhooks.github''"
    "\<not> wildcard_matches ''linear'' ''github''"
    by code_simp+
  have st: "app_config demo_routed_state = ?c" "publish_queue demo_routed_state = []"
    by (simp_all add: demo_routed_state_def demo_state_def)
  have room: "try_send (bounded_channel 1) (publish_queue demo_routed_state) job = SendOk" for job
    by (simp add: st bounded_channel_def)
  have "resolve_serve_route (app_config demo_routed_state) ''github'' ''ping'' = None"
    unfolding st using n(6) by (simp add: resolve_serve_route_def)
  from adapters_bypass_routes [OF _ this n(1) _ _ n(4) _ room handler_names(1), of "''ping''" "[]" "[]"
      "demo_moment 1700000000" "Some ''mcp''"] n
  show ?thesis by (simp add: st apply_serve_plugins_def)
qed

definition demo_startup :: "app_state \<times> kafka_publisher \<times> ingress_runtime_selection" where
  "demo_startup = projr (startup demo_config_crates (\<lambda>_. True) (\<lambda>_ _ _. Some []) (\<lambda>_. True) demo_env)"

lemma demo_startup_runs:
  "startup demo_config_crates (\<lambda>_. True) (\<lambda>_ _ _. Some []) (\<lambda>_. True) demo_env = Inr demo_startup"
proof -
  have "resolve_ingress_runtime demo_env demo_config = Inr
      \<lparr>sel_http_path = ''/webhook/{source}'', sel_http_adapter_id = None, sel_http_plugins = [],
       sel_websocket = None, sel_mcp = None, sel_kafka = []\<rparr>" by code_simp
  moreover have "ensure_enabled_sources_have_handlers demo_config = Inr ()"
  proof -
    have "enabled_sources demo_config = [''github'', ''linear'']" by code_simp
    then show ?thesis by (simp add: ensure_enabled_sources_have_handlers_def has_handler_def)
  qed
  moreover have "ensure_required_topics (\<lambda>_. True) (\<lambda>_ _ _. Some []) demo_config = Inr ()"
    by (simp add: ensure_required_topics_def)
  moreover have "publish_queue_capacity demo_config = 4096" by code_simp
  ultimately have "\<exists>s. startup demo_config_crates (\<lambda>_. True) (\<lambda>_ _ _. Some []) (\<lambda>_. True) demo_env = Inr s"
    by (simp add: startup_def demo_config_loaded publisher_from_config_def)
  then show ?thesis unfolding demo_startup_def by auto
qed

text \<open>A receiver that starts has a well-formed configuration, a handler for every enabled
  source, an empty queue, fresh limits taken from the configuration, and, where an adapter demands
  authentication, its non-blank token.\<close>

theorem startup_sound:
  assumes "startup cc create_client create_topics create_producer e = Inr (st, publisher, sel)"
  shows "config_wf (app_config st)
     \<and> (\<forall>s \<in> set (enabled_sources (app_config st)). \<exists>h. handler_for_source s = Some h \<and> sh_source_name h = s
          \<and> secret_present (handler_secret (app_config st) h))
     \<and> publish_queue st = [] \<and> publish_worker_alive st \<and> 0 < unat (publish_queue_capacity (app_config st))
     \<and> app_idempotency st = new_idempotency_store (cfg_dedup_ttl_seconds (app_config st)) (cfg_cooldown_seconds (app_config st))
     \<and> 0 < sint (dedup_ttl_seconds (app_idempotency st))
     \<and> tokens_resolved e (ingress_adapters (app_config st)) sel \<and> mcp_ingress st = sel_mcp sel \<and> websocket_ingress st = sel_websocket sel"
proof -
  obtain c where c: "from_env cc e = Inr c" "resolve_ingress_runtime e c = Inr sel"
      "ensure_enabled_sources_have_handlers c = Inr ()" and st: "app_config st = c" "publish_queue st = []"
      "publish_worker_alive st" "publish_queue_capacity c \<noteq> 0" "mcp_ingress st = sel_mcp sel" "websocket_ingress st = sel_websocket sel"
      "app_idempotency st = new_idempotency_store (cfg_dedup_ttl_seconds c) (cfg_cooldown_seconds c)"
    using assms by (auto simp: startup_def result_iffs)
  have wf: "config_wf c" by (rule from_env_wf [OF c(1)])
  have "\<exists>h. handler_for_source s = Some h \<and> sh_source_name h = s \<and> secret_present (handler_secret c h)"
    if s: "s \<in> set (enabled_sources c)" for s
  proof -
    have src: "source_wf c s" using wf s by (simp add: config_wf_def)
    obtain h where h: "handler_for_source s = Some h"
      using c(3) s by (auto simp: ensure_enabled_sources_have_handlers_def Let_def filter_empty_conv
          has_handler_def split: if_splits)
    have "sh_source_name h = s"
      using handler_for_source_name [OF h] src by (auto simp: normalize_source_def source_wf_def Let_def split: if_splits)
    with h src show ?thesis
      by (auto simp: source_wf_def handler_secret_def elim: handler_for_source_cases)
  qed
  with wf st c resolve_ingress_tokens [OF c(2)] show ?thesis
    by (auto simp: new_idempotency_store_def config_wf_def limits_wf_def unat_gt_0)
qed

theorem startup_sound_witness: "config_wf (app_config (fst demo_startup))"
proof -
  obtain st p sel where d: "demo_startup = (st, p, sel)" using prod_cases3 by blast
  show ?thesis unfolding d fst_conv using startup_sound [OF demo_startup_runs [unfolded d]] by blast
qed

text \<open>The token bucket per client address refills one request every \<open>60000 / limit\<close>
  milliseconds, rounded down and at least one: never slower than the configured rate, and never
  zero, whatever the limit.\<close>

theorem ip_refill_exact:
  "unat (ip_refill_period_ms limit) = max (60000 div unat limit) 1"
proof (cases "limit = 0")
  case False
  have "unat limit < 2 ^ LENGTH(32)" by (rule unsigned_less)
  then have "unat (ucast limit :: u64) = unat limit"
    by (simp add: unsigned_ucast_eq take_bit_nat_eq_self)
  then have "unat (60000 div ucast limit :: u64) = 60000 div unat limit"
    by (simp add: unat_div_distrib)
  then show ?thesis using False
    by (simp add: ip_refill_period_ms_def max_def word_le_nat_alt)
qed (simp add: ip_refill_period_ms_def)

end
