(* ===== verification/Serve_Machine.thy ===== *)
theory Serve_Machine
  imports Ingress
begin

section \<open>The receiver as a state machine\<close>

text \<open>
  The receiver serves requests of all its ingress paths while the publish worker drains the
  channel. One step is one request, one websocket session, one message of a Kafka ingress, or the
  worker taking the oldest job (or ending); the interleaving is arbitrary. Invariants hold in every
  state reachable from a start-up, by rule induction.
\<close>

inductive serve_step :: "crates \<Rightarrow> ingress_crates \<Rightarrow> channel \<Rightarrow> app_state \<Rightarrow> app_state \<Rightarrow> bool"
  for cr ic ch where
  step_webhook: "serve_step cr ic ch st (snd (webhook_handler cr ch now st path hs body))"
| step_mcp: "serve_step cr ic ch st (snd (mcp_ingest_handler cr ch now st hs req))"
| step_websocket: "serve_step cr ic ch st (snd (websocket_ingress_handler cr ic ch st path hs frames))"
| step_kafka: "serve_step cr ic ch st (snd (kafka_ingress_turn cr ic ch now st adapter received))"
| step_take: "publish_queue st = job # rest \<Longrightarrow> serve_step cr ic ch st (st\<lparr>publish_queue := rest\<rparr>)"
| step_worker_end: "serve_step cr ic ch st (st\<lparr>publish_worker_alive := False\<rparr>)"

inductive_cases serve_stepE: "serve_step cr ic ch st st'"

definition serve_reachable :: "crates \<Rightarrow> ingress_crates \<Rightarrow> channel \<Rightarrow> app_state \<Rightarrow> app_state \<Rightarrow> bool" where
  "serve_reachable cr ic ch = (serve_step cr ic ch)\<^sup>*\<^sup>*"

text \<open>What tokio's bounded channel guarantees: it accepts a job only with a free slot.\<close>

definition channel_ok :: "nat \<Rightarrow> channel \<Rightarrow> bool" where
  "channel_ok capacity ch \<longleftrightarrow> (\<forall>q job. try_send ch q job = SendOk \<longrightarrow> length q < capacity)"

text \<open>A job fit for Kafka: its source is enabled, its topic is the one routing gives, its payload
  went through the sanitiser.\<close>

definition job_ok :: "config \<Rightarrow> publish_job \<Rightarrow> bool" where
  "job_ok c job \<longleftrightarrow>
     is_source_enabled c (ev_source (job_envelope job)) \<and>
     job_topic job = route_topic c (ev_source (job_envelope job)) (ev_type (job_envelope job)) \<and>
     json_get ''_sanitized'' (ev_payload (job_envelope job)) = Some (JBool True)"

definition serve_inv :: "nat \<Rightarrow> config \<Rightarrow> app_state \<Rightarrow> bool" where
  "serve_inv capacity c st \<longleftrightarrow>
     app_config st = c \<and> length (publish_queue st) \<le> capacity \<and> (\<forall>job \<in> set (publish_queue st). job_ok c job)"

subsection \<open>Every step keeps the invariant\<close>

lemma sanitized_marked: "sanitize_payload cr n pl = Inr p \<Longrightarrow> json_get ''_sanitized'' p = Some (JBool True)"
  by (auto simp: sanitize_payload_def Let_def map_of_btree_insert split: json.splits if_splits)

text \<open>The one way all ingress paths change the queue: append an acceptable job.\<close>

definition queue_step :: "channel \<Rightarrow> app_state \<Rightarrow> app_state \<Rightarrow> bool" where
  "queue_step ch st st' \<longleftrightarrow>
     frame st st' \<and>
     (publish_queue st' = publish_queue st \<or>
      (\<exists>job. try_send ch (publish_queue st) job = SendOk \<and> job_ok (app_config st) job \<and>
             publish_queue st' = publish_queue st @ [job]))"

lemma queue_step_inv:
  "queue_step ch st st' \<Longrightarrow> channel_ok capacity ch \<Longrightarrow> serve_inv capacity c st \<Longrightarrow> serve_inv capacity c st'"
  by (auto simp: queue_step_def serve_inv_def channel_ok_def frame_def)

lemma webhook_queue_step: "queue_step ch st (snd (webhook_handler cr ch now st path hs body))"
proof -
  have "job_ok (app_config st) (admitted_job now st a)" if "admitted cr now st path hs body a" for a
    using that by (auto simp: job_ok_def admitted_def admitted_job_def Let_def build_envelope_def dest: sanitized_marked)
  then show ?thesis
    using webhook_handler_outcome [of ch now st cr path hs body] webhook_handler_frame [of st cr ch now path hs body]
    by (auto simp: queue_step_def outcome_def)
qed

lemma enqueue_queue_step:
  "queue_step ch st (snd (enqueue_prevalidated_event cr ch now st source payload et aid plugins))"
proof -
  obtain r st' where e: "enqueue_prevalidated_event cr ch now st source payload et aid plugins = (r, st')" by force
  have "job_ok (app_config st) (prevalidated_job now (app_config st) n aid t p fl)"
    if "is_source_enabled (app_config st) n" "sanitize_payload cr n payload = Inr p" for n t p fl
    using that by (auto simp: job_ok_def prevalidated_job_def build_envelope_def dest: sanitized_marked)
  then show ?thesis
    using enqueue_cases [OF e] enqueue_frame [of st cr ch now source payload et aid plugins]
    by (auto simp: queue_step_def e)
qed

lemma queue_step_refl: "queue_step ch st st"
  by (simp add: queue_step_def)

lemma mcp_queue_step: "queue_step ch st (snd (mcp_ingest_handler cr ch now st hs req))"
  using enqueue_queue_step [of ch st cr now] queue_step_refl
  by (auto simp: mcp_ingest_handler_def split: option.splits prod.splits sum.splits) (metis snd_conv)+

lemma ws_text_queue_step: "queue_step ch st (snd (ws_text_response cr ic ch now st source adapter text))"
  using enqueue_queue_step [of ch st cr now] queue_step_refl
  by (auto simp: ws_text_response_def split: prod.splits sum.splits) (metis snd_conv)+

lemma kafka_queue_step: "queue_step ch st (snd (kafka_ingress_turn cr ic ch now st adapter received))"
  using enqueue_queue_step [of ch st cr now] queue_step_refl
  by (auto simp: kafka_ingress_turn_def split: option.splits sum.splits)

lemma ws_session_inv:
  "channel_ok capacity ch \<Longrightarrow> serve_inv capacity c st \<Longrightarrow>
     serve_inv capacity c (snd (run_websocket_ingress_session cr ic ch st source adapter frames))"
proof (induction cr ic ch st source adapter frames rule: run_websocket_ingress_session.induct)
  case (2 cr ic ch st source adapter fr now sent frames)
  show ?case
  proof (cases fr)
    case (WsText raw)
    obtain ans st' where w: "ws_text_response cr ic ch now st source adapter raw = (ans, st')" by force
    have "serve_inv capacity c st'"
      using queue_step_inv [OF ws_text_queue_step [of ch st cr ic now source adapter raw] 2(3,4)] w by simp
    with 2(1) [OF WsText] w WsText 2(3) show ?thesis by (auto split: prod.splits)
  next
    case WsOther
    with 2 show ?thesis by simp
  qed (use 2 in simp_all)
qed simp

lemma websocket_inv:
  "channel_ok capacity ch \<Longrightarrow> serve_inv capacity c st \<Longrightarrow>
     serve_inv capacity c (snd (websocket_ingress_handler cr ic ch st path hs frames))"
  using ws_session_inv [of capacity ch c st cr ic path]
  by (auto simp: websocket_ingress_handler_def split: option.splits prod.splits) (metis snd_conv)

lemma serve_step_inv:
  assumes "serve_step cr ic ch st st'" "channel_ok capacity ch" "serve_inv capacity c st"
  shows "serve_inv capacity c st'"
  using assms
proof (cases rule: serve_step.cases)
  case step_webhook
  then show ?thesis using queue_step_inv [OF webhook_queue_step] assms by simp
next
  case step_mcp
  then show ?thesis using queue_step_inv [OF mcp_queue_step] assms by simp
next
  case step_websocket
  then show ?thesis using websocket_inv assms by simp
next
  case step_kafka
  then show ?thesis using queue_step_inv [OF kafka_queue_step] assms by simp
next
  case (step_take job rest)
  then show ?thesis using assms(3) by (auto simp: serve_inv_def)
next
  case step_worker_end
  then show ?thesis using assms(3) by (simp add: serve_inv_def)
qed

lemma serve_reachable_inv:
  assumes "serve_reachable cr ic ch st st'" "channel_ok capacity ch" "serve_inv capacity c st"
  shows "serve_inv capacity c st'"
  using assms(1) unfolding serve_reachable_def
  by (induction rule: rtranclp_induct) (use assms serve_step_inv in blast)+

lemma bounded_channel_ok: "channel_ok n (bounded_channel n)"
  by (simp add: channel_ok_def bounded_channel_def)

subsection \<open>Steps before a point in time\<close>

text \<open>The steps of the receiver while its clock has not passed \<open>t\<close>: any requests, sessions and messages
  and the worker, in any order, where no webhook is handled later than \<open>t\<close>.\<close>

inductive serve_until :: "crates \<Rightarrow> ingress_crates \<Rightarrow> channel \<Rightarrow> i64 \<Rightarrow> app_state \<Rightarrow> app_state \<Rightarrow> bool"
  for cr ic ch t st where
  until_now: "serve_until cr ic ch t st st"
| until_webhook: "serve_until cr ic ch t st st' \<Longrightarrow> le_i64 (now_epoch_seconds now) t \<Longrightarrow>
     serve_until cr ic ch t st (snd (webhook_handler cr ch now st' path hs body))"
| until_mcp: "serve_until cr ic ch t st st' \<Longrightarrow> serve_until cr ic ch t st (snd (mcp_ingest_handler cr ch now st' hs req))"
| until_websocket: "serve_until cr ic ch t st st' \<Longrightarrow>
     serve_until cr ic ch t st (snd (websocket_ingress_handler cr ic ch st' path hs frames))"
| until_kafka: "serve_until cr ic ch t st st' \<Longrightarrow>
     serve_until cr ic ch t st (snd (kafka_ingress_turn cr ic ch now st' adapter received))"
| until_take: "serve_until cr ic ch t st st' \<Longrightarrow> publish_queue st' = job # rest \<Longrightarrow>
     serve_until cr ic ch t st (st'\<lparr>publish_queue := rest\<rparr>)"
| until_worker_end: "serve_until cr ic ch t st st' \<Longrightarrow> serve_until cr ic ch t st (st'\<lparr>publish_worker_alive := False\<rparr>)"

lemma serve_until_reachable: "serve_until cr ic ch t st st' \<Longrightarrow> serve_reachable cr ic ch st st'"
  unfolding serve_reachable_def
  by (induction rule: serve_until.induct) (auto intro: rtranclp.rtrancl_into_rtrancl serve_step.intros)

text \<open>Only webhooks touch the store.\<close>

lemma enqueue_store:
  "app_idempotency (snd (enqueue_prevalidated_event cr ch now st source payload et aid plugins)) = app_idempotency st"
  by (auto simp: enqueue_prevalidated_event_def offer_def Let_def split: option.splits sum.splits prod.splits try_send_result.splits)

lemma mcp_store: "app_idempotency (snd (mcp_ingest_handler cr ch now st hs req)) = app_idempotency st"
  using enqueue_store [of cr ch now st]
  by (auto simp: mcp_ingest_handler_def split: option.splits prod.splits sum.splits) (metis snd_conv)+

lemma ws_text_store: "app_idempotency (snd (ws_text_response cr ic ch now st source adapter text)) = app_idempotency st"
  using enqueue_store [of cr ch now st]
  by (auto simp: ws_text_response_def split: prod.splits sum.splits) (metis snd_conv)+

lemma kafka_store: "app_idempotency (snd (kafka_ingress_turn cr ic ch now st adapter received)) = app_idempotency st"
  using enqueue_store [of cr ch now st] by (auto simp: kafka_ingress_turn_def split: option.splits sum.splits)

lemma ws_session_store:
  "app_idempotency (snd (run_websocket_ingress_session cr ic ch st source adapter frames)) = app_idempotency st"
proof (induction cr ic ch st source adapter frames rule: run_websocket_ingress_session.induct)
  case (2 cr ic ch st source adapter fr now sent frames)
  show ?case
  proof (cases fr)
    case (WsText raw)
    obtain ans st' where w: "ws_text_response cr ic ch now st source adapter raw = (ans, st')" by force
    with ws_text_store [of cr ic ch now st source adapter raw] 2(1) [OF WsText] WsText show ?thesis
      by (auto split: prod.splits)
  next
    case WsOther
    with 2 show ?thesis by simp
  qed (use 2 in simp_all)
qed simp

lemma websocket_store: "app_idempotency (snd (websocket_ingress_handler cr ic ch st path hs frames)) = app_idempotency st"
  using ws_session_store [of cr ic ch st path]
  by (auto simp: websocket_ingress_handler_def split: option.splits prod.splits) (metis snd_conv)

text \<open>A delivery key that is taken at \<open>t\<close> stays taken.\<close>

lemma serve_until_taken:
  "serve_until cr ic ch t st st' \<Longrightarrow> taken (dedup_expirations (app_idempotency st)) k t \<Longrightarrow> k \<noteq> [] \<Longrightarrow>
     taken (dedup_expirations (app_idempotency st')) k t"
  by (induction rule: serve_until.induct)
     (simp_all add: webhook_handler_taken mcp_store websocket_store kafka_store)

subsection \<open>Properties\<close>

text \<open>C4. In every state the receiver reaches from a start-up, under any interleaving of webhooks, MCP
  requests, websocket sessions, Kafka messages and the worker, the channel holds at most its
  capacity, the configuration is the loaded one, and every queued job has an enabled source, the
  topic its route or source gives it, and a payload marked as sanitised.\<close>

theorem receiver_invariant:
  assumes "startup cc create_client create_topics create_producer e = Inr (st0, publisher, sel)"
    and "channel_ok (unat (publish_queue_capacity (app_config st0))) ch"
    and "serve_reachable cr ic ch st0 st"
  shows "app_config st = app_config st0 \<and> config_wf (app_config st)
     \<and> length (publish_queue st) \<le> unat (publish_queue_capacity (app_config st))
     \<and> (\<forall>job \<in> set (publish_queue st). job_ok (app_config st) job)"
proof -
  obtain c where c: "from_env cc e = Inr c" "app_config st0 = c" "publish_queue st0 = []"
    using assms(1) by (auto simp: startup_def result_iffs)
  then have "serve_inv (unat (publish_queue_capacity c)) c st0" by (simp add: serve_inv_def)
  from serve_reachable_inv [OF assms(3) _ this] assms(2) c from_env_wf [OF c(1)] show ?thesis
    by (auto simp: serve_inv_def)
qed

definition demo_ingress_crates :: ingress_crates where
  "demo_ingress_crates = \<lparr>de_envelope = \<lambda>_. None, de_kafka_ingress = \<lambda>_. None, de_ws_frame = \<lambda>_. None\<rparr>"

theorem receiver_invariant_witness:
  "length (publish_queue (snd (webhook_handler demo_webhook_crates (bounded_channel 4096) (demo_moment 1700000000)
     (fst demo_startup) ''github'' demo_request ''{}''))) \<le> 4096"
proof -
  obtain st p sel where d: "demo_startup = (st, p, sel)" using prod_cases3 by blast
  have start: "startup demo_config_crates (\<lambda>_. True) (\<lambda>_ _ _. Some []) (\<lambda>_. True) demo_env = Inr (st, p, sel)"
    using demo_startup_runs d by simp
  then have c: "app_config st = demo_config"
    by (auto simp: startup_def result_iffs demo_config_loaded)
  have cap: "unat (publish_queue_capacity demo_config) = 4096" by code_simp
  let ?st = "snd (webhook_handler demo_webhook_crates (bounded_channel 4096) (demo_moment 1700000000) st
      ''github'' demo_request ''{}'')"
  have "serve_reachable demo_webhook_crates demo_ingress_crates (bounded_channel 4096) st ?st"
    unfolding serve_reachable_def by (rule r_into_rtranclp, rule step_webhook)
  from receiver_invariant [OF start _ this] show ?thesis
    unfolding d fst_conv using bounded_channel_ok [of 4096] c cap by auto
qed

text \<open>C15. Replays are answered without effect: once a delivery got past the store, every webhook that carries
  the same idempotency key before the time-to-live is over is answered \<open>{"reason":"duplicate"}\<close> and
  queues nothing, whatever the receiver did in between: any number of other webhooks (handled no later
  than the replay), requests and messages of the other paths, and steps of the worker.\<close>

theorem webhook_replay_suppressed:
  assumes "reaches_check cr now st path hs body h pl t key"
    and "fst (check (app_idempotency st) key (sh_cooldown_key h pl) (now_epoch_seconds now)) \<noteq> Duplicate"
    and "serve_until cr ic ch (now_epoch_seconds now') (snd (webhook_handler cr ch now st path hs body)) st'"
    and "reaches_check cr now' st' path' hs' body' h' pl' t' key"
    and "0 \<le> sint (now_epoch_seconds now)" "0 \<le> sint (dedup_ttl_seconds (app_idempotency st))"
      "sint (now_epoch_seconds now) + sint (dedup_ttl_seconds (app_idempotency st)) < 2 ^ 63"
      "sint (now_epoch_seconds now') < sint (now_epoch_seconds now) + sint (dedup_ttl_seconds (app_idempotency st))"
  shows "fst (webhook_handler cr ch' now' st' path' hs' body') = ignored_response ''duplicate''
       \<and> publish_queue (snd (webhook_handler cr ch' now' st' path' hs' body')) = publish_queue st'"
  by (rule taken_is_duplicate [OF assms(4)])
     (rule serve_until_taken [OF assms(3) first_is_taken [OF assms(1,2,5-8)] reaches_key_nonempty [OF assms(1)]])

text \<open>Between the delivery and its replay another delivery is accepted.\<close>

definition demo_other_request :: headers where
  "demo_other_request = demo_request(''x-github-delivery'' \<mapsto> ''d2'')"

definition demo_between :: app_state where
  "demo_between = snd (webhook_handler demo_webhook_crates (bounded_channel 9) (demo_moment 1700000003)
     (snd (webhook_handler demo_webhook_crates (bounded_channel 9) (demo_moment 1700000000) demo_state
        ''github'' demo_request ''{}'')) ''github'' demo_other_request ''{}'')"

lemma demo_between_reaches:
  "reaches_check demo_webhook_crates (demo_moment 1700000005) demo_between ''github'' demo_request ''{}''
     github_handler demo_body_json ''ping.opened'' ''github:d1:opened:unknown''"
proof (rule demo_reaches)
  let ?st1 = "snd (webhook_handler demo_webhook_crates (bounded_channel 9) (demo_moment 1700000000) demo_state
        ''github'' demo_request ''{}'')"
  have "frame demo_state demo_between"
    unfolding demo_between_def
    using webhook_handler_frame [of demo_state demo_webhook_crates "bounded_channel 9" "demo_moment 1700000000" "''github''" demo_request "''{}''"]
      webhook_handler_frame [of ?st1 demo_webhook_crates "bounded_channel 9" "demo_moment 1700000003" "''github''" demo_other_request "''{}''"]
    by (simp add: frame_def)
  then show "app_config demo_between = demo_config" by (simp add: frame_def demo_state_def)
  show "fst (allow (app_rate_limiter demo_between) ''github'' 1700000005)" by code_simp
qed

theorem webhook_replay_suppressed_witness:
  "length (publish_queue demo_between) = 2
     \<and> fst (webhook_handler demo_webhook_crates (bounded_channel 9) (demo_moment 1700000005) demo_between ''github''
         demo_request ''{}'') = ignored_response ''duplicate''"
proof -
  let ?st1 = "snd (webhook_handler demo_webhook_crates (bounded_channel 9) (demo_moment 1700000000) demo_state
        ''github'' demo_request ''{}'')"
  have "le_i64 (now_epoch_seconds (demo_moment 1700000003)) (now_epoch_seconds (demo_moment 1700000005))" by code_simp
  then have "serve_until demo_webhook_crates demo_ingress_crates (bounded_channel 9) (now_epoch_seconds (demo_moment 1700000005))
      ?st1 demo_between"
    unfolding demo_between_def by (intro until_webhook until_now)
  from webhook_replay_suppressed [OF demo_reaches_first demo_fresh this demo_between_reaches]
  have "fst (webhook_handler demo_webhook_crates (bounded_channel 9) (demo_moment 1700000005) demo_between ''github''
      demo_request ''{}'') = ignored_response ''duplicate''"
    by (simp add: demo_clock)
  moreover have "length (publish_queue demo_between) = 2" by code_simp
  ultimately show ?thesis by blast
qed

end
