(* ===== verification/Client_Ip.thy ===== *)
theory Client_Ip
  imports Sources
begin

section \<open>The client address\<close>

text \<open>
  \<open>src/client_ip.rs\<close>: the key of the per-address rate limiter. The address of the peer is used,
  unless the peer is a trusted proxy; then the headers name the client. The text of an address is
  read as \<open>IpAddr::from_str\<close> does it: four decimal bytes without leading zeros, or the groups of
  an IPv6 address with at most one \<open>::\<close> and perhaps an IPv4 tail. The membership of an address
  in a network is the library's and a parameter.
\<close>

subsection \<open>Addresses\<close>

definition radix_digit :: "nat \<Rightarrow> char \<Rightarrow> nat option" where
  "radix_digit radix c =
     opt_filter (\<lambda>d. d < radix)
       (if 48 \<le> byte c \<and> byte c \<le> 57 then Some (byte c - 48)
        else if 97 \<le> byte c \<and> byte c \<le> 122 then Some (byte c - 87)
        else if 65 \<le> byte c \<and> byte c \<le> 90 then Some (byte c - 55) else None)"

definition read_number :: "nat \<Rightarrow> nat \<Rightarrow> nat \<Rightarrow> bool \<Rightarrow> string \<Rightarrow> (nat \<times> string) option" where
  "read_number radix max_digits limit allow_zero_prefix s =
     (let ds = takeWhile (\<lambda>c. radix_digit radix c \<noteq> None) s;
          n = foldl (\<lambda>acc c. radix * acc + unwrap_or 0 (radix_digit radix c)) 0 ds
      in if ds = [] \<or> max_digits < length ds \<or> limit < n
            \<or> \<not> allow_zero_prefix \<and> hd ds = CHR ''0'' \<and> 1 < length ds
         then None else Some (n, drop (length ds) s))"

text \<open>A separator is read before every item but the first.\<close>

definition read_separator :: "char \<Rightarrow> nat \<Rightarrow> (string \<Rightarrow> ('a \<times> string) option) \<Rightarrow> string \<Rightarrow> ('a \<times> string) option" where
  "read_separator sep index inner s =
     (if index = 0 then inner s
      else (case s of [] \<Rightarrow> None | c # cs \<Rightarrow> if c = sep then inner cs else None))"

fun read_bytes :: "nat \<Rightarrow> nat \<Rightarrow> string \<Rightarrow> (nat list \<times> string) option" where
  "read_bytes index 0 s = Some ([], s)"
| "read_bytes index (Suc n) s =
     (case read_separator (CHR ''.'') index (read_number 10 3 255 False) s of
        None \<Rightarrow> None
      | Some (b, s') \<Rightarrow> map_option (\<lambda>(bs, r). (b # bs, r)) (read_bytes (Suc index) n s'))"

definition read_ipv4 :: "string \<Rightarrow> (nat list \<times> string) option" where
  "read_ipv4 s = read_bytes 0 4 s"

text \<open>\<open>read_groups\<close> with the number of groups still free: the groups read, whether they end in an IPv4
  address, and the rest.\<close>

fun read_groups :: "nat \<Rightarrow> nat \<Rightarrow> string \<Rightarrow> nat list \<times> bool \<times> string" where
  "read_groups 0 index s = ([], False, s)"
| "read_groups (Suc n) index s =
     (case (if 0 < n then read_separator (CHR '':'') index read_ipv4 s else None) of
        Some (v4, r) \<Rightarrow> ([256 * (v4 ! 0) + v4 ! 1, 256 * (v4 ! 2) + v4 ! 3], True, r)
      | None \<Rightarrow>
          (case read_separator (CHR '':'') index (read_number 16 4 65535 True) s of
             None \<Rightarrow> ([], False, s)
           | Some (g, s') \<Rightarrow> (let (gs, v4_tail, r) = read_groups n (Suc index) s' in (g # gs, v4_tail, r))))"

definition read_ipv6 :: "string \<Rightarrow> (nat list \<times> string) option" where
  "read_ipv6 s =
     (let (groups, v4_tail, r) = read_groups 8 0 s
      in if length groups = 8 then Some (groups, r)
         else if v4_tail then None
         else (case r of
                 c # d # r' \<Rightarrow>
                   if c = CHR '':'' \<and> d = CHR '':'' then
                     let (tail, _, r'') = read_groups (8 - (length groups + 1)) 0 r'
                     in Some (groups @ replicate (8 - length groups - length tail) 0 @ tail, r'')
                   else None
               | _ \<Rightarrow> None))"

definition parse_ip_addr :: "string \<Rightarrow> ip_addr option" where
  "parse_ip_addr s =
     (case read_ipv4 s of
        Some (bytes, r) \<Rightarrow> if r = [] then Some (V4 bytes) else None
      | None \<Rightarrow>
          (case read_ipv6 s of
             Some (groups, r) \<Rightarrow> if r = [] then Some (V6 groups) else None
           | None \<Rightarrow> None))"

subsection \<open>The key\<close>

definition parse_x_forwarded_for :: "headers \<Rightarrow> ip_addr option" where
  "parse_x_forwarded_for headers =
     Option.bind (header_get headers ''x-forwarded-for'') (\<lambda>v.
       find_map (\<lambda>part. parse_ip_addr (trim part)) (split_on (CHR '','') v))"

definition parse_x_real_ip :: "headers \<Rightarrow> ip_addr option" where
  "parse_x_real_ip headers = Option.bind (header_get headers ''x-real-ip'') (\<lambda>v. parse_ip_addr (trim v))"

definition forwarded_segment :: "string \<Rightarrow> ip_addr option" where
  "forwarded_segment raw =
     (let segment = trim raw
      in if \<not> starts_with ''for='' (to_ascii_lowercase segment) then None
         else
           let ip_text = unwrap_or [] (map_option (\<lambda>(_, v). trim_matches (CHR 0x22) (trim v)) (split_once (CHR ''='') segment));
               ip_only = hd (split_on (CHR '':'')
                 (rev (dropWhile ((=) (CHR '']'')) (rev (dropWhile ((=) (CHR ''['')) ip_text)))))
           in parse_ip_addr ip_only)"

definition parse_forwarded :: "headers \<Rightarrow> ip_addr option" where
  "parse_forwarded headers =
     Option.bind (header_get headers ''forwarded'') (\<lambda>raw. find_map forwarded_segment (split_on (CHR '';'') raw))"

record client_ip_extractor =
  kx_trust_proxy_headers :: bool
  kx_trusted_proxy_cidrs :: "ip_net list"

text \<open>The extractor the receiver builds from its configuration (\<open>main.rs\<close>).\<close>

definition ip_key_extractor :: "config \<Rightarrow> client_ip_extractor" where
  "ip_key_extractor c = \<lparr>kx_trust_proxy_headers = trust_proxy_headers c, kx_trusted_proxy_cidrs = trusted_proxy_cidrs c\<rparr>"

datatype governor_error = UnableToExtractKey

definition is_trusted_proxy :: "(ip_net \<Rightarrow> ip_addr \<Rightarrow> bool) \<Rightarrow> client_ip_extractor \<Rightarrow> ip_addr \<Rightarrow> bool" where
  "is_trusted_proxy contains x peer_ip = (\<exists>cidr \<in> set (kx_trusted_proxy_cidrs x). contains cidr peer_ip)"

text \<open>\<open>connect_info\<close> and \<open>socket_addr\<close> are the two extensions of the request that may carry the
  address of the peer.\<close>

definition extract_key ::
  "(ip_net \<Rightarrow> ip_addr \<Rightarrow> bool) \<Rightarrow> client_ip_extractor \<Rightarrow> ip_addr option \<Rightarrow> ip_addr option \<Rightarrow> headers \<Rightarrow>
     governor_error + ip_addr" where
  "extract_key contains x connect_info socket_addr headers =
     and_then (ok_or UnableToExtractKey (or_else connect_info socket_addr)) (\<lambda>peer_ip.
       if \<not> kx_trust_proxy_headers x then Inr peer_ip
       else if \<not> is_trusted_proxy contains x peer_ip then Inr peer_ip
       else ok_or UnableToExtractKey
              (or_else (or_else (or_else (parse_x_forwarded_for headers) (parse_x_real_ip headers))
                          (parse_forwarded headers)) (Some peer_ip)))"

subsection \<open>Reading IPv4 addresses\<close>

lemma show_nat_digits: "c \<in> set (show_nat n) \<Longrightarrow> radix_digit 10 c \<noteq> None"
  using set_show_nat [of c n] by (auto simp: radix_digit_def opt_filter_def)

lemma foldl_parse_digits:
  "parse_digits acc s = Some n \<Longrightarrow> foldl (\<lambda>acc c. 10 * acc + unwrap_or 0 (radix_digit 10 c)) acc s = n"
proof (induction s arbitrary: acc)
  case (Cons c s)
  then obtain d where d: "digit_val c = Some d" "parse_digits (10 * acc + d) s = Some n"
    by (auto split: option.splits)
  then have "radix_digit 10 c = Some d" by (auto simp: digit_val_def radix_digit_def opt_filter_def split: if_splits)
  with Cons.IH [OF d(2)] show ?case by (simp add: unwrap_or_def)
qed simp

lemma show_nat_short: "n < 1000 \<Longrightarrow> length (show_nat n) \<le> 3"
  by (simp add: show_nat.simps [of n] show_nat.simps [of "n div 10"] show_nat.simps [of "n div 10 div 10"])

lemma show_nat_no_zero: "n \<noteq> 0 \<Longrightarrow> hd (show_nat n) \<noteq> CHR ''0''"
proof (induction n rule: show_nat.induct)
  case (1 n)
  show ?case
  proof (cases "n < 10")
    case True
    have "digit_val (CHR ''0'') = Some 0" by (simp add: digit_val_def byte_def)
    then have "digit_char n \<noteq> CHR ''0''" using digit_val_digit_char [OF True] 1(2) by auto
    with True show ?thesis by (simp add: show_nat.simps [of n])
  next
    case False
    then have "n div 10 \<noteq> 0" by simp
    from 1(1) [OF False this] False show ?thesis by (simp add: show_nat.simps [of n])
  qed
qed

lemma read_number_show_nat:
  assumes "n \<le> 255" "r = [] \<or> radix_digit 10 (hd r) = None"
  shows "read_number 10 3 255 False (show_nat n @ r) = Some (n, r)"
proof -
  have "takeWhile (\<lambda>c. radix_digit 10 c \<noteq> None) r = []" using assms(2) by (cases r) auto
  then have ds: "takeWhile (\<lambda>c. radix_digit 10 c \<noteq> None) (show_nat n @ r) = show_nat n"
    using show_nat_digits [of _ n] by (subst takeWhile_append2) auto
  have "length (show_nat n) \<le> 3" using assms(1) by (intro show_nat_short) simp
  moreover have "hd (show_nat n) \<noteq> CHR ''0'' \<or> length (show_nat n) = 1"
    using show_nat_no_zero [of n] by (cases "n = 0") (auto simp: show_nat.simps [of 0])
  ultimately show ?thesis
    using assms(1) foldl_parse_digits [OF parse_digits_show_nat [of n]]
    unfolding read_number_def ds by (auto simp: Let_def)
qed

subsection \<open>IPv6 needs a colon\<close>

lemma read_groups_colon: "fst (read_groups n index s) \<noteq> [] \<Longrightarrow> 0 < index \<Longrightarrow> CHR '':'' \<in> set s"
  by (cases n) (auto simp: read_separator_def split: option.splits list.splits if_splits)

lemma read_separator_suffix:
  "read_separator sep i (read_number radix k l z) s = Some (x, r) \<Longrightarrow> set r \<subseteq> set s"
  by (auto simp: read_separator_def read_number_def Let_def split: if_splits list.splits dest: in_set_dropD)

lemma read_groups_step:
  assumes "read_groups (Suc n) i s = (gs, v, r)"
  obtains "v" "length gs = 2" | "gs = []" "\<not> v" "r = s"
  | x s' where "set s' \<subseteq> set s" "gs = x # fst (read_groups n (Suc i) s')" "(v, r) = snd (read_groups n (Suc i) s')"
proof (cases "if 0 < n then read_separator (CHR '':'') i read_ipv4 s else None")
  case (Some a)
  with assms that(1) show ?thesis by (cases a) auto
next
  case none: None
  show ?thesis
  proof (cases "read_separator (CHR '':'') i (read_number 16 4 65535 True) s")
    case None
    with none assms that(2) show ?thesis by simp
  next
    case (Some a)
    obtain x s' where a: "a = (x, s')" by force
    have "gs = x # fst (read_groups n (Suc i) s')" "(v, r) = snd (read_groups n (Suc i) s')"
      using assms none Some a by (simp_all split: prod.splits)
    with that(3) read_separator_suffix [OF Some [unfolded a]] show ?thesis by blast
  qed
qed

lemma read_groups_rest: "read_groups n i s = (gs, False, r) \<Longrightarrow> set r \<subseteq> set s"
proof (induction n arbitrary: i s gs r)
  case (Suc n)
  from Suc.prems show ?case
  proof (cases rule: read_groups_step)
    case (3 x s')
    have "read_groups n (Suc i) s' = (fst (read_groups n (Suc i) s'), False, r)" using 3(3) by (metis prod.collapse)
    from Suc.IH [OF this] 3(1) show ?thesis by blast
  qed simp_all
qed simp

lemma read_ipv6_colon:
  assumes "read_ipv6 s = Some (groups, r)"
  shows "CHR '':'' \<in> set s"
proof -
  obtain gs v r0 where g: "read_groups 8 0 s = (gs, v, r0)" by (cases "read_groups 8 0 s") auto
  show ?thesis
  proof (cases "length gs = 8")
    case True
    have "read_groups (Suc 7) 0 s = (gs, v, r0)" using g by simp
    then obtain x s' where s': "set s' \<subseteq> set s" "gs = x # fst (read_groups 7 (Suc 0) s')"
      using True by (cases rule: read_groups_step) auto
    then have "fst (read_groups 7 (Suc 0) s') \<noteq> []" using True by auto
    from read_groups_colon [OF this] s'(1) show ?thesis by auto
  next
    case False
    with assms g have "\<not> v" "CHR '':'' \<in> set r0"
      by (auto simp: read_ipv6_def split: list.splits if_splits prod.splits)
    with read_groups_rest [of 8 0 s gs r0] g show ?thesis by auto
  qed
qed

lemma parse_ip_colon: "parse_ip_addr s = Some (V6 groups) \<Longrightarrow> CHR '':'' \<in> set s"
  by (auto simp: parse_ip_addr_def dest: read_ipv6_colon split: option.splits if_splits)

lemma split_on_hd: "c \<notin> set (hd (split_on c s))"
  by (induction s) (auto split: list.splits)

lemma find_map_Some: "find_map f xs = Some y \<Longrightarrow> \<exists>x \<in> set xs. f x = Some y"
  by (induction xs) (auto split: option.splits)

definition demo_contains :: "ip_net \<Rightarrow> ip_addr \<Rightarrow> bool" where
  "demo_contains cidr ip \<longleftrightarrow> cidr = IpNet ip 32"

definition demo_extractor :: client_ip_extractor where
  "demo_extractor = \<lparr>kx_trust_proxy_headers = True, kx_trusted_proxy_cidrs = [IpNet (V4 [10, 0, 0, 2]) 32]\<rparr>"

subsection \<open>Properties\<close>

text \<open>C20. Headers cannot move a client that no proxy vouches for: when proxy headers are not trusted, or the
  peer is not in a trusted network, the key of the rate limiter is the address of the peer, whatever
  the headers say; behind a trusted proxy whose headers name no address it is the peer too, and a
  request whose peer is known always gets a key.\<close>

theorem untrusted_peer_is_key:
  assumes "or_else connect_info socket_addr = Some peer"
  shows "\<exists>key. extract_key contains x connect_info socket_addr headers = Inr key
     \<and> (\<not> kx_trust_proxy_headers x \<or> \<not> is_trusted_proxy contains x peer \<longrightarrow> key = peer)
     \<and> (key \<noteq> peer \<longrightarrow> Some key \<in> {parse_x_forwarded_for headers, parse_x_real_ip headers, parse_forwarded headers})"
  using assms by (auto simp: extract_key_def ok_or_def or_else_def split: option.splits)

theorem untrusted_peer_is_key_witness:
  "extract_key demo_contains demo_extractor (Some (V4 [192, 0, 2, 7])) None
     ((\<lambda>_. None)(''x-forwarded-for'' := Some ''1.2.3.4'')) = Inr (V4 [192, 0, 2, 7])"
proof -
  have "or_else (Some (V4 [192, 0, 2, 7])) None = Some (V4 [192, 0, 2, 7])"
    "\<not> is_trusted_proxy demo_contains demo_extractor (V4 [192, 0, 2, 7])"
    by (simp_all add: or_else_def is_trusted_proxy_def demo_extractor_def demo_contains_def)
  with untrusted_peer_is_key [OF this(1), of demo_contains demo_extractor "(\<lambda>_. None)(''x-forwarded-for'' := Some ''1.2.3.4'')"]
  show ?thesis by auto
qed

text \<open>Behind a trusted proxy that appends to \<open>X-Forwarded-For\<close> the client chooses its own key: the
  first address of the header counts, and that is the one the client sent. So it is never limited by
  its own address.\<close>

theorem forwarded_key_chosen_by_client:
  assumes "kx_trust_proxy_headers x" "is_trusted_proxy contains x peer"
    and "parse_ip_addr (trim claimed) = Some ip" "CHR '','' \<notin> set claimed"
  shows "extract_key contains x (Some peer) socket_addr
     ((\<lambda>_. None)(''x-forwarded-for'' := Some (claimed @ '', '' @ real))) = Inr ip"
proof -
  have "split_on (CHR '','') (claimed @ '', '' @ real) = claimed # split_on (CHR '','') ('' '' @ real)"
    using split_on_append [OF assms(4), of "'' '' @ real"] by simp
  with assms show ?thesis
    by (simp add: extract_key_def parse_x_forwarded_for_def header_get_def to_ascii_lowercase_def ascii_lower_def byte_def or_else_def ok_or_def)
qed

theorem forwarded_key_chosen_by_client_witness:
  "extract_key demo_contains demo_extractor (Some (V4 [10, 0, 0, 2])) None
     ((\<lambda>_. None)(''x-forwarded-for'' := Some (''8.8.8.8'' @ '', '' @ ''192.0.2.7''))) = Inr (V4 [8, 8, 8, 8])"
proof -
  have "kx_trust_proxy_headers demo_extractor" "is_trusted_proxy demo_contains demo_extractor (V4 [10, 0, 0, 2])"
    by (simp_all add: is_trusted_proxy_def demo_extractor_def demo_contains_def)
  moreover have "parse_ip_addr (trim ''8.8.8.8'') = Some (V4 [8, 8, 8, 8])" "CHR '','' \<notin> set ''8.8.8.8''" by code_simp+
  ultimately show ?thesis by (rule forwarded_key_chosen_by_client)
qed

text \<open>A \<open>Forwarded\<close> header never yields an IPv6 address: the text after \<open>for=\<close> is cut at the first
  colon before it is read, and an IPv6 address has one.\<close>

theorem forwarded_ignores_ipv6:
  "parse_forwarded headers \<noteq> Some (V6 groups)"
proof
  assume "parse_forwarded headers = Some (V6 groups)"
  then obtain raw segment where "forwarded_segment segment = Some (V6 groups)"
    by (auto simp: parse_forwarded_def bind_eq_Some_conv dest!: find_map_Some)
  then obtain t where "parse_ip_addr (hd (split_on (CHR '':'') t)) = Some (V6 groups)"
    by (auto simp: forwarded_segment_def Let_def split: if_splits)
  from parse_ip_colon [OF this] split_on_hd show False by blast
qed

definition show_ipv4 :: "nat \<Rightarrow> nat \<Rightarrow> nat \<Rightarrow> nat \<Rightarrow> string" where
  "show_ipv4 a b c d = show_nat a @ ''.'' @ show_nat b @ ''.'' @ show_nat c @ ''.'' @ show_nat d"

lemma parse_show_ipv4:
  assumes "a \<le> 255" "b \<le> 255" "c \<le> 255" "d \<le> 255"
  shows "parse_ip_addr (show_ipv4 a b c d) = Some (V4 [a, b, c, d])"
proof -
  have dot: "radix_digit 10 (CHR ''.'') = None" by (simp add: radix_digit_def byte_def opt_filter_def)
  have last: "read_number 10 3 255 False (show_nat d) = Some (d, [])"
    using read_number_show_nat [OF assms(4), of "[]"] by simp
  have four: "(4 :: nat) = Suc (Suc (Suc (Suc 0)))" by simp
  show ?thesis
    unfolding parse_ip_addr_def read_ipv4_def show_ipv4_def four
    using assms dot last by (simp add: read_separator_def read_number_show_nat)
qed

text \<open>Digits and dots: no white space, quote, bracket or separator among them.\<close>

lemma show_ipv4_bytes: "x \<in> set (show_ipv4 a b c d) \<Longrightarrow> 46 \<le> byte x \<and> byte x \<le> 57"
  by (fastforce simp: show_ipv4_def byte_def dest: set_show_nat)

lemma white_space_bytes: "w \<in> set white_space \<Longrightarrow> x \<in> set w \<Longrightarrow> byte x < 46 \<or> 122 < byte x"
proof -
  have "\<forall>w \<in> set white_space. \<forall>x \<in> set w. byte x < 46 \<or> 122 < byte x" by code_simp
  then show "w \<in> set white_space \<Longrightarrow> x \<in> set w \<Longrightarrow> byte x < 46 \<or> 122 < byte x" by blast
qed

lemma trim_printable:
  assumes "s \<noteq> []" "\<forall>x \<in> set s. 46 \<le> byte x \<and> byte x \<le> 122"
  shows "trim s = s"
proof (rule trim_id [OF assms(1)])
  have "hd s \<in> set s" "last s \<in> set s" using assms(1) by simp_all
  then have ends: "46 \<le> byte (hd s) \<and> byte (hd s) \<le> 122" "46 \<le> byte (last s) \<and> byte (last s) \<le> 122"
    using assms(2) by blast+
  show "\<forall>w \<in> set white_space. hd w \<noteq> hd s"
    using white_space_bytes [OF _ hd_in_set] white_space_nonempty ends(1) by (metis not_le)
  show "\<forall>w \<in> set white_space. last w \<noteq> last s"
    using white_space_bytes [OF _ last_in_set] white_space_nonempty ends(2) by (metis not_le)
qed

lemma trim_show_ipv4: "trim (show_ipv4 a b c d) = show_ipv4 a b c d" "trim (''for='' @ show_ipv4 a b c d) = ''for='' @ show_ipv4 a b c d"
proof -
  have ne: "show_ipv4 a b c d \<noteq> []" by (simp add: show_ipv4_def)
  have bytes: "\<forall>x \<in> set (show_ipv4 a b c d). 46 \<le> byte x \<and> byte x \<le> 122"
    using show_ipv4_bytes [of _ a b c d] by fastforce
  then show "trim (show_ipv4 a b c d) = show_ipv4 a b c d" by (rule trim_printable [OF ne])
  have "\<forall>x \<in> set (''for='' @ show_ipv4 a b c d). 46 \<le> byte x \<and> byte x \<le> 122"
    using bytes by (simp add: byte_def)
  then show "trim (''for='' @ show_ipv4 a b c d) = ''for='' @ show_ipv4 a b c d" by (rule trim_printable [rotated]) simp
qed

lemma dropWhile_absent: "q \<notin> set t \<Longrightarrow> dropWhile ((=) q) t = t"
  by (cases t) auto

lemma forwarded_segment_ipv4:
  assumes "a \<le> 255" "b \<le> 255" "c \<le> 255" "d \<le> 255"
  shows "forwarded_segment (''for='' @ show_ipv4 a b c d) = Some (V4 [a, b, c, d])"
proof -
  let ?t = "show_ipv4 a b c d"
  note bytes = show_ipv4_bytes [of _ a b c d]
  have absent: "CHR '':'' \<notin> set ?t" "CHR 0x22 \<notin> set ?t" "CHR ''['' \<notin> set ?t" "CHR '']'' \<notin> set ?t"
    using bytes by (force simp: byte_def)+
  then have keep: "dropWhile ((=) q) ?t = ?t" "dropWhile ((=) q) (rev ?t) = rev ?t"
    if "q \<in> {CHR 0x22, CHR ''['', CHR '']''}" for q
    using that by (auto intro!: dropWhile_absent)
  have "split_once (CHR ''='') (''for='' @ ?t) = Some (''for'', ?t)"
    using split_once_append [of "CHR ''=''" "''for''" ?t] by simp
  moreover have "starts_with ''for='' (to_ascii_lowercase (''for='' @ ?t))"
  proof -
    have "to_ascii_lowercase ''for='' = ''for=''" by code_simp
    then have "to_ascii_lowercase (''for='' @ ?t) = ''for='' @ to_ascii_lowercase ?t" by (simp add: to_ascii_lowercase_def)
    then show ?thesis by (simp add: starts_with_def)
  qed
  ultimately show ?thesis
    unfolding forwarded_segment_def Let_def trim_show_ipv4
    by (simp add: trim_show_ipv4(1) trim_matches_def keep split_on_none [OF absent(1)] parse_show_ipv4 [OF assms] unwrap_or_def)
qed

text \<open>C30. The printed form of an IPv4 address reads back as that address from each of the three headers a
  proxy may write it to.\<close>

theorem ipv4_round_trip:
  assumes "a \<le> 255" "b \<le> 255" "c \<le> 255" "d \<le> 255"
  shows "parse_x_forwarded_for ((\<lambda>_. None)(''x-forwarded-for'' := Some (show_ipv4 a b c d))) = Some (V4 [a, b, c, d])
     \<and> parse_x_real_ip ((\<lambda>_. None)(''x-real-ip'' := Some (show_ipv4 a b c d))) = Some (V4 [a, b, c, d])
     \<and> parse_forwarded ((\<lambda>_. None)(''forwarded'' := Some (''for='' @ show_ipv4 a b c d))) = Some (V4 [a, b, c, d])"
proof -
  note bytes = show_ipv4_bytes [of _ a b c d]
  have lower: "to_ascii_lowercase ''x-forwarded-for'' = ''x-forwarded-for''" "to_ascii_lowercase ''x-real-ip'' = ''x-real-ip''"
    "to_ascii_lowercase ''forwarded'' = ''forwarded''" by code_simp+
  have "CHR '','' \<notin> set (show_ipv4 a b c d)" "CHR '';'' \<notin> set (''for='' @ show_ipv4 a b c d)"
    using bytes by (force simp: byte_def)+
  moreover have "header_get ((\<lambda>_. None)(''x-forwarded-for'' := Some v)) ''x-forwarded-for'' = Some v"
    "header_get ((\<lambda>_. None)(''x-real-ip'' := Some v)) ''x-real-ip'' = Some v"
    "header_get ((\<lambda>_. None)(''forwarded'' := Some v)) ''forwarded'' = Some v" for v
    unfolding header_get_def lower by simp_all
  ultimately show ?thesis
    unfolding parse_x_forwarded_for_def parse_x_real_ip_def parse_forwarded_def
    by (simp only: split_on_none Option.bind.bind_lunit find_map.simps trim_show_ipv4 parse_show_ipv4 [OF assms] forwarded_segment_ipv4 [OF assms] option.case simp_thms)
qed

theorem ipv4_round_trip_witness:
  "parse_x_real_ip ((\<lambda>_. None)(''x-real-ip'' := Some (show_ipv4 10 0 255 7))) = Some (V4 [10, 0, 255, 7])"
  using ipv4_round_trip [of 10 0 255 7] by simp

end
