(* ===== verification/Serve_Main.thy ===== *)
theory Serve_Main
  imports Serve_Machine Client_Ip
begin

section \<open>The running receiver\<close>

text \<open>
  The rest of \<open>main\<close> in \<open>src/main.rs\<close>: the route table of the HTTP server with its two layers, the
  Kafka ingress worker, and the end of the program. The web framework is the record \<open>web\<close>: which of
  the registered templates a path matches and what it captures, the answers it gives itself, and its
  extractors; what the receiver relies on is \<open>web_ok\<close>. The limiter per client address is
  \<open>tower_governor\<close>'s, the record \<open>governor\<close>, whose state is the type \<open>'g\<close> and whose promise is
  \<open>governor_ok\<close>; the receiver chooses its key, methods, period and burst.
\<close>

subsection \<open>Routes\<close>

datatype http_method = MethodGet | MethodHead | MethodPost | MethodOther string

datatype endpoint = WebhookEndpoint | HealthEndpoint | ReadyEndpoint | WebsocketEndpoint | McpEndpoint

text \<open>\<open>post(handler)\<close> answers \<open>POST\<close>, \<open>get(handler)\<close> answers \<open>GET\<close> and \<open>HEAD\<close>.\<close>

fun serves :: "endpoint \<Rightarrow> http_method \<Rightarrow> bool" where
  "serves WebhookEndpoint m \<longleftrightarrow> m = MethodPost"
| "serves McpEndpoint m \<longleftrightarrow> m = MethodPost"
| "serves _ m \<longleftrightarrow> m = MethodGet \<or> m = MethodHead"

definition http_routes :: "ingress_runtime_selection \<Rightarrow> (string \<times> endpoint) list" where
  "http_routes sel =
     [(sel_http_path sel, WebhookEndpoint), (''/health'', HealthEndpoint), (''/ready'', ReadyEndpoint)]
     @ (case sel_websocket sel of None \<Rightarrow> [] | Some adapter \<Rightarrow> [(wir_path_template adapter, WebsocketEndpoint)])
     @ (case sel_mcp sel of None \<Rightarrow> [] | Some adapter \<Rightarrow> [(mir_path adapter, McpEndpoint)])"

record http_call =
  call_method :: http_method
  call_path :: string
  call_headers :: headers
  call_body :: string
  call_peer :: "ip_addr option"
  call_frames :: "(ws_frame \<times> moment \<times> bool) list"

text \<open>The extractors of the framework: \<open>Path<String>\<close>, \<open>Bytes\<close> and \<open>Json\<close> under a limit of the body,
  and the upgrade of a websocket; \<open>Inl\<close> is the status they answer themselves.\<close>

record web =
  web_table_ok :: "(string \<times> endpoint) list \<Rightarrow> bool"
  web_route :: "string list \<Rightarrow> string \<Rightarrow> (string \<times> string list option) option"
  web_own_answer :: "nat \<Rightarrow> response"
  web_path_param :: "string list option \<Rightarrow> nat + string"
  web_bytes :: "nat \<Rightarrow> http_call \<Rightarrow> nat + string"
  web_json_body :: "nat \<Rightarrow> http_call \<Rightarrow> nat + mcp_ingest_request"
  web_upgrade_refused :: "http_call \<Rightarrow> nat option"

text \<open>What \<open>DefaultBodyLimit\<close> promises: an extractor gets the whole body, and only within the limit.\<close>

definition web_ok :: "web \<Rightarrow> bool" where
  "web_ok wb \<longleftrightarrow>
     (\<forall>limit call body. web_bytes wb limit call = Inr body \<longrightarrow> body = call_body call \<and> length body \<le> limit)
     \<and> (\<forall>limit call request. web_json_body wb limit call = Inr request \<longrightarrow> length (call_body call) \<le> limit)"

datatype served = Answered response | Upgraded "json list"

text \<open>A handler behind its extractors, in the order of its parameters.\<close>

definition run_endpoint ::
  "web \<Rightarrow> crates \<Rightarrow> ingress_crates \<Rightarrow> channel \<Rightarrow> moment \<Rightarrow> app_state \<Rightarrow> endpoint \<Rightarrow> string list option \<Rightarrow> http_call \<Rightarrow> served \<times> app_state" where
  "run_endpoint wb cr ic ch now st ep captured call =
     (let body_limit = unat (max_payload_bytes (app_config st));
          refuse = (\<lambda>code. (Answered (web_own_answer wb code), st))
      in case ep of
           HealthEndpoint \<Rightarrow> (Answered health, st)
         | ReadyEndpoint \<Rightarrow> (Answered (ready st), st)
         | WebhookEndpoint \<Rightarrow>
             (case web_path_param wb captured of
                Inl code \<Rightarrow> refuse code
              | Inr source_path \<Rightarrow>
                  (case web_bytes wb body_limit call of
                     Inl code \<Rightarrow> refuse code
                   | Inr body \<Rightarrow> map_prod Answered id (webhook_handler cr ch now st source_path (call_headers call) body)))
         | McpEndpoint \<Rightarrow>
             (case web_json_body wb body_limit call of
                Inl code \<Rightarrow> refuse code
              | Inr request \<Rightarrow> map_prod Answered id (mcp_ingest_handler cr ch now st (call_headers call) request))
         | WebsocketEndpoint \<Rightarrow>
             (case web_path_param wb captured of
                Inl code \<Rightarrow> refuse code
              | Inr source_path \<Rightarrow>
                  (case web_upgrade_refused wb call of
                     Some code \<Rightarrow> refuse code
                   | None \<Rightarrow>
                       (case websocket_ingress_handler cr ic ch st source_path (call_headers call) (call_frames call) of
                          (Inl answer, st') \<Rightarrow> (Answered answer, st')
                        | (Inr answers, st') \<Rightarrow> (Upgraded answers, st')))))"

definition route_call ::
  "web \<Rightarrow> crates \<Rightarrow> ingress_crates \<Rightarrow> channel \<Rightarrow> moment \<Rightarrow> ingress_runtime_selection \<Rightarrow> app_state \<Rightarrow> http_call \<Rightarrow> served \<times> app_state" where
  "route_call wb cr ic ch now sel st call =
     (case web_route wb (map fst (http_routes sel)) (call_path call) of
        None \<Rightarrow> (Answered (web_own_answer wb 404), st)
      | Some (template, captured) \<Rightarrow>
          (case filter (\<lambda>(t, ep). t = template \<and> serves ep (call_method call)) (http_routes sel) of
             [] \<Rightarrow> (Answered (web_own_answer wb 405), st)
           | (_, ep) # _ \<Rightarrow> run_endpoint wb cr ic ch now st ep captured call))"

subsection \<open>The limiter per client address\<close>

text \<open>What the receiver hands to \<open>GovernorConfigBuilder\<close>.\<close>

record governor_settings =
  gs_period_ms :: u64
  gs_burst_size :: u32
  gs_methods :: "http_method list"
  gs_key :: "http_call \<Rightarrow> governor_error + ip_addr"

record 'g governor =
  gov_layer :: "governor_settings \<Rightarrow> moment \<Rightarrow> 'g \<Rightarrow> http_call \<Rightarrow> nat option \<times> 'g"
  gov_admits :: "u64 \<Rightarrow> u32 \<Rightarrow> 'g \<Rightarrow> ip_addr \<Rightarrow> moment \<Rightarrow> bool"
  gov_contains :: "ip_net \<Rightarrow> ip_addr \<Rightarrow> bool"

text \<open>What \<open>GovernorLayer\<close> promises: a request of a limited method gets through only when its key can be
  extracted and has budget left.\<close>

definition governor_ok :: "'g governor \<Rightarrow> bool" where
  "governor_ok gv \<longleftrightarrow>
     (\<forall>s now g call g'. gov_layer gv s now g call = (None, g') \<longrightarrow> call_method call \<in> set (gs_methods s) \<longrightarrow>
        (\<exists>key. gs_key s call = Inr key \<and> gov_admits gv (gs_period_ms s) (gs_burst_size s) g key now))"

definition governor_config :: "(ip_net \<Rightarrow> ip_addr \<Rightarrow> bool) \<Rightarrow> config \<Rightarrow> governor_settings" where
  "governor_config contains c =
     \<lparr>gs_period_ms = ip_refill_period_ms (ip_limit_per_minute c), gs_burst_size = ip_limit_per_minute c,
      gs_methods = [MethodPost],
      gs_key = \<lambda>call. extract_key contains (ip_key_extractor c) (call_peer call) None (call_headers call)\<rparr>"

text \<open>The limiter is the outer layer, around the routes with their body limit.\<close>

definition serve_call ::
  "web \<Rightarrow> 'g governor \<Rightarrow> crates \<Rightarrow> ingress_crates \<Rightarrow> channel \<Rightarrow> moment \<Rightarrow> ingress_runtime_selection \<Rightarrow> 'g \<times> app_state \<Rightarrow> http_call \<Rightarrow>
     served \<times> 'g \<times> app_state" where
  "serve_call wb gv cr ic ch now sel s call =
     (case gov_layer gv (governor_config (gov_contains gv) (app_config (snd s))) now (fst s) call of
        (Some code, g) \<Rightarrow> (Answered (web_own_answer wb code), g, snd s)
      | (None, g) \<Rightarrow> (case route_call wb cr ic ch now sel (snd s) call of (answer, st) \<Rightarrow> (answer, g, st)))"

subsection \<open>The Kafka ingress worker\<close>

definition kafka_ingress_client_config :: "config \<Rightarrow> kafka_ingress_runtime \<Rightarrow> client_config" where
  "kafka_ingress_client_config c adapter =
     (let client_config = Map.empty(''bootstrap.servers'' \<mapsto> kir_brokers adapter, ''group.id'' \<mapsto> kir_group_id adapter,
            ''enable.auto.commit'' \<mapsto> ''false'', ''auto.offset.reset'' \<mapsto> ''latest'',
            ''security.protocol'' \<mapsto> kafka_security_protocol c)
      in if kafka_security_protocol c = ''ssl''
         then client_config(''ssl.certificate.location'' \<mapsto> kafka_tls_cert c, ''ssl.key.location'' \<mapsto> kafka_tls_key c,
                            ''ssl.ca.location'' \<mapsto> kafka_tls_ca c)
         else client_config)"

text \<open>The loop over what is received; the flags say of each turn whether its offset is committed.\<close>

fun kafka_ingress_loop ::
  "crates \<Rightarrow> ingress_crates \<Rightarrow> channel \<Rightarrow> app_state \<Rightarrow> kafka_ingress_runtime \<Rightarrow> (moment \<times> string option option) list \<Rightarrow>
     bool list \<times> app_state" where
  "kafka_ingress_loop cr ic ch st adapter [] = ([], st)"
| "kafka_ingress_loop cr ic ch st adapter ((now, received) # rest) =
     (let (committed, st') = kafka_ingress_turn cr ic ch now st adapter received;
          (flags, st'') = kafka_ingress_loop cr ic ch st' adapter rest
      in (committed # flags, st''))"

definition run_kafka_ingress_worker ::
  "(client_config \<Rightarrow> bool) \<Rightarrow> (string list \<Rightarrow> bool) \<Rightarrow> crates \<Rightarrow> ingress_crates \<Rightarrow> channel \<Rightarrow> app_state \<Rightarrow> kafka_ingress_runtime \<Rightarrow>
     (moment \<times> string option option) list \<Rightarrow> (bool list \<times> app_state) result" where
  "run_kafka_ingress_worker create subscribe cr ic ch st adapter received =
     and_then (ensure (create (kafka_ingress_client_config (app_config st) adapter)) ''create kafka ingress consumer'') (\<lambda>_.
     and_then (ensure (subscribe (kir_topics adapter))
                (''subscribe kafka ingress topics: '' @ join '','' (kir_topics adapter))) (\<lambda>_.
       Inr (kafka_ingress_loop cr ic ch st adapter received)))"

subsection \<open>The end of the program\<close>

text \<open>After the server has ended \<open>main\<close> drops its state and waits at most 30 seconds for the worker. The
  worker ends when every sender of the channel is gone and it has handled what is queued, each job
  with the time it takes. A sender lives in the shared state, which every Kafka ingress worker and every
  open websocket session holds: \<open>holders\<close> counts those still running.\<close>

datatype shutdown_outcome = Drained | JoinFailed | DrainTimedOut

definition shutdown_main :: "nat \<Rightarrow> (publish_job \<times> nat) list \<Rightarrow> bool \<Rightarrow> shutdown_outcome" where
  "shutdown_main holders remaining worker_panicked =
     (if worker_panicked then JoinFailed
      else if holders = 0 \<and> sum_list (map snd remaining) \<le> 30000 then Drained
      else DrainTimedOut)"

fun published_in_time :: "nat \<Rightarrow> (publish_job \<times> nat) list \<Rightarrow> publish_job list" where
  "published_in_time budget [] = []"
| "published_in_time budget ((job, duration) # rest) =
     (if duration \<le> budget then job # published_in_time (budget - duration) rest else [])"

lemma published_in_time_all:
  "sum_list (map snd remaining) \<le> budget \<Longrightarrow> published_in_time budget remaining = map fst remaining"
  by (induction budget remaining rule: published_in_time.induct) auto

lemma published_in_time_prefix: "prefix (published_in_time budget remaining) (map fst remaining)"
  by (induction budget remaining rule: published_in_time.induct) auto

text \<open>A drained end has lost nothing; an ingress worker that runs excludes it.\<close>

lemma drained_loses_nothing:
  "shutdown_main holders remaining panicked = Drained \<Longrightarrow>
     holders = 0 \<and> published_in_time 30000 remaining = map fst remaining"
  by (auto simp: shutdown_main_def published_in_time_all split: if_splits)

text \<open>\<open>main\<close> from the environment up to the bound listener: \<open>Inl\<close> its error.\<close>

definition serve_up ::
  "web \<Rightarrow> config_crates \<Rightarrow> (client_config \<Rightarrow> bool) \<Rightarrow> (string list \<Rightarrow> i32 \<Rightarrow> i32 \<Rightarrow> topic_answers option) \<Rightarrow>
   (client_config \<Rightarrow> bool) \<Rightarrow> (u64 \<Rightarrow> u32 \<Rightarrow> bool) \<Rightarrow> (string \<Rightarrow> bool) \<Rightarrow> env \<Rightarrow>
   (app_state \<times> kafka_publisher \<times> ingress_runtime_selection) result" where
  "serve_up wb cc create_client create_topics create_producer build_governor bind e =
     and_then (startup cc create_client create_topics create_producer e) (\<lambda>(st, publisher, sel).
     and_then (ensure (build_governor (ip_refill_period_ms (ip_limit_per_minute (app_config st))) (ip_limit_per_minute (app_config st)))
                ''build governor config'') (\<lambda>_.
     and_then (ensure (web_table_ok wb (http_routes sel)) ''panic: invalid route table'') (\<lambda>_.
     and_then (ensure (bind (bind_addr (app_config st))) (''bind '' @ bind_addr (app_config st))) (\<lambda>_.
       Inr (st, publisher, sel)))))"

subsection \<open>The server and the state machine\<close>

text \<open>Whatever end point runs, it is no step or one step of the receiver.\<close>

lemma run_endpoint_step:
  "snd (run_endpoint wb cr ic ch now st ep captured call) = st
     \<or> serve_step cr ic ch st (snd (run_endpoint wb cr ic ch now st ep captured call))"
proof (cases ep)
  case WebhookEndpoint
  then show ?thesis by (auto simp: run_endpoint_def Let_def step_webhook split: sum.splits)
next
  case McpEndpoint
  then show ?thesis by (auto simp: run_endpoint_def Let_def step_mcp split: sum.splits)
next
  case WebsocketEndpoint
  have "serve_step cr ic ch st st'" if "websocket_ingress_handler cr ic ch st p hs frames = (r, st')" for p hs frames r st'
    using step_websocket [of cr ic ch st p hs frames] that by simp
  with WebsocketEndpoint show ?thesis
    by (auto simp: run_endpoint_def Let_def split: option.splits prod.splits sum.splits)
qed (simp_all add: run_endpoint_def)

text \<open>And the route table changes nothing, or runs one end point that answers the method.\<close>

lemma route_call_runs:
  "snd (route_call wb cr ic ch now sel st call) = st
     \<or> (\<exists>ep captured. serves ep (call_method call)
          \<and> route_call wb cr ic ch now sel st call = run_endpoint wb cr ic ch now st ep captured call)"
proof (cases "web_route wb (map fst (http_routes sel)) (call_path call)")
  case None
  then show ?thesis by (simp add: route_call_def)
next
  case (Some r)
  obtain template captured where r: "r = (template, captured)" by force
  show ?thesis
  proof (cases "filter (\<lambda>(t, ep). t = template \<and> serves ep (call_method call)) (http_routes sel)")
    case Nil
    with Some r show ?thesis by (simp add: route_call_def)
  next
    case (Cons x xs)
    obtain t ep where x: "x = (t, ep)" by force
    have "x \<in> set (filter (\<lambda>(t, ep). t = template \<and> serves ep (call_method call)) (http_routes sel))"
      unfolding Cons by simp
    then have "serves ep (call_method call)" using x by simp
    moreover have "route_call wb cr ic ch now sel st call = run_endpoint wb cr ic ch now st ep captured call"
      using Some r Cons x by (simp add: route_call_def)
    ultimately show ?thesis by blast
  qed
qed

lemma serve_call_reachable:
  "serve_reachable cr ic ch (snd s) (snd (snd (serve_call wb gv cr ic ch now sel s call)))"
proof -
  have "serve_reachable cr ic ch st (snd (route_call wb cr ic ch now sel st call))" for st
    using route_call_runs [of wb cr ic ch now sel st call] run_endpoint_step [of wb cr ic ch now st _ _ call]
    unfolding serve_reachable_def by (metis r_into_rtranclp rtranclp.rtrancl_refl)
  moreover have "serve_reachable cr ic ch st st" for st by (simp add: serve_reachable_def)
  ultimately show ?thesis by (simp add: serve_call_def case_prod_unfold split: option.split)
qed

lemma kafka_ingress_loop_reachable:
  "serve_reachable cr ic ch st (snd (kafka_ingress_loop cr ic ch st adapter received))"
proof (induction received arbitrary: st)
  case Nil
  then show ?case by (simp add: serve_reachable_def)
next
  case (Cons r received)
  obtain now m where r: "r = (now, m)" by force
  have "serve_step cr ic ch st (snd (kafka_ingress_turn cr ic ch now st adapter m))" by (rule step_kafka)
  moreover have "serve_reachable cr ic ch (snd (kafka_ingress_turn cr ic ch now st adapter m))
      (snd (kafka_ingress_loop cr ic ch st adapter (r # received)))"
    using Cons [of "snd (kafka_ingress_turn cr ic ch now st adapter m)"] r by (simp add: case_prod_unfold Let_def)
  ultimately show ?case unfolding serve_reachable_def by (rule converse_rtranclp_into_rtranclp)
qed

text \<open>Who made the queue grow.\<close>

definition within_limits :: "'g governor \<Rightarrow> config \<Rightarrow> moment \<Rightarrow> 'g \<Rightarrow> http_call \<Rightarrow> bool" where
  "within_limits gv c now g call \<longleftrightarrow>
     length (call_body call) \<le> unat (max_payload_bytes c)
     \<and> (\<exists>key. extract_key (gov_contains gv) (ip_key_extractor c) (call_peer call) None (call_headers call) = Inr key
          \<and> gov_admits gv (ip_refill_period_ms (ip_limit_per_minute c)) (ip_limit_per_minute c) g key now)"

text \<open>A websocket of an adapter without authentication, or one that presents the token of the adapter.\<close>

definition websocket_admitted :: "app_state \<Rightarrow> http_call \<Rightarrow> bool" where
  "websocket_admitted st call \<longleftrightarrow>
     (\<exists>adapter. websocket_ingress st = Some adapter
        \<and> (to_ascii_lowercase (trim (wir_auth_mode adapter)) = ''none''
           \<or> wir_auth_token adapter = Some (presented_token (call_headers call))))"

lemma authorized_presents:
  "authorize_adapter_request hs mode token \<Longrightarrow>
     to_ascii_lowercase (trim mode) = ''none'' \<or> token = Some (presented_token hs)"
  by (auto simp: authorize_adapter_request_def presented_token_def Let_def split: if_splits option.splits)

lemma governor_passed:
  assumes "gov_layer gv (governor_config (gov_contains gv) c) now g call = (None, g')" "governor_ok gv"
    "call_method call = MethodPost"
  shows "\<exists>key. extract_key (gov_contains gv) (ip_key_extractor c) (call_peer call) None (call_headers call) = Inr key
     \<and> gov_admits gv (ip_refill_period_ms (ip_limit_per_minute c)) (ip_limit_per_minute c) g key now"
  using assms unfolding governor_ok_def governor_config_def by fastforce

lemma run_endpoint_grows:
  assumes "publish_queue (snd (run_endpoint wb cr ic ch now st ep captured call)) \<noteq> publish_queue st" "web_ok wb"
  shows "(ep \<in> {WebhookEndpoint, McpEndpoint} \<and> length (call_body call) \<le> unat (max_payload_bytes (app_config st)))
     \<or> (ep = WebsocketEndpoint \<and> websocket_admitted st call)"
  using assms
  by (cases ep)
     (auto simp: run_endpoint_def Let_def web_ok_def websocket_admitted_def websocket_ingress_handler_def
        dest: authorized_presents split: option.splits prod.splits sum.splits if_splits)

subsection \<open>Properties\<close>

text \<open>C11. Everything that reaches the queue over HTTP passed its limits: given what the framework promises for the
  body limit and the limiter the receiver installs, if a call makes the queue grow, then it is a \<open>POST\<close>
  whose body is within the configured limit and whose client address had budget left, or it opened a
  websocket whose adapter is configured without authentication or whose token it presented.\<close>

theorem http_growth_limited:
  assumes "web_ok wb" "governor_ok gv"
    and "serve_call wb gv cr ic ch now sel (g, st) call = (answer, g', st')" "publish_queue st' \<noteq> publish_queue st"
  shows "(call_method call = MethodPost \<and> within_limits gv (app_config st) now g call)
     \<or> (call_method call \<in> {MethodGet, MethodHead}
        \<and> (\<exists>adapter. websocket_ingress st = Some adapter
             \<and> (to_ascii_lowercase (trim (wir_auth_mode adapter)) = ''none''
                \<or> wir_auth_token adapter = Some (presented_token (call_headers call)))))"
proof -
  from assms(3,4) have gov: "gov_layer gv (governor_config (gov_contains gv) (app_config st)) now g call = (None, g')"
    and routed: "snd (route_call wb cr ic ch now sel st call) = st'"
    by (auto simp: serve_call_def split: prod.splits option.splits)
  with route_call_runs [of wb cr ic ch now sel st call] assms(4)
  obtain ep captured where ep: "serves ep (call_method call)"
    and run: "snd (run_endpoint wb cr ic ch now st ep captured call) = st'" by auto
  from run_endpoint_grows [of wb cr ic ch now st ep captured call, OF _ assms(1)] run assms(4)
  consider "ep \<in> {WebhookEndpoint, McpEndpoint}" "length (call_body call) \<le> unat (max_payload_bytes (app_config st))"
    | "ep = WebsocketEndpoint" "websocket_admitted st call" by blast
  then show ?thesis
  proof cases
    case 1
    with ep have "call_method call = MethodPost" by auto
    with 1(2) governor_passed [OF gov assms(2)] show ?thesis by (auto simp: within_limits_def)
  next
    case 2
    with ep show ?thesis by (auto simp: websocket_admitted_def)
  qed
qed

text \<open>The adapters skip the limits of the webhook end point: an event over MCP, websocket or Kafka is queued or
  refused whatever the per-source limiter and the idempotency store hold, and neither records it; so
  a repeated event is queued again, and no source limit applies.\<close>

theorem adapters_skip_limits:
  "enqueue_prevalidated_event cr ch now (st\<lparr>app_rate_limiter := l, app_idempotency := i\<rparr>) source payload et aid plugins =
     map_prod id (\<lambda>st'. st'\<lparr>app_rate_limiter := l, app_idempotency := i\<rparr>)
       (enqueue_prevalidated_event cr ch now st source payload et aid plugins)"
  by (auto simp: enqueue_prevalidated_event_def offer_def Let_def split: option.splits sum.splits prod.splits try_send_result.splits)

text \<open>C37. The Kafka ingress loses events under backpressure: while the channel refuses, no message is queued, and
  yet the offset of every message is committed, so none of them is ever read again.\<close>

theorem kafka_ingress_loses_events:
  assumes "\<forall>job. try_send ch (publish_queue st) job = SendFull"
  shows "kafka_ingress_loop cr ic ch st adapter received = (map (\<lambda>(now, m). m \<noteq> None) received, st)"
proof -
  have "snd (enqueue_prevalidated_event cr ch now st source payload et aid plugins) = st" for now source payload et aid plugins
    using assms by (auto simp: enqueue_prevalidated_event_def offer_def Let_def split: option.splits sum.splits prod.splits)
  then have "kafka_ingress_turn cr ic ch now st adapter m = (m \<noteq> None, st)" for now m
    by (auto simp: kafka_ingress_turn_def split: option.splits sum.splits)
  then show ?thesis by (induction received) auto
qed

theorem kafka_ingress_loses_events_witness:
  "kafka_ingress_loop demo_webhook_crates
       (demo_ingress_crates\<lparr>de_kafka_ingress := \<lambda>_. Some (''github'', demo_body_json, Some ''ping'')\<rparr>) (bounded_channel 0)
       demo_state \<lparr>kir_id = ''k'', kir_topics = [''in''], kir_group_id = ''g'', kir_brokers = ''b:9092'', kir_plugins = []\<rparr>
       [(demo_moment 1700000000, Some (Some ''{}'')), (demo_moment 1700000001, None), (demo_moment 1700000002, Some None)]
   = ([True, False, True], demo_state)"
proof -
  have full: "\<forall>job. try_send (bounded_channel 0) (publish_queue demo_state) job = SendFull"
    by (simp add: bounded_channel_def)
  show ?thesis unfolding kafka_ingress_loses_events [OF full] by simp
qed

text \<open>A server with one client, whose webhook is queued.\<close>

definition demo_selection :: ingress_runtime_selection where
  "demo_selection = \<lparr>sel_http_path = ''/webhook/{source}'', sel_http_adapter_id = None, sel_http_plugins = [],
     sel_websocket = None, sel_mcp = None, sel_kafka = []\<rparr>"

definition demo_web :: web where
  "demo_web = \<lparr>web_table_ok = \<lambda>_. True, web_route = \<lambda>_ _. Some (''/webhook/{source}'', Some [''github'']),
     web_own_answer = \<lambda>code. (code, JNull),
     web_path_param = \<lambda>captured. (case captured of Some [p] \<Rightarrow> Inr p | _ \<Rightarrow> Inl 500),
     web_bytes = \<lambda>limit call. if limit < length (call_body call) then Inl 413 else Inr (call_body call),
     web_json_body = \<lambda>_ _. Inl 415,
     web_upgrade_refused = \<lambda>_. Some 426\<rparr>"

definition demo_governor :: "nat governor" where
  "demo_governor =
    \<lparr>gov_layer = \<lambda>s _ used call.
       (if call_method call \<notin> set (gs_methods s) then (None, used)
        else (case gs_key s call of
                Inl _ \<Rightarrow> (Some 500, used)
              | Inr _ \<Rightarrow> if used < unat (gs_burst_size s) then (None, Suc used) else (Some 429, used))),
     gov_admits = \<lambda>_ burst used _ _. used < unat burst, gov_contains = \<lambda>_ _. False\<rparr>"

definition demo_call :: http_call where
  "demo_call = \<lparr>call_method = MethodPost, call_path = ''/webhook/github'', call_headers = demo_request,
     call_body = ''{}'', call_peer = Some (V4 [10, 0, 0, 1]), call_frames = []\<rparr>"

lemma demo_web_ok: "web_ok demo_web" "governor_ok demo_governor"
  by (auto simp: web_ok_def demo_web_def governor_ok_def demo_governor_def split: sum.splits if_splits)

theorem http_growth_limited_witness:
  "\<exists>answer g' st'.
     serve_call demo_web demo_governor demo_webhook_crates demo_ingress_crates (bounded_channel 1) (demo_moment 1700000000)
       demo_selection (0, demo_state) demo_call = (answer, g', st')
     \<and> publish_queue st' \<noteq> publish_queue demo_state
     \<and> within_limits demo_governor demo_config (demo_moment 1700000000) 0 demo_call"
proof -
  let ?w = "webhook_handler demo_webhook_crates (bounded_channel 1) (demo_moment 1700000000) demo_state ''github'' demo_request ''{}''"
  have "(2::u64) \<le> max_payload_bytes demo_config" "(1::u32) \<le> ip_limit_per_minute demo_config" by code_simp+
  then have small: "\<not> unat (max_payload_bytes demo_config) < 2" and budget: "0 < unat (ip_limit_per_minute demo_config)"
    by (simp_all add: word_le_nat_alt)
  have proxies: "\<not> trust_proxy_headers demo_config" by code_simp
  have "gov_layer demo_governor (governor_config (gov_contains demo_governor) demo_config) (demo_moment 1700000000) 0 demo_call =
      (None, 1)"
    using budget proxies
    by (simp add: governor_config_def demo_call_def demo_governor_def extract_key_def ip_key_extractor_def)
  moreover have "route_call demo_web demo_webhook_crates demo_ingress_crates (bounded_channel 1) (demo_moment 1700000000)
      demo_selection demo_state demo_call = map_prod Answered id ?w"
    using small by (simp add: route_call_def run_endpoint_def demo_web_def demo_selection_def demo_call_def
        http_routes_def demo_state_def)
  ultimately have call: "serve_call demo_web demo_governor demo_webhook_crates demo_ingress_crates (bounded_channel 1)
      (demo_moment 1700000000) demo_selection (0, demo_state) demo_call = (Answered (fst ?w), 1, snd ?w)"
    by (simp add: serve_call_def demo_state_def case_prod_unfold)
  have "try_send (bounded_channel 1) (publish_queue demo_state) job = SendOk" for job
    by (simp add: bounded_channel_def demo_state_def)
  with admitted_complete [OF demo_admitted] have "fst ?w = ok_response ''e1''" by (simp add: demo_moment_def)
  then have grown: "publish_queue (snd ?w) \<noteq> publish_queue demo_state"
    using webhook_handler_outcome [of "bounded_channel 1" "demo_moment 1700000000" demo_state demo_webhook_crates
        "''github''" demo_request "''{}''"] by (auto simp: outcome_def demo_moment_def)
  from http_growth_limited [OF demo_web_ok call grown] call grown show ?thesis
    by (simp add: demo_call_def demo_state_def)
qed

end
