(* ===== verification/Smash_Config.thy ===== *)
theory Smash_Config
  imports Serve_Config Wildcard
begin

section \<open>Configuration of the consumer\<close>

text \<open>
  \<open>crates/hook-runtime/src/smash/config.rs\<close>: routes, output adapters and transports of the
  consumer, read from the environment (JSON lists, or the legacy single OpenClaw output) and
  validated. The readers serde generates for the three lists are the fields of \<open>smash_crates\<close>.
  The duplicate checks of the source run over a \<open>BTreeSet\<close> filled on the way; here the set is the
  list of the ids seen so far.
\<close>

subsection \<open>Data\<close>

record route_destination =
  dest_adapter_id :: string
  dest_required :: bool

record smash_route =
  sroute_id :: string
  source_topic_pattern :: string
  event_filters :: "string list"
  destinations :: "route_destination list"

datatype smash_plugin =
    SmashEventTypeAlias string string
  | SmashRequirePayloadField string
  | SmashAddMetaFlag string

datatype smash_adapter =
    OpenclawHttpOutput (oc_id: string) (oc_url: string) (oc_token_env: string)
      (oc_timeout_seconds: u64) (oc_max_retries: u32) (oc_plugins: "smash_plugin list")
  | McpToolOutput (mt_id: string) (mt_tool_name: string) (mt_transport_ref: string)
      (mt_plugins: "smash_plugin list")
  | WebsocketClientOutput (wc_id: string) (wc_url: string) (wc_auth_mode: string)
      (wc_token_env: "string option") (wc_send_timeout_ms: u64) (wc_retry_max_retries: u32)
      (wc_retry_backoff_ms: u64) (wc_plugins: "smash_plugin list")
  | WebsocketServerOutput (wso_id: string) (wso_bind: string) (wso_path: string) (wso_auth_mode: string)
      (wso_token_env: "string option") (wso_max_clients: usize) (wso_queue_depth: usize)
      (wso_send_timeout_ms: u64) (wso_plugins: "smash_plugin list")
  | KafkaOutput (ko_id: string) (ko_topic: string) (ko_key_mode: string) (ko_plugins: "smash_plugin list")

datatype smash_transport =
    StdioJsonrpc (sj_name: string) (sj_command: string) (sj_args: "string list") (sj_env: "(string \<times> string) list")
  | HttpSse (hs_name: string) (hs_url: string) (hs_auth_mode: string) (hs_token_env: "string option")

datatype no_output_sink = SinkDiscard | SinkDlq

record smash_config =
  sc_kafka_brokers :: string
  sc_kafka_sasl_username :: "string option"
  sc_kafka_sasl_password :: "string option"
  sc_kafka_security_protocol :: string
  sc_kafka_sasl_mechanism :: "string option"
  sc_kafka_group_id :: string
  sc_kafka_topics :: "string list"
  openclaw_message_max_bytes :: usize
  dlq_topic :: string
  backoff_base_seconds :: u64
  backoff_max_seconds :: u64
  smash_routes :: "smash_route list"
  smash_adapters :: "smash_adapter list"
  smash_transports :: "smash_transport list"
  allow_no_output :: bool
  sc_no_output_sink :: "no_output_sink option"

record smash_crates =
  de_smash_routes :: "string \<Rightarrow> smash_route list option"
  de_smash_adapters :: "string \<Rightarrow> smash_adapter list option"
  de_smash_transports :: "string \<Rightarrow> smash_transport list option"

subsection \<open>Accessors\<close>

fun adapter_id :: "smash_adapter \<Rightarrow> string" where
  "adapter_id (OpenclawHttpOutput i _ _ _ _ _) = i"
| "adapter_id (McpToolOutput i _ _ _) = i"
| "adapter_id (WebsocketClientOutput i _ _ _ _ _ _ _) = i"
| "adapter_id (WebsocketServerOutput i _ _ _ _ _ _ _ _) = i"
| "adapter_id (KafkaOutput i _ _ _) = i"

fun adapter_plugins :: "smash_adapter \<Rightarrow> smash_plugin list" where
  "adapter_plugins (OpenclawHttpOutput _ _ _ _ _ ps) = ps"
| "adapter_plugins (McpToolOutput _ _ _ ps) = ps"
| "adapter_plugins (WebsocketClientOutput _ _ _ _ _ _ _ ps) = ps"
| "adapter_plugins (WebsocketServerOutput _ _ _ _ _ _ _ _ ps) = ps"
| "adapter_plugins (KafkaOutput _ _ _ ps) = ps"

fun transport_name :: "smash_transport \<Rightarrow> string" where
  "transport_name (StdioJsonrpc n _ _ _) = n"
| "transport_name (HttpSse n _ _ _) = n"

subsection \<open>Reading the environment\<close>

definition smash_required_env :: "env \<Rightarrow> string \<Rightarrow> string result" where
  "smash_required_env e name =
     and_then (ok_or (''missing env var: '' @ name) (e name)) (\<lambda>v.
       if blank v then Inl (''env var '' @ name @ '' cannot be empty'') else Inr v)"

definition smash_env_u32 :: "env \<Rightarrow> string \<Rightarrow> u32 \<Rightarrow> u32 result" where
  "smash_env_u32 = env_number parse_u32 ''u32''"

definition smash_env_u64 :: "env \<Rightarrow> string \<Rightarrow> u64 \<Rightarrow> u64 result" where
  "smash_env_u64 = env_number parse_u64 ''u64''"

definition smash_env_usize :: "env \<Rightarrow> string \<Rightarrow> usize \<Rightarrow> usize result" where
  "smash_env_usize = env_number parse_u64 ''usize''"

definition smash_env_bool :: "env \<Rightarrow> string \<Rightarrow> bool \<Rightarrow> bool" where
  "smash_env_bool e name dflt =
     (case e name of
        Some v \<Rightarrow> to_ascii_lowercase (trim v) \<in> {''1'', ''true'', ''yes'', ''on''}
      | None \<Rightarrow> dflt)"

definition parse_csv_topics :: "string \<Rightarrow> string list" where
  "parse_csv_topics raw = split_trimmed (CHR '','') raw"

definition json_list_env :: "(string \<Rightarrow> 'a list option) \<Rightarrow> env \<Rightarrow> string \<Rightarrow> 'a list result" where
  "json_list_env de e name =
     (case e name of
        None \<Rightarrow> Inr []
      | Some raw \<Rightarrow> if blank raw then Inr [] else ok_or (''parse '' @ name) (de raw))"

definition parse_routes_json_env :: "smash_crates \<Rightarrow> env \<Rightarrow> smash_route list result" where
  "parse_routes_json_env sc e = json_list_env (de_smash_routes sc) e ''HOOK_SMASH_ROUTES_JSON''"

definition parse_adapters_json_env :: "smash_crates \<Rightarrow> env \<Rightarrow> smash_adapter list result" where
  "parse_adapters_json_env sc e = json_list_env (de_smash_adapters sc) e ''HOOK_SMASH_ADAPTERS_JSON''"

definition parse_transports_json_env :: "smash_crates \<Rightarrow> env \<Rightarrow> smash_transport list result" where
  "parse_transports_json_env sc e = json_list_env (de_smash_transports sc) e ''HOOK_SMASH_TRANSPORTS_JSON''"

fun derive_topics_loop :: "smash_route list \<Rightarrow> string list \<Rightarrow> string list result" where
  "derive_topics_loop [] topics = Inr topics"
| "derive_topics_loop (route # routes) topics =
     (let pattern = trim (source_topic_pattern route)
      in if pattern = [] then derive_topics_loop routes topics
         else if contains_sub ''*'' pattern
         then Inl (''route '' @ quoted (sroute_id route) @ '' has wildcard source_topic_pattern ''
                     @ quoted pattern @ ''; set explicit KAFKA_TOPICS'')
         else derive_topics_loop routes (set_insert pattern topics))"

definition derive_topics_from_routes :: "smash_route list \<Rightarrow> string list result" where
  "derive_topics_from_routes routes = derive_topics_loop routes []"

definition parse_no_output_sink :: "string option \<Rightarrow> no_output_sink option result" where
  "parse_no_output_sink raw =
     (case raw of
        None \<Rightarrow> Inr None
      | Some v \<Rightarrow>
          let w = to_ascii_lowercase (trim v)
          in if w = [] then Inr None
             else if w = ''discard'' then Inr (Some SinkDiscard)
             else if w = ''dlq'' then Inr (Some SinkDlq)
             else Inl (''invalid HOOK_NO_OUTPUT_SINK='' @ quoted w @ ''; expected discard or dlq''))"

subsection \<open>Validation\<close>

definition validate_smash_plugin :: "string \<Rightarrow> smash_plugin \<Rightarrow> unit result" where
  "validate_smash_plugin aid plugin =
     (let at = ''smash adapter '' @ quoted aid
      in case plugin of
           SmashEventTypeAlias from to \<Rightarrow>
             ensure (\<not> (blank from \<or> blank to)) (at @ '' event_type_alias plugin requires non-empty from/to'')
         | SmashRequirePayloadField pointer \<Rightarrow> checks
             [ensure (\<not> blank pointer) (at @ '' require_payload_field plugin requires non-empty pointer''),
              ensure (starts_with ''/'' pointer)
                (at @ '' require_payload_field pointer must start with '' @ quoted ''/'')]
         | SmashAddMetaFlag flag \<Rightarrow>
             ensure (\<not> blank flag) (at @ '' add_meta_flag plugin requires non-empty flag''))"

definition validate_smash_plugins :: "smash_plugin list \<Rightarrow> string \<Rightarrow> unit result" where
  "validate_smash_plugins plugins aid = for_each (validate_smash_plugin aid) plugins"

definition nonblank_field :: "string \<Rightarrow> string \<Rightarrow> string \<Rightarrow> unit result" where
  "nonblank_field aid field v =
     ensure (\<not> blank v) (''smash adapter '' @ quoted aid @ '' '' @ field @ '' cannot be empty'')"

definition token_env_present :: "string \<Rightarrow> string \<Rightarrow> string option \<Rightarrow> unit result" where
  "token_env_present aid auth_mode token_env =
     ensure (\<not> (trim auth_mode \<noteq> ''none'' \<and> (case token_env of None \<Rightarrow> True | Some t \<Rightarrow> blank t)))
       (''smash adapter '' @ quoted aid @ '' auth_mode '' @ quoted auth_mode @ '' requires token_env'')"

definition validate_kafka_output :: "string \<Rightarrow> string \<Rightarrow> string \<Rightarrow> smash_plugin list \<Rightarrow> unit result" where [simp]:
  "validate_kafka_output aid topic key_mode plugins = checks
     [nonblank_field aid ''topic'' topic,
      ensure (trim key_mode \<in> {''event_id'', ''source'', ''none''})
        (''smash adapter '' @ quoted aid @ '' key_mode must be event_id|source|none''),
      validate_smash_plugins plugins aid]"

definition validate_smash_adapter :: "smash_transport list \<Rightarrow> smash_adapter \<Rightarrow> unit result" where
  "validate_smash_adapter transports adapter =
     (let aid = adapter_id adapter; at = ''smash adapter '' @ quoted aid
      in case adapter of
           OpenclawHttpOutput i url token_env timeout_seconds max_retries plugins \<Rightarrow> checks
             [nonblank_field aid ''url'' url,
              nonblank_field aid ''token_env'' token_env,
              ensure (timeout_seconds \<noteq> 0) (at @ '' timeout_seconds must be greater than 0''),
              validate_smash_plugins plugins aid]
         | McpToolOutput i tool_name transport_ref plugins \<Rightarrow> checks
             [nonblank_field aid ''tool_name'' tool_name,
              nonblank_field aid ''transport_ref'' transport_ref,
              ensure (\<exists>transport \<in> set transports. transport_name transport = transport_ref)
                (at @ '' references unknown transport '' @ quoted transport_ref),
              validate_smash_plugins plugins aid]
         | WebsocketClientOutput i url auth_mode token_env send_timeout_ms retries backoff plugins \<Rightarrow> checks
             [nonblank_field aid ''url'' url,
              nonblank_field aid ''auth_mode'' auth_mode,
              ensure (send_timeout_ms \<noteq> 0) (at @ '' send_timeout_ms must be greater than 0''),
              ensure (trim auth_mode \<in> {''none'', ''bearer'', ''hmac''})
                (at @ '' unsupported auth_mode '' @ quoted auth_mode),
              token_env_present aid auth_mode token_env,
              validate_smash_plugins plugins aid]
         | WebsocketServerOutput i bind path auth_mode token_env max_clients queue_depth send_timeout_ms plugins \<Rightarrow> checks
             [nonblank_field aid ''bind'' bind,
              nonblank_field aid ''path'' path,
              nonblank_field aid ''auth_mode'' auth_mode,
              ensure (max_clients \<noteq> 0) (at @ '' max_clients must be positive''),
              ensure (queue_depth \<noteq> 0) (at @ '' queue_depth_per_client must be positive''),
              ensure (send_timeout_ms \<noteq> 0) (at @ '' send_timeout_ms must be greater than 0''),
              token_env_present aid auth_mode token_env,
              validate_smash_plugins plugins aid]
         | KafkaOutput i topic key_mode plugins \<Rightarrow> validate_kafka_output aid topic key_mode plugins)"

fun validate_adapters_loop :: "smash_transport list \<Rightarrow> smash_adapter list \<Rightarrow> string list \<Rightarrow> string list result" where
  "validate_adapters_loop transports [] seen = Inr seen"
| "validate_adapters_loop transports (adapter # adapters) seen =
     (let aid = adapter_id adapter
      in if blank aid then Inl ''smash adapter id cannot be empty''
         else if aid \<in> set seen then Inl (''duplicate smash adapter id '' @ quoted aid)
         else and_then (validate_smash_adapter transports adapter) (\<lambda>_.
                validate_adapters_loop transports adapters (aid # seen)))"

definition validate_destination :: "string list \<Rightarrow> string \<Rightarrow> route_destination \<Rightarrow> unit result" where
  "validate_destination adapter_ids rid destination =
     ensure (dest_adapter_id destination \<in> set adapter_ids)
       (''smash route '' @ quoted rid @ '' references unknown adapter '' @ quoted (dest_adapter_id destination))"

text \<open>The route loop counts the destinations it accepts.\<close>

fun validate_routes_loop :: "string list \<Rightarrow> smash_route list \<Rightarrow> string list \<Rightarrow> usize \<Rightarrow> usize result" where
  "validate_routes_loop adapter_ids [] seen active = Inr active"
| "validate_routes_loop adapter_ids (route # routes) seen active =
     (if blank (sroute_id route) then Inl ''smash route id cannot be empty''
      else if sroute_id route \<in> set seen then Inl (''duplicate smash route id '' @ quoted (sroute_id route))
      else if blank (source_topic_pattern route)
      then Inl (''smash route '' @ quoted (sroute_id route) @ '' source_topic_pattern cannot be empty'')
      else and_then (for_each (validate_destination adapter_ids (sroute_id route)) (destinations route)) (\<lambda>_.
             validate_routes_loop adapter_ids routes (sroute_id route # seen)
               (fold (\<lambda>_ n. saturating_add n 1) (destinations route) active)))"

definition validate_zero_outputs :: "smash_config \<Rightarrow> bool \<Rightarrow> unit result" where [simp]:
  "validate_zero_outputs c using_legacy_fallback = checks
     [ensure (allow_no_output c) ''profile has zero active smash outputs and HOOK_ALLOW_NO_OUTPUT is false'',
      ensure (sc_no_output_sink c \<noteq> None) ''HOOK_ALLOW_NO_OUTPUT=true requires HOOK_NO_OUTPUT_SINK=discard|dlq'',
      ensure (\<not> using_legacy_fallback)
        ''legacy smash mode cannot run with zero outputs; provide OPENCLAW_WEBHOOK_URL/OPENCLAW_WEBHOOK_TOKEN'']"

definition validate_smash_config :: "smash_config \<Rightarrow> bool \<Rightarrow> unit result" where
  "validate_smash_config c using_legacy_fallback =
     and_then (ensure (128 \<le> openclaw_message_max_bytes c) ''OPENCLAW_MESSAGE_MAX_BYTES must be at least 128'') (\<lambda>_.
     and_then (ensure (\<not> blank (dlq_topic c)) ''KAFKA_DLQ_TOPIC cannot be empty'') (\<lambda>_.
     and_then (validate_adapters_loop (smash_transports c) (smash_adapters c) []) (\<lambda>adapter_ids.
     and_then (validate_routes_loop adapter_ids (smash_routes c) [] 0) (\<lambda>active_destinations.
       if active_destinations = 0 then validate_zero_outputs c using_legacy_fallback else Inr ()))))"

subsection \<open>\<open>Config::from_env\<close>\<close>

definition legacy_route :: "string \<Rightarrow> smash_route" where
  "legacy_route topic =
     \<lparr>sroute_id = ''legacy-'' @ replace_char (CHR ''.'') ''-'' topic, source_topic_pattern = topic,
      event_filters = [], destinations = [\<lparr>dest_adapter_id = ''openclaw-output'', dest_required = True\<rparr>]\<rparr>"

type_synonym smash_plan = "smash_route list \<times> smash_adapter list \<times> smash_transport list \<times> bool"

definition read_smash_plan :: "env \<Rightarrow> string list option \<Rightarrow> smash_route list \<Rightarrow> smash_adapter list \<Rightarrow>
   smash_transport list \<Rightarrow> smash_plan result" where
  "read_smash_plan e topics_from_env routes adapters transports =
     (if routes \<noteq> [] \<or> adapters \<noteq> [] then
        if routes = [] then Inl ''HOOK_SMASH_ROUTES_JSON is required when HOOK_SMASH_ADAPTERS_JSON is provided''
        else if adapters = [] then Inl ''HOOK_SMASH_ADAPTERS_JSON is required when HOOK_SMASH_ROUTES_JSON is provided''
        else Inr (routes, adapters, transports, False)
      else
        and_then (smash_required_env e ''OPENCLAW_WEBHOOK_URL'') (\<lambda>url.
        and_then (smash_env_u64 e ''OPENCLAW_HTTP_TIMEOUT_SECONDS'' 20) (\<lambda>timeout.
        and_then (smash_env_u32 e ''CONSUMER_MAX_RETRIES'' 5) (\<lambda>retries.
          Inr (map legacy_route (unwrap_or [''webhooks.github'', ''webhooks.linear''] topics_from_env),
               [OpenclawHttpOutput ''openclaw-output'' url ''OPENCLAW_WEBHOOK_TOKEN'' timeout retries []],
               [], True)))))"

definition read_smash_config :: "env \<Rightarrow> string list \<Rightarrow> smash_plan \<Rightarrow> bool \<Rightarrow> no_output_sink option \<Rightarrow> smash_config result" where
  "read_smash_config e topics plan no_output sink =
     (case plan of (routes, adapters, transports, legacy) \<Rightarrow>
       and_then (smash_required_env e ''KAFKA_BROKERS'') (\<lambda>brokers.
       and_then (smash_env_usize e ''OPENCLAW_MESSAGE_MAX_BYTES'' 4000) (\<lambda>max_bytes.
       and_then (smash_env_u64 e ''CONSUMER_BACKOFF_BASE_SECONDS'' 1) (\<lambda>backoff_base.
       and_then (smash_env_u64 e ''CONSUMER_BACKOFF_MAX_SECONDS'' 30) (\<lambda>backoff_max.
         Inr \<lparr>sc_kafka_brokers = brokers,
              sc_kafka_sasl_username = opt_filter (\<lambda>v. \<not> blank v) (e ''KAFKA_SASL_USERNAME''),
              sc_kafka_sasl_password = opt_filter (\<lambda>v. \<not> blank v) (e ''KAFKA_SASL_PASSWORD''),
              sc_kafka_security_protocol = unwrap_or ''PLAINTEXT'' (e ''KAFKA_SECURITY_PROTOCOL''),
              sc_kafka_sasl_mechanism = opt_filter (\<lambda>v. \<not> blank v) (e ''KAFKA_SASL_MECHANISM''),
              sc_kafka_group_id = unwrap_or ''kafka-openclaw-hook'' (e ''KAFKA_GROUP_ID''),
              sc_kafka_topics = topics,
              openclaw_message_max_bytes = max_bytes,
              dlq_topic = unwrap_or ''webhooks.dlq'' (e ''KAFKA_DLQ_TOPIC''),
              backoff_base_seconds = backoff_base,
              backoff_max_seconds = backoff_max,
              smash_routes = routes, smash_adapters = adapters, smash_transports = transports,
              allow_no_output = no_output, sc_no_output_sink = sink\<rparr>)))))"

definition smash_from_env :: "smash_crates \<Rightarrow> env \<Rightarrow> smash_config result" where
  "smash_from_env sc e =
     (let topics_from_env = opt_filter (\<lambda>topics. topics \<noteq> []) (map_option parse_csv_topics (e ''KAFKA_TOPICS''));
          no_output = smash_env_bool e ''HOOK_ALLOW_NO_OUTPUT'' False
      in and_then (parse_no_output_sink (e ''HOOK_NO_OUTPUT_SINK'')) (\<lambda>sink.
         and_then (parse_routes_json_env sc e) (\<lambda>routes.
         and_then (parse_adapters_json_env sc e) (\<lambda>adapters.
         and_then (parse_transports_json_env sc e) (\<lambda>transports.
         and_then (read_smash_plan e topics_from_env routes adapters transports) (\<lambda>plan.
         and_then (case topics_from_env of Some topics \<Rightarrow> Inr topics | None \<Rightarrow> derive_topics_from_routes (fst plan))
           (\<lambda>topics.
         if topics = [] then Inl ''KAFKA_TOPICS cannot be empty'' else
         and_then (read_smash_config e topics plan no_output sink) (\<lambda>config.
         and_then (validate_smash_config config (snd (snd (snd plan)))) (\<lambda>_. Inr config)))))))))"

subsection \<open>What a loaded configuration guarantees\<close>

definition smash_config_wf :: "smash_config \<Rightarrow> bool" where
  "smash_config_wf c \<longleftrightarrow>
     128 \<le> unat (openclaw_message_max_bytes c) \<and> \<not> blank (dlq_topic c) \<and> sc_kafka_topics c \<noteq> [] \<and>
     distinct (map adapter_id (smash_adapters c)) \<and> (\<forall>a \<in> set (smash_adapters c). \<not> blank (adapter_id a)) \<and>
     (\<forall>a \<in> set (smash_adapters c). validate_smash_adapter (smash_transports c) a = Inr ()) \<and>
     distinct (map sroute_id (smash_routes c)) \<and>
     (\<forall>r \<in> set (smash_routes c). \<not> blank (sroute_id r) \<and> \<not> blank (source_topic_pattern r) \<and>
        (\<forall>d \<in> set (destinations r). dest_adapter_id d \<in> adapter_id ` set (smash_adapters c))) \<and>
     ((\<forall>r \<in> set (smash_routes c). destinations r = []) \<longrightarrow> allow_no_output c \<and> sc_no_output_sink c \<noteq> None)"

lemma validate_adapters_loop_ok:
  assumes "validate_adapters_loop ts as seen = Inr ids"
  shows "distinct (map adapter_id as) \<and> adapter_id ` set as \<inter> set seen = {} \<and>
     set ids = adapter_id ` set as \<union> set seen \<and>
     (\<forall>a \<in> set as. \<not> blank (adapter_id a) \<and> validate_smash_adapter ts a = Inr ())"
  using assms
  by (induction ts as seen rule: validate_adapters_loop.induct)
     (auto simp: Let_def and_then_Inr_iff split: if_splits)

lemma count_destinations:
  "unat (fold (\<lambda>_ n. saturating_add n 1) ds (n :: usize)) = min (unat n + length ds) (2 ^ 64 - 1)"
proof (induction ds arbitrary: n)
  case Nil
  have "unat n < 2 ^ LENGTH(64)" by (rule unsigned_less)
  then show ?case by simp
next
  case (Cons d ds)
  then show ?case by (simp add: unat_saturating_add)
qed

lemma validate_routes_loop_ok:
  assumes "validate_routes_loop ids rs seen active = Inr n"
  shows "distinct (map sroute_id rs) \<and> sroute_id ` set rs \<inter> set seen = {} \<and>
     (\<forall>r \<in> set rs. \<not> blank (sroute_id r) \<and> \<not> blank (source_topic_pattern r) \<and>
        (\<forall>d \<in> set (destinations r). dest_adapter_id d \<in> set ids)) \<and>
     unat n = min (unat active + (\<Sum>r \<leftarrow> rs. length (destinations r))) (2 ^ 64 - 1)"
  using assms
proof (induction ids rs seen active rule: validate_routes_loop.induct)
  case (1 ids seen active)
  have "unat active < 2 ^ LENGTH(64)" by (rule unsigned_less)
  with 1 show ?case by simp
next
  case (2 ids r rs seen active)
  from 2(2) have ok: "\<not> blank (sroute_id r)" "sroute_id r \<notin> set seen" "\<not> blank (source_topic_pattern r)"
      "\<forall>d \<in> set (destinations r). dest_adapter_id d \<in> set ids"
    and rest: "validate_routes_loop ids rs (sroute_id r # seen)
      (fold (\<lambda>_ n. saturating_add n 1) (destinations r) active) = Inr n"
    by (auto simp: validate_destination_def result_iffs split: if_splits)
  from 2(1) [OF ok(1-3) rest] 2(2) ok show ?case
    by (auto simp: count_destinations and_then_Inr_iff split: if_splits)
qed

lemma validate_smash_config_ok:
  assumes "validate_smash_config c legacy = Inr ()" "sc_kafka_topics c \<noteq> []"
  shows "smash_config_wf c"
proof -
  obtain ids n where m: "128 \<le> openclaw_message_max_bytes c" "\<not> blank (dlq_topic c)"
    and a: "validate_adapters_loop (smash_transports c) (smash_adapters c) [] = Inr ids"
    and r: "validate_routes_loop ids (smash_routes c) [] 0 = Inr n"
    and z: "n = 0 \<Longrightarrow> allow_no_output c \<and> sc_no_output_sink c \<noteq> None"
    using assms(1) by (auto simp: validate_smash_config_def and_then_Inr_iff ensure_Inr_iff checks_Inr_iff
        split: if_splits)
  note A = validate_adapters_loop_ok [OF a] and R = validate_routes_loop_ok [OF r]
  have ids: "set ids = adapter_id ` set (smash_adapters c)" using A by simp
  have "n = 0" if "\<forall>r \<in> set (smash_routes c). destinations r = []"
  proof -
    have zero: "(\<Sum>r \<leftarrow> smash_routes c. length (destinations r)) = 0" using that by (simp add: sum_list_eq_0_iff)
    have "unat n = min (unat (0 :: usize) + (\<Sum>r \<leftarrow> smash_routes c. length (destinations r))) (2 ^ 64 - 1)"
      using R by blast
    then have "unat n = 0" unfolding zero by simp
    then show ?thesis by (simp add: unat_eq_0)
  qed
  with z have sink: "(\<forall>r \<in> set (smash_routes c). destinations r = []) \<longrightarrow>
      allow_no_output c \<and> sc_no_output_sink c \<noteq> None" by blast
  have m128: "128 \<le> unat (openclaw_message_max_bytes c)" using m(1) by (simp add: word_le_nat_alt)
  show ?thesis
    unfolding smash_config_wf_def using A R m(2) m128 assms(2) sink ids by simp
qed

lemma smash_from_env_wf:
  assumes "smash_from_env sc e = Inr c"
  shows "smash_config_wf c"
proof -
  obtain plan topics no_output sink where
    t: "topics \<noteq> []" and r: "read_smash_config e topics plan no_output sink = Inr c"
    and v: "validate_smash_config c (snd (snd (snd plan))) = Inr ()"
    using assms by (auto simp: smash_from_env_def Let_def and_then_Inr_iff split: if_splits)
  have "sc_kafka_topics c = topics"
    using r by (auto simp: read_smash_config_def and_then_Inr_iff split: prod.splits)
  with t v show ?thesis by (intro validate_smash_config_ok) auto
qed

subsection \<open>Topics derived from the routes\<close>

lemma derive_topics_loop_set:
  "derive_topics_loop rs ts = Inr topics \<Longrightarrow>
     set topics = set ts \<union> {trim (source_topic_pattern r) | r. r \<in> set rs \<and> \<not> blank (source_topic_pattern r)}
     \<and> (\<forall>r \<in> set rs. CHR ''*'' \<notin> set (trim (source_topic_pattern r)))"
  by (induction rs ts rule: derive_topics_loop.induct)
     (auto simp: Let_def blank_def contains_star set_set_insert split: if_splits)

subsection \<open>Properties\<close>

text \<open>Every configuration the consumer starts with is well-formed: adapter and route ids are
  distinct and not blank, every adapter passes its own checks (an MCP output names an existing
  transport), every destination of every route names a configured adapter, and a configuration
  without any destination is accepted only with \<open>allow_no_output\<close> and a sink.\<close>

theorem smash_from_env_config_wf:
  assumes "smash_from_env sc e = Inr c"
  shows "smash_config_wf c"
  using assms by (rule smash_from_env_wf)

definition demo_smash_crates :: smash_crates where
  "demo_smash_crates = \<lparr>de_smash_routes = \<lambda>_. None, de_smash_adapters = \<lambda>_. None, de_smash_transports = \<lambda>_. None\<rparr>"

definition demo_smash_env :: env where
  "demo_smash_env = map_of [(''KAFKA_BROKERS'', ''broker:9092''), (''OPENCLAW_WEBHOOK_URL'', ''http://openclaw/hook'')]"

definition demo_smash_config :: smash_config where
  "demo_smash_config = projr (smash_from_env demo_smash_crates demo_smash_env)"

lemma demo_smash_loaded: "smash_from_env demo_smash_crates demo_smash_env = Inr demo_smash_config"
proof -
  have "\<not> isl (smash_from_env demo_smash_crates demo_smash_env)" by code_simp
  then show ?thesis
    by (cases "smash_from_env demo_smash_crates demo_smash_env") (auto simp: demo_smash_config_def)
qed

theorem smash_from_env_config_wf_witness: "smash_config_wf demo_smash_config"
  by (rule smash_from_env_config_wf [OF demo_smash_loaded])

text \<open>Topics derived from the routes cover them: without \<open>KAFKA_TOPICS\<close> the consumer subscribes to
  exactly the trimmed patterns of its routes, and each route matches precisely its own topic; a
  pattern with a star is refused instead of being subscribed to literally.\<close>

theorem derived_topics_cover_routes:
  assumes "derive_topics_from_routes rs = Inr topics" "r \<in> set rs" "\<not> blank (source_topic_pattern r)"
  shows "trim (source_topic_pattern r) \<in> set topics
     \<and> (\<forall>topic. smash_wildcard_matches (source_topic_pattern r) topic \<longleftrightarrow> topic = trim (source_topic_pattern r))"
proof -
  from derive_topics_loop_set [of rs "[]" topics] assms
  have "trim (source_topic_pattern r) \<in> set topics" "CHR ''*'' \<notin> set (trim (source_topic_pattern r))"
    by (auto simp: derive_topics_from_routes_def)
  with smash.literal_exact assms(3) show ?thesis by (simp add: blank_def)
qed

theorem derived_topics_cover_routes_witness:
  "smash_wildcard_matches ''webhooks.github'' ''webhooks.github''"
proof -
  have "derive_topics_from_routes [legacy_route ''webhooks.github''] = Inr [''webhooks.github'']"
    "\<not> blank ''webhooks.github''" "trim ''webhooks.github'' = ''webhooks.github''" by code_simp+
  with derived_topics_cover_routes [of "[legacy_route ''webhooks.github'']" "[''webhooks.github'']"
      "legacy_route ''webhooks.github''"] show ?thesis by (simp add: legacy_route_def)
qed

end
