(* ===== verification/Smash.thy ===== *)
theory Smash
  imports Smash_Config Sanitize
begin

section \<open>The consumer\<close>

text \<open>
  \<open>crates/hook-runtime/src/smash/consumer.rs\<close> and \<open>dlq.rs\<close>: a Kafka message is decoded, matched
  against the routes, delivered to required and then optional destinations, parked on the
  dead-letter topic when a required one fails, and its offset committed or not.

  What the consumer does to the world is a trace of \<open>effect\<close>s, the explicit state of every
  operation; what the world answers (an output adapter, the dead-letter producer, the offset
  commit) is the record \<open>world\<close>, whose functions see the trace so far, so that an answer may depend
  on everything that happened before.
\<close>

datatype delivery_outcome = Commit | DoNotCommit

text \<open>A delivery attempt carries whether the adapter accepted it.\<close>

datatype effect =
    Deliver string event_envelope bool
  | DlqPublish string dlq_envelope
  | CommitOffset string nat nat

type_synonym trace = "effect list"

record world =
  w_deliver :: "trace \<Rightarrow> string \<Rightarrow> event_envelope \<Rightarrow> unit result"
  w_dlq_serialize :: "dlq_envelope \<Rightarrow> string option"
  w_dlq_send :: "trace \<Rightarrow> string \<Rightarrow> string \<Rightarrow> string \<Rightarrow> unit result"
  w_commit :: "trace \<Rightarrow> bool"
  w_now :: "trace \<Rightarrow> string"

record kafka_consumer =
  con_adapters :: "string list"
  con_adapter_plugins :: "string \<rightharpoonup> smash_plugin list"
  con_routes :: "smash_route list"
  con_allow_no_output :: bool
  con_no_output_sink :: "no_output_sink option"
  con_dlq_topic :: string

text \<open>The adapters are built one per configured adapter; building them is the egress part.\<close>

definition consumer_from_config :: "smash_config \<Rightarrow> kafka_consumer" where
  "consumer_from_config c =
     \<lparr>con_adapters = map adapter_id (smash_adapters c),
      con_adapter_plugins = map_of (rev (map (\<lambda>a. (adapter_id a, adapter_plugins a)) (smash_adapters c))),
      con_routes = smash_routes c, con_allow_no_output = allow_no_output c,
      con_no_output_sink = sc_no_output_sink c, con_dlq_topic = dlq_topic c\<rparr>"

subsection \<open>Plugins and routes\<close>

definition add_meta_flag :: "string \<Rightarrow> event_envelope \<Rightarrow> event_envelope" where
  "add_meta_flag flag env =
     (let meta = unwrap_or default_event_meta (ev_meta env)
      in env\<lparr>ev_meta := Some (if flag \<in> set (meta_flags meta) then meta
                             else meta\<lparr>meta_flags := meta_flags meta @ [flag]\<rparr>)\<rparr>)"

fun smash_plugins_loop ::
  "crates \<Rightarrow> string \<Rightarrow> smash_plugin list \<Rightarrow> event_envelope \<Rightarrow> event_envelope result" where
  "smash_plugins_loop cr aid [] transformed = Inr transformed"
| "smash_plugins_loop cr aid (SmashEventTypeAlias from to # plugins) transformed =
     smash_plugins_loop cr aid plugins
       (if ev_type transformed = from then transformed\<lparr>ev_type := to\<rparr> else transformed)"
| "smash_plugins_loop cr aid (SmashRequirePayloadField pointer # plugins) transformed =
     (if json_pointer cr (ev_payload transformed) pointer = None
      then Inl (''smash adapter '' @ quoted aid @ '' plugin require_payload_field missing '' @ quoted pointer)
      else smash_plugins_loop cr aid plugins transformed)"
| "smash_plugins_loop cr aid (SmashAddMetaFlag flag # plugins) transformed =
     smash_plugins_loop cr aid plugins (add_meta_flag flag transformed)"

definition apply_smash_plugins ::
  "crates \<Rightarrow> string \<Rightarrow> smash_plugin list \<Rightarrow> event_envelope \<Rightarrow> event_envelope result" where
  "apply_smash_plugins cr aid plugins envelope =
     (if plugins = [] then Inr envelope else smash_plugins_loop cr aid plugins envelope)"

definition route_event_filter_match :: "smash_route \<Rightarrow> string \<Rightarrow> bool" where
  "route_event_filter_match route event_type =
     (if event_filters route = [] then True
      else (\<exists>f \<in> set (event_filters route). smash_wildcard_matches f event_type))"

definition route_matches :: "smash_route \<Rightarrow> string \<Rightarrow> string \<Rightarrow> bool" where
  "route_matches route topic event_type =
     (smash_wildcard_matches (source_topic_pattern route) topic \<and> route_event_filter_match route event_type)"

subsection \<open>Delivery\<close>

definition publish_failed ::
  "world \<Rightarrow> kafka_consumer \<Rightarrow> event_envelope \<Rightarrow> string \<Rightarrow> trace \<Rightarrow> unit result \<times> trace" where
  "publish_failed w con envelope error_message tr =
     (let dlq_payload = \<lparr>failed_at = w_now w tr, dlq_error = error_message, dlq_event = envelope\<rparr>
      in case w_dlq_serialize w dlq_payload of
           None \<Rightarrow> (Inl ''serialize dlq envelope'', tr)
         | Some payload \<Rightarrow>
             (case w_dlq_send w tr (con_dlq_topic con) (ev_id envelope) payload of
                Inl err \<Rightarrow> (Inl (''publish dlq message failed: '' @ err), tr)
              | Inr _ \<Rightarrow> (Inr (), tr @ [DlqPublish (con_dlq_topic con) dlq_payload])))"

definition deliver_destination ::
  "crates \<Rightarrow> world \<Rightarrow> kafka_consumer \<Rightarrow> string \<Rightarrow> event_envelope \<Rightarrow> trace \<Rightarrow> unit result \<times> trace" where
  "deliver_destination cr w con aid envelope tr =
     (if aid \<notin> set (con_adapters con) then (Inl (''no adapter configured for '' @ quoted aid), tr)
      else
        let plugins = unwrap_or [] (con_adapter_plugins con aid)
        in case apply_smash_plugins cr aid plugins envelope of
             Inl err \<Rightarrow> (Inl err, tr)
           | Inr transformed \<Rightarrow>
               let r = w_deliver w tr aid transformed in (r, tr @ [Deliver aid transformed (\<not> isl r)]))"

definition handle_no_output ::
  "world \<Rightarrow> kafka_consumer \<Rightarrow> event_envelope \<Rightarrow> string \<Rightarrow> trace \<Rightarrow> delivery_outcome result \<times> trace" where
  "handle_no_output w con envelope reason tr =
     (if \<not> con_allow_no_output con then (Inl reason, tr)
      else (case con_no_output_sink con of
              Some SinkDiscard \<Rightarrow> (Inr Commit, tr)
            | Some SinkDlq \<Rightarrow>
                (case publish_failed w con envelope reason tr of
                   (Inl _, tr') \<Rightarrow> (Inl ''publish no-output event to dlq'', tr')
                 | (Inr _, tr') \<Rightarrow> (Inr Commit, tr'))
            | None \<Rightarrow> (Inl ''allow_no_output=true requires no_output_sink, but none configured'', tr)))"

text \<open>The required destinations of a route: \<open>Inr False\<close> when one failed and was parked.\<close>

fun deliver_required ::
  "crates \<Rightarrow> world \<Rightarrow> kafka_consumer \<Rightarrow> string \<Rightarrow> event_envelope \<Rightarrow> route_destination list \<Rightarrow> trace \<Rightarrow>
   bool result \<times> trace" where
  "deliver_required cr w con rid envelope [] tr = (Inr True, tr)"
| "deliver_required cr w con rid envelope (destination # ds) tr =
     (case deliver_destination cr w con (dest_adapter_id destination) envelope tr of
        (Inr _, tr') \<Rightarrow> deliver_required cr w con rid envelope ds tr'
      | (Inl err, tr') \<Rightarrow>
          let reason = ''required destination adapter '' @ quoted (dest_adapter_id destination)
                         @ '' failed on route '' @ quoted rid @ '': '' @ err
          in case publish_failed w con envelope reason tr' of
               (Inl _, tr'') \<Rightarrow> (Inl ''publish required-delivery failure to dlq'', tr'')
             | (Inr _, tr'') \<Rightarrow> (Inr False, tr''))"

fun deliver_optional ::
  "crates \<Rightarrow> world \<Rightarrow> kafka_consumer \<Rightarrow> event_envelope \<Rightarrow> route_destination list \<Rightarrow> trace \<Rightarrow> trace" where
  "deliver_optional cr w con envelope [] tr = tr"
| "deliver_optional cr w con envelope (destination # ds) tr =
     deliver_optional cr w con envelope ds
       (snd (deliver_destination cr w con (dest_adapter_id destination) envelope tr))"

text \<open>The loop over the matched routes; the counter of the source only matters as zero or not.\<close>

fun deliver_routes ::
  "crates \<Rightarrow> world \<Rightarrow> kafka_consumer \<Rightarrow> event_envelope \<Rightarrow> smash_route list \<Rightarrow> usize \<Rightarrow> trace \<Rightarrow>
   (delivery_outcome option \<times> usize) result \<times> trace" where
  "deliver_routes cr w con envelope [] routed tr = (Inr (None, routed), tr)"
| "deliver_routes cr w con envelope (route # routes) routed tr =
     (let required_destinations = filter dest_required (destinations route);
          optional_destinations = filter (\<lambda>d. \<not> dest_required d) (destinations route)
      in case deliver_required cr w con (sroute_id route) envelope required_destinations tr of
           (Inl err, tr') \<Rightarrow> (Inl err, tr')
         | (Inr False, tr') \<Rightarrow> (Inr (Some DoNotCommit, routed), tr')
         | (Inr True, tr') \<Rightarrow>
             deliver_routes cr w con envelope routes
               (fold (\<lambda>_ n. saturating_add n 1) (destinations route) routed)
               (deliver_optional cr w con envelope optional_destinations tr'))"

definition deliver_to_routes ::
  "crates \<Rightarrow> world \<Rightarrow> kafka_consumer \<Rightarrow> string \<Rightarrow> event_envelope \<Rightarrow> trace \<Rightarrow> delivery_outcome result \<times> trace" where
  "deliver_to_routes cr w con topic envelope tr =
     (let matched_routes = filter (\<lambda>route. route_matches route topic (ev_type envelope)) (con_routes con);
          about = '' for topic '' @ quoted topic @ '' and event '' @ quoted (ev_type envelope)
      in if matched_routes = [] then
           handle_no_output w con envelope (''no matching smash route'' @ about) tr
         else
           (case deliver_routes cr w con envelope matched_routes 0 tr of
              (Inl err, tr') \<Rightarrow> (Inl err, tr')
            | (Inr (Some outcome, _), tr') \<Rightarrow> (Inr outcome, tr')
            | (Inr (None, routed_destination_count), tr') \<Rightarrow>
                if routed_destination_count = 0
                then handle_no_output w con envelope (''no active smash destinations'' @ about) tr'
                else (Inr Commit, tr')))"

subsection \<open>Messages\<close>

record kafka_message =
  msg_topic :: string
  msg_partition :: nat
  msg_offset :: nat
  msg_payload :: "string option"

definition process_message ::
  "crates \<Rightarrow> (string \<Rightarrow> event_envelope option) \<Rightarrow> world \<Rightarrow> kafka_consumer \<Rightarrow> kafka_message \<Rightarrow> trace \<Rightarrow> unit result \<times> trace" where
  "process_message cr de w con message tr =
     (case msg_payload message of
        None \<Rightarrow> (Inl ''kafka message missing payload'', tr)
      | Some payload_bytes \<Rightarrow>
          (case de payload_bytes of
             None \<Rightarrow> (Inl ''deserialize webhook envelope from kafka'', tr)
           | Some envelope \<Rightarrow>
               (case deliver_to_routes cr w con (msg_topic message) envelope tr of
                  (Inl _, tr') \<Rightarrow> (Inl (''deliver routed envelope event_id='' @ ev_id envelope), tr')
                | (Inr DoNotCommit, tr') \<Rightarrow> (Inr (), tr')
                | (Inr Commit, tr') \<Rightarrow>
                    if w_commit w tr'
                    then (Inr (), tr' @ [CommitOffset (msg_topic message) (msg_partition message) (msg_offset message)])
                    else (Inl ''commit kafka offset'', tr'))))"

text \<open>The consumer's loop: \<open>None\<close> is a poll error; an error of a message is logged and the loop goes on.\<close>

fun consumer_run ::
  "crates \<Rightarrow> (string \<Rightarrow> event_envelope option) \<Rightarrow> world \<Rightarrow> kafka_consumer \<Rightarrow> kafka_message option list \<Rightarrow> trace \<Rightarrow> trace" where
  "consumer_run cr de w con [] tr = tr"
| "consumer_run cr de w con (None # received) tr = consumer_run cr de w con received tr"
| "consumer_run cr de w con (Some message # received) tr =
     consumer_run cr de w con received (snd (process_message cr de w con message tr))"

subsection \<open>What a delivery leaves in the trace\<close>

text \<open>An adapter took the envelope, transformed by its plugins.\<close>

definition delivered :: "crates \<Rightarrow> kafka_consumer \<Rightarrow> string \<Rightarrow> event_envelope \<Rightarrow> trace \<Rightarrow> bool" where
  "delivered cr con aid envelope es \<longleftrightarrow>
     (\<exists>env'. apply_smash_plugins cr aid (unwrap_or [] (con_adapter_plugins con aid)) envelope = Inr env'
           \<and> Deliver aid env' True \<in> set es)"

text \<open>The envelope is on the dead-letter topic.\<close>

definition parked :: "kafka_consumer \<Rightarrow> event_envelope \<Rightarrow> trace \<Rightarrow> bool" where
  "parked con envelope es \<longleftrightarrow> (\<exists>d. DlqPublish (con_dlq_topic con) d \<in> set es \<and> dlq_event d = envelope)"

definition committed :: "kafka_message \<Rightarrow> trace \<Rightarrow> bool" where
  "committed m es \<longleftrightarrow> CommitOffset (msg_topic m) (msg_partition m) (msg_offset m) \<in> set es"

definition no_commit :: "trace \<Rightarrow> bool" where
  "no_commit es \<longleftrightarrow> (\<forall>t p n. CommitOffset t p n \<notin> set es)"

lemma delivered_mono: "delivered cr con aid env es \<Longrightarrow> set es \<subseteq> set es' \<Longrightarrow> delivered cr con aid env es'"
  by (auto simp: delivered_def)

lemma no_commit_append [simp]: "no_commit (es @ es') \<longleftrightarrow> no_commit es \<and> no_commit es'" "no_commit []"
  by (auto simp: no_commit_def)

lemma deliver_destination_trace:
  assumes "deliver_destination cr w con aid env tr = (r, tr')"
  shows "\<exists>es. tr' = tr @ es \<and> no_commit es \<and> (r = Inr () \<longrightarrow> delivered cr con aid env es)"
  using assms
  by (auto simp: deliver_destination_def Let_def delivered_def no_commit_def split: if_splits sum.splits)

lemma publish_failed_trace:
  assumes "publish_failed w con env reason tr = (r, tr')"
  shows "\<exists>es. tr' = tr @ es \<and> no_commit es \<and> (r = Inr () \<longrightarrow> parked con env es)"
  using assms
  by (auto simp: publish_failed_def Let_def parked_def no_commit_def split: option.splits sum.splits)

lemma deliver_required_trace:
  assumes "deliver_required cr w con rid env ds tr = (r, tr')"
  shows "\<exists>es. tr' = tr @ es \<and> no_commit es \<and>
    (r = Inr True \<longrightarrow> (\<forall>d \<in> set ds. delivered cr con (dest_adapter_id d) env es)) \<and>
    (r = Inr False \<longrightarrow> parked con env es)"
  using assms
proof (induction ds arbitrary: tr)
  case (Cons d ds)
  obtain r1 tr1 where one: "deliver_destination cr w con (dest_adapter_id d) env tr = (r1, tr1)" by force
  obtain es1 where es1: "tr1 = tr @ es1" "no_commit es1" "r1 = Inr () \<longrightarrow> delivered cr con (dest_adapter_id d) env es1"
    using deliver_destination_trace [OF one] by blast
  show ?case
  proof (cases r1)
    case (Inr u)
    then have "deliver_required cr w con rid env ds tr1 = (r, tr')" using Cons.prems one by simp
    from Cons.IH [OF this] obtain es2 where es2: "tr' = tr1 @ es2" "no_commit es2"
      "r = Inr True \<longrightarrow> (\<forall>d \<in> set ds. delivered cr con (dest_adapter_id d) env es2)" "r = Inr False \<longrightarrow> parked con env es2"
      by blast
    show ?thesis
      by (rule exI [of _ "es1 @ es2"])
         (use es1 es2 Inr in \<open>auto simp: parked_def intro: delivered_mono\<close>)
  next
    case (Inl err)
    obtain q tr2 where dlq: "publish_failed w con env (''required destination adapter '' @ quoted (dest_adapter_id d)
        @ '' failed on route '' @ quoted rid @ '': '' @ err) tr1 = (q, tr2)" by force
    from publish_failed_trace [OF dlq] obtain es2 where "tr2 = tr1 @ es2" "no_commit es2" "q = Inr () \<longrightarrow> parked con env es2"
      by blast
    with Cons.prems one Inl dlq es1 show ?thesis
      by (intro exI [of _ "es1 @ es2"]) (auto simp: parked_def split: sum.splits)
  qed
qed auto

lemma deliver_optional_trace: "\<exists>es. deliver_optional cr w con env ds tr = tr @ es \<and> no_commit es"
proof (induction ds arbitrary: tr)
  case (Cons d ds)
  obtain r1 tr1 where one: "deliver_destination cr w con (dest_adapter_id d) env tr = (r1, tr1)" by force
  obtain es1 where "tr1 = tr @ es1" "no_commit es1" using deliver_destination_trace [OF one] by blast
  moreover obtain es2 where "deliver_optional cr w con env ds tr1 = tr1 @ es2" "no_commit es2" using Cons.IH by blast
  ultimately show ?case using one by (intro exI [of _ "es1 @ es2"]) simp
qed simp

text \<open>All required destinations of a list of routes were served.\<close>

definition required_served :: "crates \<Rightarrow> kafka_consumer \<Rightarrow> smash_route list \<Rightarrow> event_envelope \<Rightarrow> trace \<Rightarrow> bool" where
  "required_served cr con rs env es \<longleftrightarrow>
     (\<forall>r \<in> set rs. \<forall>d \<in> set (destinations r). dest_required d \<longrightarrow> delivered cr con (dest_adapter_id d) env es)"

lemma required_served_mono:
  "required_served cr con rs env es \<Longrightarrow> set es \<subseteq> set es' \<Longrightarrow> required_served cr con rs env es'"
  unfolding required_served_def using delivered_mono by blast

lemma deliver_routes_trace:
  assumes "deliver_routes cr w con env rs n tr = (r, tr')"
  shows "\<exists>es. tr' = tr @ es \<and> no_commit es \<and>
    (\<forall>m. r = Inr (None, m) \<longrightarrow> required_served cr con rs env es) \<and>
    (\<forall>out m. r = Inr (Some out, m) \<longrightarrow> out = DoNotCommit \<and> parked con env es)"
  using assms
proof (induction rs arbitrary: n tr)
  case (Cons route rs)
  let ?req = "filter dest_required (destinations route)"
  let ?opt = "filter (\<lambda>d. \<not> dest_required d) (destinations route)"
  obtain r1 tr1 where one: "deliver_required cr w con (sroute_id route) env ?req tr = (r1, tr1)" by force
  obtain es1 where es1: "tr1 = tr @ es1" "no_commit es1" "r1 = Inr False \<longrightarrow> parked con env es1"
      "r1 = Inr True \<longrightarrow> (\<forall>d \<in> set ?req. delivered cr con (dest_adapter_id d) env es1)"
    using deliver_required_trace [OF one] by blast
  consider (err) e where "r1 = Inl e" | (stop) "r1 = Inr False" | (go) "r1 = Inr True" by (cases r1) auto
  then show ?case
  proof cases
    case go
    obtain es2 where es2: "deliver_optional cr w con env ?opt tr1 = tr1 @ es2" "no_commit es2"
      using deliver_optional_trace by blast
    have "deliver_routes cr w con env rs (fold (\<lambda>_ n. saturating_add n 1) (destinations route) n) (tr1 @ es2) = (r, tr')"
      using Cons.prems one go es2 by simp
    from Cons.IH [OF this] obtain es3 where es3: "tr' = (tr1 @ es2) @ es3" "no_commit es3"
      "\<forall>m. r = Inr (None, m) \<longrightarrow> required_served cr con rs env es3"
      "\<forall>out m. r = Inr (Some out, m) \<longrightarrow> out = DoNotCommit \<and> parked con env es3" by blast
    have "required_served cr con (route # rs) env (es1 @ es2 @ es3)" if "r = Inr (None, m)" for m
    proof -
      have "required_served cr con rs env (es1 @ es2 @ es3)"
        using es3(3) that by (auto intro: required_served_mono)
      moreover have "delivered cr con (dest_adapter_id d) env (es1 @ es2 @ es3)"
        if "d \<in> set (destinations route)" "dest_required d" for d
        using es1(4) go that by (auto intro: delivered_mono)
      ultimately show ?thesis by (simp add: required_served_def)
    qed
    moreover have "out = DoNotCommit \<and> parked con env (es1 @ es2 @ es3)" if "r = Inr (Some out, m)" for out m
      using es3(4) that by (auto simp: parked_def)
    ultimately show ?thesis
      using es1 es2 es3 by (intro exI [of _ "es1 @ es2 @ es3"]) simp
  qed (use Cons.prems one es1 in \<open>auto\<close>)
qed (auto simp: required_served_def)

subsection \<open>What a message leaves in the trace\<close>

abbreviation matched_routes :: "kafka_consumer \<Rightarrow> string \<Rightarrow> event_envelope \<Rightarrow> smash_route list" where
  "matched_routes con topic env \<equiv> filter (\<lambda>route. route_matches route topic (ev_type env)) (con_routes con)"

lemma handle_no_output_trace:
  assumes "handle_no_output w con env reason tr = (r, tr')"
  shows "\<exists>es. tr' = tr @ es \<and> no_commit es \<and> r \<noteq> Inr DoNotCommit"
proof -
  obtain q tr2 where dlq: "publish_failed w con env reason tr = (q, tr2)" by force
  obtain es where "tr2 = tr @ es" "no_commit es" using publish_failed_trace [OF dlq] by blast
  with assms dlq show ?thesis
    by (auto simp: handle_no_output_def split: if_splits option.splits no_output_sink.splits sum.splits)
qed

lemma deliver_to_routes_trace:
  assumes "deliver_to_routes cr w con topic env tr = (r, tr')"
  shows "\<exists>es. tr' = tr @ es \<and> no_commit es \<and>
    (r = Inr Commit \<longrightarrow> required_served cr con (matched_routes con topic env) env es) \<and>
    (r = Inr DoNotCommit \<longrightarrow> parked con env es)"
proof -
  let ?rs = "matched_routes con topic env"
  let ?about = "'' for topic '' @ quoted topic @ '' and event '' @ quoted (ev_type env)"
  have none: ?thesis
    if h: "handle_no_output w con env reason tr1 = (r, tr')" and pre: "tr1 = tr @ es1" "no_commit es1"
      "required_served cr con ?rs env es1" for reason tr1 es1
  proof -
    from handle_no_output_trace [OF h] obtain es2 where "tr' = tr1 @ es2" "no_commit es2" "r \<noteq> Inr DoNotCommit" by blast
    with pre show ?thesis
      by (intro exI [of _ "es1 @ es2"]) (auto intro: required_served_mono)
  qed
  show ?thesis
  proof (cases "?rs = []")
    case True
    show ?thesis
      by (rule none [of "''no matching smash route'' @ ?about" tr "[]"])
         (use assms True in \<open>auto simp: deliver_to_routes_def required_served_def Let_def\<close>)
  next
    case False
    obtain q tr1 where run: "deliver_routes cr w con env ?rs 0 tr = (q, tr1)" by force
    obtain es where es: "tr1 = tr @ es" "no_commit es"
      "\<forall>m. q = Inr (None, m) \<longrightarrow> required_served cr con ?rs env es"
      "\<forall>out m. q = Inr (Some out, m) \<longrightarrow> out = DoNotCommit \<and> parked con env es"
      using deliver_routes_trace [OF run] by blast
    consider (err) e where "q = Inl e" | (stop) out m where "q = Inr (Some out, m)" | (all) m where "q = Inr (None, m)"
      by (metis sum.exhaust prod.exhaust option.exhaust)
    then show ?thesis
    proof cases
      case all
      show ?thesis
      proof (cases "m = 0")
        case True
        show ?thesis
          by (rule none [of "''no active smash destinations'' @ ?about" tr1 es])
             (use assms False run all es True in \<open>auto simp: deliver_to_routes_def Let_def\<close>)
      qed (use assms False run all es in \<open>auto simp: deliver_to_routes_def Let_def\<close>)
    qed (use assms False run es in \<open>auto simp: deliver_to_routes_def Let_def\<close>)
  qed
qed

text \<open>The ways a message ends: an error, parked without a commit, or its commit after every required
  destination took it.\<close>

lemma process_message_trace:
  assumes "process_message cr de w con m tr = (r, tr')"
  obtains (failed) e es where "r = Inl e" "tr' = tr @ es" "no_commit es"
  | (not_committed) env es where "r = Inr ()" "tr' = tr @ es" "no_commit es"
      "Option.bind (msg_payload m) de = Some env" "parked con env es"
  | (served) env es where "r = Inr ()" "tr' = tr @ es @ [CommitOffset (msg_topic m) (msg_partition m) (msg_offset m)]"
      "no_commit es" "Option.bind (msg_payload m) de = Some env"
      "required_served cr con (matched_routes con (msg_topic m) env) env es"
proof (cases "Option.bind (msg_payload m) de")
  case None
  with assms have "isl r" "tr' = tr"
    by (auto simp: process_message_def bind_eq_None_conv split: option.splits)
  then show ?thesis by (cases r) (auto intro: failed [of _ "[]"])
next
  case (Some env)
  then obtain raw where raw: "msg_payload m = Some raw" "de raw = Some env" by (auto simp: bind_eq_Some_conv)
  obtain q tr1 where run: "deliver_to_routes cr w con (msg_topic m) env tr = (q, tr1)" by force
  obtain es where es: "tr1 = tr @ es" "no_commit es"
    "q = Inr Commit \<longrightarrow> required_served cr con (matched_routes con (msg_topic m) env) env es"
    "q = Inr DoNotCommit \<longrightarrow> parked con env es"
    using deliver_to_routes_trace [OF run] by blast
  show ?thesis
  proof (cases q)
    case (Inl e)
    with assms raw run es show ?thesis by (intro failed [of _ es]) (auto simp: process_message_def)
  next
    case q: (Inr out)
    show ?thesis
    proof (cases out)
      case DoNotCommit
      with assms raw run es q Some show ?thesis by (intro not_committed [of es env]) (auto simp: process_message_def)
    next
      case Commit
      show ?thesis
      proof (cases "w_commit w tr1")
        case True
        with assms raw run es q Some Commit show ?thesis by (intro served [of es env]) (auto simp: process_message_def)
      next
        case False
        with assms raw run es q Some Commit show ?thesis by (intro failed [of _ es]) (auto simp: process_message_def)
      qed
    qed
  qed
qed

subsection \<open>How a message is disposed of\<close>

lemma count_destinations_pos:
  assumes "ds \<noteq> []" shows "fold (\<lambda>_ n. saturating_add n 1) ds (0 :: usize) \<noteq> 0"
proof
  assume "fold (\<lambda>_ n. saturating_add n 1) ds (0 :: usize) = 0"
  then have "unat (fold (\<lambda>_ n. saturating_add n 1) ds (0 :: usize)) = 0" by simp
  then have "min (length ds) (2 ^ 64 - 1) = 0" unfolding count_destinations by simp
  with assms show False by (simp add: min_def split: if_splits)
qed

text \<open>The envelope was offered to an output, unless a plugin of the output refused it first.\<close>

definition offered :: "crates \<Rightarrow> kafka_consumer \<Rightarrow> string \<Rightarrow> event_envelope \<Rightarrow> trace \<Rightarrow> bool" where
  "offered cr con aid envelope es \<longleftrightarrow>
     aid \<notin> set (con_adapters con)
     \<or> isl (apply_smash_plugins cr aid (unwrap_or [] (con_adapter_plugins con aid)) envelope)
     \<or> (\<exists>env' b. apply_smash_plugins cr aid (unwrap_or [] (con_adapter_plugins con aid)) envelope = Inr env'
          \<and> Deliver aid env' b \<in> set es)"

definition all_offered :: "crates \<Rightarrow> kafka_consumer \<Rightarrow> smash_route list \<Rightarrow> event_envelope \<Rightarrow> trace \<Rightarrow> bool" where
  "all_offered cr con rs env es \<longleftrightarrow> (\<forall>r \<in> set rs. \<forall>d \<in> set (destinations r). offered cr con (dest_adapter_id d) env es)"

text \<open>The configured way out for an event without outputs.\<close>

definition sunk :: "kafka_consumer \<Rightarrow> event_envelope \<Rightarrow> trace \<Rightarrow> bool" where
  "sunk con env es \<longleftrightarrow>
     con_allow_no_output con \<and>
     (con_no_output_sink con = Some SinkDiscard \<or> con_no_output_sink con = Some SinkDlq \<and> parked con env es)"

lemma delivered_offered: "delivered cr con aid env es \<Longrightarrow> offered cr con aid env es"
  by (auto simp: delivered_def offered_def)

lemma offered_mono: "offered cr con aid env es \<Longrightarrow> set es \<subseteq> set es' \<Longrightarrow> offered cr con aid env es'"
  unfolding offered_def by blast

lemma all_offered_mono: "all_offered cr con rs env es \<Longrightarrow> set es \<subseteq> set es' \<Longrightarrow> all_offered cr con rs env es'"
  unfolding all_offered_def using offered_mono by blast

lemma parked_mono: "parked con env es \<Longrightarrow> set es \<subseteq> set es' \<Longrightarrow> parked con env es'"
  by (auto simp: parked_def)

lemma sunk_mono: "sunk con env es \<Longrightarrow> set es \<subseteq> set es' \<Longrightarrow> sunk con env es'"
  unfolding sunk_def using parked_mono by blast

lemma deliver_destination_offered:
  "\<exists>es. snd (deliver_destination cr w con aid env tr) = tr @ es \<and> offered cr con aid env es"
  by (auto simp: deliver_destination_def Let_def offered_def split: sum.splits)

lemma deliver_optional_offered:
  "\<exists>es. deliver_optional cr w con env ds tr = tr @ es \<and> (\<forall>d \<in> set ds. offered cr con (dest_adapter_id d) env es)"
proof (induction ds arbitrary: tr)
  case (Cons d ds)
  obtain es1 where es1: "snd (deliver_destination cr w con (dest_adapter_id d) env tr) = tr @ es1"
    "offered cr con (dest_adapter_id d) env es1" using deliver_destination_offered by blast
  obtain es2 where "deliver_optional cr w con env ds (tr @ es1) = (tr @ es1) @ es2"
    "\<forall>d \<in> set ds. offered cr con (dest_adapter_id d) env es2" using Cons.IH by blast
  with es1 show ?case by (intro exI [of _ "es1 @ es2"]) (auto intro: offered_mono)
qed simp

lemma deliver_routes_done:
  assumes "deliver_routes cr w con env rs n tr = (Inr (None, m), tr')"
  shows "\<exists>es. tr' = tr @ es \<and> all_offered cr con rs env es \<and> m = fold (\<lambda>_ n. saturating_add n 1) (concat (map destinations rs)) n"
  using assms
proof (induction rs arbitrary: n tr)
  case (Cons route rs)
  let ?req = "filter dest_required (destinations route)"
  let ?opt = "filter (\<lambda>d. \<not> dest_required d) (destinations route)"
  obtain r1 tr1 where one: "deliver_required cr w con (sroute_id route) env ?req tr = (r1, tr1)" by force
  with Cons.prems have go: "r1 = Inr True" by (auto simp: Let_def split: sum.splits bool.splits)
  obtain es1 where es1: "tr1 = tr @ es1" "\<forall>d \<in> set ?req. delivered cr con (dest_adapter_id d) env es1"
    using deliver_required_trace [OF one] go by blast
  obtain es2 where es2: "deliver_optional cr w con env ?opt tr1 = tr1 @ es2"
    "\<forall>d \<in> set ?opt. offered cr con (dest_adapter_id d) env es2" using deliver_optional_offered by blast
  let ?n = "fold (\<lambda>_ n. saturating_add n 1) (destinations route) n"
  have "deliver_routes cr w con env rs ?n (tr1 @ es2) = (Inr (None, m), tr')"
    using Cons.prems one go es2 by (simp add: Let_def)
  from Cons.IH [OF this] obtain es3 where es3: "tr' = (tr1 @ es2) @ es3" "all_offered cr con rs env es3"
    "m = fold (\<lambda>_ n. saturating_add n 1) (concat (map destinations rs)) ?n" by blast
  have "offered cr con (dest_adapter_id d) env (es1 @ es2 @ es3)" if "d \<in> set (destinations route)" for d
  proof (cases "dest_required d")
    case True
    with that es1(2) have "offered cr con (dest_adapter_id d) env es1" by (auto intro: delivered_offered)
    then show ?thesis by (rule offered_mono) auto
  next
    case False
    with that es2(2) have "offered cr con (dest_adapter_id d) env es2" by auto
    then show ?thesis by (rule offered_mono) auto
  qed
  moreover have "all_offered cr con rs env (es1 @ es2 @ es3)" using es3(2) by (rule all_offered_mono) auto
  ultimately show ?case using es1 es3
    by (intro exI [of _ "es1 @ es2 @ es3"]) (simp add: all_offered_def)
qed (simp add: all_offered_def)

lemma deliver_required_stops:
  "deliver_required cr w con rid env ds tr = (Inr False, tr') \<Longrightarrow> ds \<noteq> []"
  by auto

lemma deliver_routes_stops:
  "deliver_routes cr w con env rs n tr = (Inr (Some q, m), tr') \<Longrightarrow>
     \<exists>r \<in> set rs. \<exists>d \<in> set (destinations r). dest_required d"
proof (induction rs arbitrary: n tr)
  case (Cons route rs)
  let ?req = "filter dest_required (destinations route)"
  obtain r1 tr1 where one: "deliver_required cr w con (sroute_id route) env ?req tr = (r1, tr1)" by force
  show ?case
  proof (cases "r1 = Inr False")
    case True
    with deliver_required_stops one have "?req \<noteq> []" by blast
    then show ?thesis by (auto simp: filter_empty_conv)
  next
    case False
    with Cons one show ?thesis by (auto simp: Let_def split: sum.splits bool.splits)
  qed
qed simp

lemma handle_no_output_Commit:
  "handle_no_output w con env reason tr = (Inr Commit, tr') \<Longrightarrow> \<exists>es. tr' = tr @ es \<and> sunk con env es"
proof -
  obtain q tr2 where dlq: "publish_failed w con env reason tr = (q, tr2)" by force
  obtain es where es: "tr2 = tr @ es" "q = Inr () \<longrightarrow> parked con env es" using publish_failed_trace [OF dlq] by blast
  assume "handle_no_output w con env reason tr = (Inr Commit, tr')"
  with dlq es show ?thesis
    by (cases "con_no_output_sink con = Some SinkDlq")
       (auto simp: handle_no_output_def sunk_def split: if_splits option.splits no_output_sink.splits sum.splits)
qed

text \<open>The three ways a message is done with.\<close>

definition disposed :: "crates \<Rightarrow> kafka_consumer \<Rightarrow> string \<Rightarrow> event_envelope \<Rightarrow> delivery_outcome \<Rightarrow> trace \<Rightarrow> bool" where
  "disposed cr con topic env q es \<longleftrightarrow>
     (case q of
        Commit \<Rightarrow>
          (if \<exists>r \<in> set (matched_routes con topic env). destinations r \<noteq> []
           then required_served cr con (matched_routes con topic env) env es
                \<and> all_offered cr con (matched_routes con topic env) env es
           else sunk con env es)
      | DoNotCommit \<Rightarrow>
          parked con env es \<and> (\<exists>r \<in> set (matched_routes con topic env). \<exists>d \<in> set (destinations r). dest_required d))"

lemma deliver_to_routes_disposes:
  assumes "deliver_to_routes cr w con topic env tr = (Inr q, tr')"
  shows "\<exists>es. tr' = tr @ es \<and> no_commit es \<and> disposed cr con topic env q es"
proof -
  let ?rs = "matched_routes con topic env"
  obtain es where es: "tr' = tr @ es" "no_commit es"
    "q = Commit \<longrightarrow> required_served cr con ?rs env es" "q = DoNotCommit \<longrightarrow> parked con env es"
    using deliver_to_routes_trace [OF assms] by auto
  have "disposed cr con topic env q es"
  proof (cases "?rs = []")
    case True
    then obtain reason where h: "handle_no_output w con env reason tr = (Inr q, tr')"
      using assms by (auto simp: deliver_to_routes_def Let_def)
    with handle_no_output_trace [OF h] have "q = Commit" by (cases q) auto
    with handle_no_output_Commit h es True show ?thesis by (fastforce simp: disposed_def)
  next
    case False
    obtain r1 tr1 where run: "deliver_routes cr w con env ?rs 0 tr = (r1, tr1)" by force
    show ?thesis
    proof (cases r1)
      case (Inl e)
      with assms False run show ?thesis by (simp add: deliver_to_routes_def Let_def)
    next
      case (Inr p)
      obtain out m where p: "p = (out, m)" by force
      show ?thesis
      proof (cases out)
        case (Some q')
        with assms False run Inr p have "q' = q" by (simp add: deliver_to_routes_def Let_def)
        moreover have "q' = DoNotCommit" using deliver_routes_trace [OF run] Inr p Some by blast
        ultimately show ?thesis
          using deliver_routes_stops [of cr w con env ?rs 0 tr q' m tr1] run Inr p Some es(4) by (simp add: disposed_def)
      next
        case None
        obtain es1 where es1: "tr1 = tr @ es1" "all_offered cr con ?rs env es1"
          "m = fold (\<lambda>_ n. saturating_add n 1) (concat (map destinations ?rs)) 0"
          using deliver_routes_done run Inr p None by blast
        show ?thesis
        proof (cases "m = 0")
          case True
          then have empty: "\<forall>r \<in> set ?rs. destinations r = []"
            using es1(3) count_destinations_pos [of "concat (map destinations ?rs)"] by auto
          obtain reason where h: "handle_no_output w con env reason tr1 = (Inr q, tr')"
            using assms False run Inr p None True by (auto simp: deliver_to_routes_def Let_def)
          with handle_no_output_trace [OF h] have "q = Commit" by (cases q) auto
          moreover obtain es2 where "tr' = tr1 @ es2" "sunk con env es2"
            using handle_no_output_Commit h \<open>q = Commit\<close> by blast
          ultimately show ?thesis using es1(1) es(1) empty by (auto simp: disposed_def intro: sunk_mono)
        next
          case nz: False
          then have "concat (map destinations ?rs) \<noteq> []" using es1(3) by force
          moreover have "q = Commit" "tr' = tr1" using assms False run Inr p None nz
            by (simp_all add: deliver_to_routes_def Let_def)
          ultimately show ?thesis using es es1 by (auto simp: disposed_def)
        qed
      qed
    qed
  qed
  with es show ?thesis by blast
qed

lemma process_message_done:
  assumes "process_message cr de w con m tr = (Inr (), tr')"
  shows "\<exists>env q tr1. Option.bind (msg_payload m) de = Some env \<and> deliver_to_routes cr w con (msg_topic m) env tr = (Inr q, tr1)
     \<and> tr' = tr1 @ (if q = Commit then [CommitOffset (msg_topic m) (msg_partition m) (msg_offset m)] else [])"
proof -
  from assms obtain raw env where "msg_payload m = Some raw" "de raw = Some env"
    by (auto simp: process_message_def split: option.splits)
  with assms show ?thesis
    by (cases "deliver_to_routes cr w con (msg_topic m) env tr")
       (auto simp: process_message_def bind_eq_Some_conv split: sum.splits delivery_outcome.splits if_splits)
qed

subsection \<open>Runs\<close>

text \<open>Every commit of a trace comes after the deliveries it acknowledges.\<close>

definition commits_justified :: "crates \<Rightarrow> (string \<Rightarrow> event_envelope option) \<Rightarrow> kafka_consumer \<Rightarrow> kafka_message set \<Rightarrow> trace \<Rightarrow> bool" where
  "commits_justified cr de con ms tr \<longleftrightarrow>
     (\<forall>i t p n. i < length tr \<and> tr ! i = CommitOffset t p n \<longrightarrow>
        (\<exists>m env. m \<in> ms \<and> msg_topic m = t \<and> msg_partition m = p \<and> msg_offset m = n \<and>
           Option.bind (msg_payload m) de = Some env \<and>
           required_served cr con (matched_routes con t env) env (take i tr)))"

lemma commits_justified_mono:
  "commits_justified cr de con ms tr \<Longrightarrow> ms \<subseteq> ms' \<Longrightarrow> commits_justified cr de con ms' tr"
  unfolding commits_justified_def by (meson subsetD)

lemma commits_justified_no_commit:
  assumes "commits_justified cr de con ms tr" "no_commit es"
  shows "commits_justified cr de con ms (tr @ es)"
proof -
  have "es ! k \<noteq> CommitOffset t p n" if "k < length es" for k t p n
    using assms(2) nth_mem [OF that] unfolding no_commit_def by metis
  then show ?thesis
    using assms(1) unfolding commits_justified_def by (auto simp: nth_append)
qed

lemma commits_justified_commit:
  assumes "commits_justified cr de con ms tr" "m \<in> ms" "Option.bind (msg_payload m) de = Some env"
    "required_served cr con (matched_routes con (msg_topic m) env) env tr"
  shows "commits_justified cr de con ms (tr @ [CommitOffset (msg_topic m) (msg_partition m) (msg_offset m)])"
  using assms unfolding commits_justified_def
  by (auto simp: nth_append less_Suc_eq split: if_splits)

lemma process_message_justified:
  assumes "commits_justified cr de con ms tr" "m \<in> ms"
  shows "commits_justified cr de con ms (snd (process_message cr de w con m tr))"
proof -
  obtain r tr' where run: "process_message cr de w con m tr = (r, tr')" by force
  then show ?thesis
  proof (cases rule: process_message_trace)
    case (served env es)
    have "required_served cr con (matched_routes con (msg_topic m) env) env (tr @ es)"
      using served(5) by (rule required_served_mono) simp
    with served run assms show ?thesis
      using commits_justified_commit [OF commits_justified_no_commit [OF assms(1) served(3)] assms(2) served(4)] by simp
  qed (use run assms commits_justified_no_commit in auto)
qed

lemma consumer_run_justified:
  "commits_justified cr de con ms tr \<Longrightarrow> {m. Some m \<in> set received} \<subseteq> ms \<Longrightarrow>
     commits_justified cr de con ms (consumer_run cr de w con received tr)"
proof (induction cr de w con received tr rule: consumer_run.induct)
  case (2 cr de w con received tr)
  then show ?case by (simp add: subset_iff)
next
  case (3 cr de w con m received tr)
  then show ?case using process_message_justified [of cr de con ms tr m w] by (simp add: subset_iff)
qed simp

subsection \<open>When the required outputs work\<close>

text \<open>A destination that takes the envelope whenever it is offered.\<close>

definition takes :: "crates \<Rightarrow> world \<Rightarrow> kafka_consumer \<Rightarrow> event_envelope \<Rightarrow> route_destination \<Rightarrow> bool" where
  "takes cr w con env d \<longleftrightarrow>
     (\<exists>env'. apply_smash_plugins cr (dest_adapter_id d) (unwrap_or [] (con_adapter_plugins con (dest_adapter_id d))) env
               = Inr env' \<and> (\<forall>tr. w_deliver w tr (dest_adapter_id d) env' = Inr ()))"

lemma deliver_required_takes:
  assumes "\<forall>d \<in> set ds. dest_adapter_id d \<in> set (con_adapters con) \<and> takes cr w con env d"
  shows "\<exists>tr'. deliver_required cr w con rid env ds tr = (Inr True, tr')"
  using assms by (induction ds arbitrary: tr) (auto simp: deliver_destination_def takes_def Let_def)

lemma deliver_routes_takes:
  assumes "\<forall>r \<in> set rs. \<forall>d \<in> set (destinations r). dest_required d \<longrightarrow>
      dest_adapter_id d \<in> set (con_adapters con) \<and> takes cr w con env d"
  shows "\<exists>tr'. deliver_routes cr w con env rs n tr =
     (Inr (None, fold (\<lambda>_ n. saturating_add n 1) (concat (map destinations rs)) n), tr')"
  using assms
proof (induction rs arbitrary: n tr)
  case (Cons r rs)
  obtain tr1 where "deliver_required cr w con (sroute_id r) env (filter dest_required (destinations r)) tr = (Inr True, tr1)"
    using deliver_required_takes [of "filter dest_required (destinations r)" con cr w env "sroute_id r" tr] Cons.prems
    by auto
  with Cons show ?case by simp
qed simp

lemma deliver_to_routes_takes:
  assumes "\<forall>r \<in> set (matched_routes con topic env). \<forall>d \<in> set (destinations r). dest_required d \<longrightarrow>
      dest_adapter_id d \<in> set (con_adapters con) \<and> takes cr w con env d"
    and "r \<in> set (matched_routes con topic env)" "destinations r \<noteq> []"
  shows "\<exists>tr'. deliver_to_routes cr w con topic env tr = (Inr Commit, tr')"
proof -
  have some: "matched_routes con topic env \<noteq> []" using assms(2) by (metis empty_iff empty_set)
  have ds: "concat (map destinations (matched_routes con topic env)) \<noteq> []" using assms(2,3) by auto
  from deliver_routes_takes [OF assms(1)] obtain tr' where
    "deliver_routes cr w con env (matched_routes con topic env) 0 tr =
      (Inr (None, fold (\<lambda>_ n. saturating_add n 1) (concat (map destinations (matched_routes con topic env))) 0), tr')"
    by blast
  with some count_destinations_pos [OF ds] show ?thesis by (simp add: deliver_to_routes_def Let_def)
qed

lemma loaded_destination_known:
  assumes "smash_config_wf c" "r \<in> set (con_routes (consumer_from_config c))" "d \<in> set (destinations r)"
  shows "dest_adapter_id d \<in> set (con_adapters (consumer_from_config c))"
  using assms by (auto simp: smash_config_wf_def consumer_from_config_def)

subsection \<open>Plugins\<close>

text \<open>The fields no plugin touches, and the flags a plugin may only extend.\<close>

definition envelope_flags :: "event_envelope \<Rightarrow> string list" where
  "envelope_flags env = (case ev_meta env of None \<Rightarrow> [] | Some meta \<Rightarrow> meta_flags meta)"

lemma add_meta_flag_flags:
  "envelope_flags (add_meta_flag f env) =
     (if f \<in> set (envelope_flags env) then envelope_flags env else envelope_flags env @ [f])"
  by (cases "ev_meta env")
     (auto simp: envelope_flags_def add_meta_flag_def default_event_meta_def Let_def)

lemma smash_plugins_loop_frame:
  "smash_plugins_loop cr aid ps env = Inr env' \<Longrightarrow>
     ev_id env' = ev_id env \<and> ev_source env' = ev_source env \<and> ev_received_at env' = ev_received_at env \<and>
     ev_payload env' = ev_payload env \<and>
     set (envelope_flags env') = set (envelope_flags env) \<union> {f. SmashAddMetaFlag f \<in> set ps} \<and>
     (distinct (envelope_flags env) \<longrightarrow> distinct (envelope_flags env'))"
proof (induction cr aid ps env rule: smash_plugins_loop.induct)
  case (4 cr aid flag plugins transformed)
  from 4(1) 4(2) show ?case
    by (simp add: add_meta_flag_flags split: if_splits) (auto simp: add_meta_flag_def Let_def)
qed (auto simp: envelope_flags_def split: if_splits)

lemma apply_smash_plugins_frame:
  "apply_smash_plugins cr aid ps env = Inr env' \<Longrightarrow>
     ev_id env' = ev_id env \<and> ev_source env' = ev_source env \<and> ev_received_at env' = ev_received_at env \<and>
     ev_payload env' = ev_payload env \<and>
     set (envelope_flags env') = set (envelope_flags env) \<union> {f. SmashAddMetaFlag f \<in> set ps} \<and>
     (distinct (envelope_flags env) \<longrightarrow> distinct (envelope_flags env'))"
  using smash_plugins_loop_frame by (auto simp: apply_smash_plugins_def split: if_splits)

subsection \<open>A consumer for the witnesses\<close>

definition demo_world :: world where
  "demo_world =
     \<lparr>w_deliver = \<lambda>_ _ env. if ev_id env = ''bad'' then Inl ''connection refused'' else Inr (),
      w_dlq_serialize = \<lambda>_. Some ''{}'', w_dlq_send = \<lambda>_ _ _ _. Inr (), w_commit = \<lambda>_. True, w_now = \<lambda>_. ''now''\<rparr>"

definition demo_event :: "string \<Rightarrow> event_envelope" where
  "demo_event i = \<lparr>ev_id = i, ev_source = ''github'', ev_type = ''push'', ev_received_at = ''now'',
     ev_payload = JNull, ev_meta = None\<rparr>"

definition demo_consumer :: kafka_consumer where
  "demo_consumer = consumer_from_config demo_smash_config"

text \<open>The payload of a demo message is the id of its event.\<close>

definition demo_message :: "string \<Rightarrow> nat \<Rightarrow> kafka_message" where
  "demo_message i n = \<lparr>msg_topic = ''webhooks.github'', msg_partition = 0, msg_offset = n, msg_payload = Some i\<rparr>"

abbreviation demo_process :: "string \<Rightarrow> nat \<Rightarrow> trace \<Rightarrow> unit result \<times> trace" where
  "demo_process i n tr \<equiv>
     process_message demo_crates (\<lambda>raw. Some (demo_event raw)) demo_world demo_consumer (demo_message i n) tr"

lemma demo_consumer_eq:
  "demo_consumer =
     \<lparr>con_adapters = [''openclaw-output''], con_adapter_plugins = [''openclaw-output'' \<mapsto> []],
      con_routes = [legacy_route ''webhooks.github'', legacy_route ''webhooks.linear''],
      con_allow_no_output = False, con_no_output_sink = None, con_dlq_topic = ''webhooks.dlq''\<rparr>"
proof -
  have "map adapter_id (smash_adapters demo_smash_config) = [''openclaw-output'']"
    "map (\<lambda>a. (adapter_id a, adapter_plugins a)) (smash_adapters demo_smash_config) = [(''openclaw-output'', [])]"
    "smash_routes demo_smash_config = [legacy_route ''webhooks.github'', legacy_route ''webhooks.linear'']"
    "allow_no_output demo_smash_config = False" "sc_no_output_sink demo_smash_config = None"
    "dlq_topic demo_smash_config = ''webhooks.dlq''"
    by code_simp+
  then show ?thesis by (simp add: demo_consumer_def consumer_from_config_def)
qed

lemma demo_message_fields [simp]:
  "msg_topic (demo_message i n) = ''webhooks.github''" "msg_partition (demo_message i n) = 0"
  "msg_offset (demo_message i n) = n" "msg_payload (demo_message i n) = Some i" "ev_id (demo_event i) = i"
  "w_commit demo_world tr"
  by (simp_all add: demo_message_def demo_event_def demo_world_def)

lemma demo_matched:
  "matched_routes demo_consumer ''webhooks.github'' (demo_event i) = [legacy_route ''webhooks.github'']"
proof -
  have "smash_wildcard_matches ''webhooks.github'' ''webhooks.github''"
    "\<not> smash_wildcard_matches ''webhooks.linear'' ''webhooks.github''" by code_simp+
  then show ?thesis
    by (simp add: demo_consumer_eq route_matches_def route_event_filter_match_def legacy_route_def)
qed

lemma legacy_destinations:
  "destinations (legacy_route t) = [\<lparr>dest_adapter_id = ''openclaw-output'', dest_required = True\<rparr>]"
  by (simp add: legacy_route_def)

lemma demo_deliver_good:
  "deliver_to_routes demo_crates demo_world demo_consumer ''webhooks.github'' (demo_event ''good'') tr =
     (Inr Commit, tr @ [Deliver ''openclaw-output'' (demo_event ''good'') True])"
proof -
  have "(saturating_add 0 1 :: usize) \<noteq> 0" by code_simp
  then show ?thesis
    by (simp add: deliver_to_routes_def Let_def demo_matched legacy_destinations deliver_destination_def demo_world_def)
       (simp add: demo_consumer_eq apply_smash_plugins_def legacy_destinations)
qed

definition demo_parked :: dlq_envelope where
  "demo_parked = \<lparr>failed_at = ''now'',
     dlq_error = ''required destination adapter '' @ quoted ''openclaw-output''
       @ '' failed on route '' @ quoted (sroute_id (legacy_route ''webhooks.github'')) @ '': connection refused'',
     dlq_event = demo_event ''bad''\<rparr>"

lemma demo_deliver_bad:
  "deliver_to_routes demo_crates demo_world demo_consumer ''webhooks.github'' (demo_event ''bad'') tr =
     (Inr DoNotCommit, tr @ [Deliver ''openclaw-output'' (demo_event ''bad'') False, DlqPublish ''webhooks.dlq'' demo_parked])"
  by (simp add: deliver_to_routes_def Let_def demo_matched legacy_destinations deliver_destination_def demo_world_def
        publish_failed_def)
     (simp add: demo_consumer_eq apply_smash_plugins_def demo_parked_def publish_failed_def Let_def)

lemma demo_bad:
  "demo_process ''bad'' n tr =
     (Inr (), tr @ [Deliver ''openclaw-output'' (demo_event ''bad'') False, DlqPublish ''webhooks.dlq'' demo_parked])"
  by (simp add: process_message_def demo_deliver_bad)

subsection \<open>Properties\<close>

text \<open>C2. No offset is committed too early: in a run of the consumer over any sequence of received
  messages and poll errors, and whatever the outputs, the dead-letter topic and the broker answer,
  each committed offset belongs to a received message whose envelope was accepted, before the
  commit, by every required destination of every route it matches (as its plugins transform it).\<close>

theorem commits_only_after_required:
  "commits_justified cr de con {m. Some m \<in> set received} (consumer_run cr de w con received [])"
  by (rule consumer_run_justified) (auto simp: commits_justified_def)

text \<open>C13. A message the consumer is done with is not lost silently: when \<open>process_message\<close> returns without an
  error, its envelope was decoded and one of three things happened. Some matching route has a
  destination, every required destination took the envelope, every destination was offered it, and the
  offset is committed. Or no matching route has a destination, the configuration allows that, the envelope
  went to the configured sink (dead-letter topic or nowhere), and the offset is committed. Or some matching
  route has a required destination, the envelope lies on the dead-letter topic, and nothing is committed.\<close>

theorem done_means_served_or_parked:
  assumes "process_message cr de w con m tr = (Inr (), tr')"
  shows "\<exists>env es. Option.bind (msg_payload m) de = Some env \<and> tr' = tr @ es
     \<and> (let rs = matched_routes con (msg_topic m) env
        in (committed m es \<and> (\<exists>r \<in> set rs. destinations r \<noteq> [])
              \<and> required_served cr con rs env es \<and> all_offered cr con rs env es)
         \<or> (committed m es \<and> (\<forall>r \<in> set rs. destinations r = [])
              \<and> con_allow_no_output con
              \<and> (con_no_output_sink con = Some SinkDiscard \<or> con_no_output_sink con = Some SinkDlq \<and> parked con env es))
         \<or> (no_commit es \<and> parked con env es \<and> (\<exists>r \<in> set rs. \<exists>d \<in> set (destinations r). dest_required d)))"
proof -
  obtain env q tr1 where env: "Option.bind (msg_payload m) de = Some env"
    and run: "deliver_to_routes cr w con (msg_topic m) env tr = (Inr q, tr1)"
    and tr': "tr' = tr1 @ (if q = Commit then [CommitOffset (msg_topic m) (msg_partition m) (msg_offset m)] else [])"
    using process_message_done [OF assms] by blast
  obtain es where es: "tr1 = tr @ es" "no_commit es" "disposed cr con (msg_topic m) env q es"
    using deliver_to_routes_disposes [OF run] by blast
  let ?es = "es @ (if q = Commit then [CommitOffset (msg_topic m) (msg_partition m) (msg_offset m)] else [])"
  have sub: "set es \<subseteq> set ?es" by simp
  have "disposed cr con (msg_topic m) env q ?es"
    using es(3) required_served_mono [OF _ sub] all_offered_mono [OF _ sub] sunk_mono [OF _ sub] parked_mono [OF _ sub]
    by (auto simp: disposed_def split: delivery_outcome.splits if_splits)
  with env es(1,2) tr' show ?thesis
    by (intro exI [of _ env] exI [of _ ?es])
       (cases q, auto simp: disposed_def committed_def sunk_def Let_def split: if_splits)
qed

theorem done_means_served_or_parked_witness:
  "parked demo_consumer (demo_event ''bad'') (snd (demo_process ''bad'' 7 []))"
  using done_means_served_or_parked [OF demo_bad [of 7 "[]"]]
  by (auto simp: demo_bad committed_def)

text \<open>C18. Optional outputs never hold a message back: with a loaded configuration, if some matched
  route has a destination, every required destination of the matched routes takes the envelope and
  the commit is accepted, then the message is committed, whatever the optional destinations do.\<close>

theorem required_outputs_suffice:
  assumes "smash_from_env sc e = Inr c"
    and "Option.bind (msg_payload m) de = Some env"
    and "r \<in> set (matched_routes (consumer_from_config c) (msg_topic m) env)" "destinations r \<noteq> []"
    and "\<forall>r \<in> set (matched_routes (consumer_from_config c) (msg_topic m) env). \<forall>d \<in> set (destinations r).
           dest_required d \<longrightarrow> takes cr w (consumer_from_config c) env d"
    and "\<forall>tr. w_commit w tr"
  shows "\<exists>es. process_message cr de w (consumer_from_config c) m tr =
     (Inr (), es @ [CommitOffset (msg_topic m) (msg_partition m) (msg_offset m)])"
proof -
  have "\<forall>r \<in> set (matched_routes (consumer_from_config c) (msg_topic m) env). \<forall>d \<in> set (destinations r).
      dest_required d \<longrightarrow> dest_adapter_id d \<in> set (con_adapters (consumer_from_config c))
        \<and> takes cr w (consumer_from_config c) env d"
    using assms(5) loaded_destination_known [OF smash_from_env_wf [OF assms(1)]] by auto
  from deliver_to_routes_takes [OF this assms(3,4)] obtain tr' where
    "deliver_to_routes cr w (consumer_from_config c) (msg_topic m) env tr = (Inr Commit, tr')" by blast
  with assms(2,6) show ?thesis by (auto simp: process_message_def bind_eq_Some_conv)
qed

theorem required_outputs_suffice_witness:
  "\<exists>es. demo_process ''good'' 3 [] = (Inr (), es @ [CommitOffset ''webhooks.github'' 0 3])"
proof -
  have "takes demo_crates demo_world demo_consumer (demo_event ''good'') d"
    if "d \<in> set (destinations (legacy_route t))" for d t
    using that by (simp add: takes_def demo_consumer_eq apply_smash_plugins_def demo_world_def legacy_destinations)
  then show ?thesis
    using required_outputs_suffice [OF demo_smash_loaded, folded demo_consumer_def, of "demo_message ''good'' 3"
        "\<lambda>raw. Some (demo_event raw)" "demo_event ''good''" "legacy_route ''webhooks.github''" demo_crates demo_world "[]"]
    unfolding demo_message_fields demo_matched by (simp add: legacy_destinations)
qed

text \<open>Plugins keep the event: whatever plugins an output has, the envelope it gets has the id,
  source, time and payload of the original, and its flags are the original ones and those of the
  flag plugins, without new duplicates.\<close>

theorem plugins_keep_event:
  assumes "apply_smash_plugins cr aid ps env = Inr env'"
  shows "ev_id env' = ev_id env \<and> ev_source env' = ev_source env \<and> ev_received_at env' = ev_received_at env \<and>
     ev_payload env' = ev_payload env \<and>
     set (envelope_flags env') = set (envelope_flags env) \<union> {f. SmashAddMetaFlag f \<in> set ps} \<and>
     (distinct (envelope_flags env) \<longrightarrow> distinct (envelope_flags env'))"
  using assms by (rule apply_smash_plugins_frame)

theorem plugins_keep_event_witness:
  "\<exists>env'. apply_smash_plugins demo_crates ''ws'' [SmashEventTypeAlias ''push'' ''code.push'', SmashAddMetaFlag ''audited'']
       (demo_event ''e1'') = Inr env' \<and> ev_id env' = ''e1'' \<and> set (envelope_flags env') = {''audited''}"
proof -
  let ?ps = "[SmashEventTypeAlias ''push'' ''code.push'', SmashAddMetaFlag ''audited'']"
  have "apply_smash_plugins demo_crates ''ws'' ?ps (demo_event ''e1'') =
      Inr (add_meta_flag ''audited'' ((demo_event ''e1'')\<lparr>ev_type := ''code.push''\<rparr>))"
    by (simp add: apply_smash_plugins_def demo_event_def)
  from this plugins_keep_event [OF this] show ?thesis
    by (auto simp: demo_event_def envelope_flags_def)
qed

text \<open>C38. The offset of a parked message is passed over: the loop goes on after a required
  destination failed, and the next message of the partition that is served commits its own, higher
  offset; the offset of the failed message is never committed, but the committed position of the
  partition is beyond it.\<close>

theorem failed_message_passed_over:
  assumes "deliver_to_routes cr w con (msg_topic m1) env1 tr = (Inr DoNotCommit, tr1)"
    and "deliver_to_routes cr w con (msg_topic m2) env2 tr1 = (Inr Commit, tr2)" "w_commit w tr2"
    and "Option.bind (msg_payload m1) de = Some env1" "Option.bind (msg_payload m2) de = Some env2"
    and "msg_topic m1 = msg_topic m2" "msg_partition m1 = msg_partition m2" "msg_offset m1 < msg_offset m2"
  shows "\<exists>es. consumer_run cr de w con [Some m1, Some m2] tr = tr @ es \<and>
     parked con env1 es \<and> committed m2 es \<and> \<not> committed m1 es"
proof -
  obtain es1 where es1: "tr1 = tr @ es1" "no_commit es1" "parked con env1 es1"
    using deliver_to_routes_trace [OF assms(1)] by blast
  obtain es2 where es2: "tr2 = tr1 @ es2" "no_commit es2"
    using deliver_to_routes_trace [OF assms(2)] by blast
  have "consumer_run cr de w con [Some m1, Some m2] tr =
      tr2 @ [CommitOffset (msg_topic m2) (msg_partition m2) (msg_offset m2)]"
    using assms by (auto simp: process_message_def bind_eq_Some_conv)
  with es1 es2 assms(6-8) show ?thesis
    by (intro exI [of _ "es1 @ es2 @ [CommitOffset (msg_topic m2) (msg_partition m2) (msg_offset m2)]"])
       (auto simp: parked_def committed_def no_commit_def)
qed

theorem failed_message_passed_over_witness:
  "\<exists>es. consumer_run demo_crates (\<lambda>raw. Some (demo_event raw)) demo_world demo_consumer
          [Some (demo_message ''bad'' 7), Some (demo_message ''good'' 8)] [] = es
      \<and> committed (demo_message ''good'' 8) es \<and> \<not> committed (demo_message ''bad'' 7) es"
  using failed_message_passed_over [of demo_crates demo_world demo_consumer "demo_message ''bad'' 7" "demo_event ''bad''" "[]" _
      "demo_message ''good'' 8" "demo_event ''good''" _ "\<lambda>raw. Some (demo_event raw)",
      unfolded demo_message_fields, OF demo_deliver_bad demo_deliver_good]
  by auto

end
