(* ===== verification/Pipeline.thy ===== *)
theory Pipeline
  imports Serve_Machine Smash
begin

section \<open>From the webhook to the outputs\<close>

text \<open>
  The two programs joined by Kafka. The receiver's publish worker appends records to the log, the
  consumer processes records of the log; the retries of the producer may store a record more than
  once, or store one whose acknowledgement was lost. The state is that of the receiver, the log and
  the trace of the consumer; every interleaving of the two programs is a sequence of steps. Other
  writers of the topics (\<open>hook relay\<close>, \<open>replay\<close> and \<open>test\<close>) are left out.
\<close>

record log_record =
  rec_topic :: string
  rec_key :: string
  rec_payload :: string

definition job_record :: "publish_job \<Rightarrow> string \<Rightarrow> log_record" where
  "job_record job payload =
     \<lparr>rec_topic = job_topic job, rec_key = ev_id (job_envelope job), rec_payload = payload\<rparr>"

record pipeline =
  pl_receiver :: app_state
  pl_log :: "log_record list"
  pl_trace :: trace

text \<open>Reading a record as the consumer gets it.\<close>

definition carries :: "kafka_message \<Rightarrow> log_record \<Rightarrow> bool" where
  "carries m r \<longleftrightarrow> msg_topic m = rec_topic r \<and> msg_payload m = Some (rec_payload r)"

inductive pipeline_step ::
  "crates \<Rightarrow> ingress_crates \<Rightarrow> channel \<Rightarrow> (event_envelope \<Rightarrow> string option) \<Rightarrow>
   (string \<Rightarrow> string \<Rightarrow> string \<Rightarrow> nat \<Rightarrow> string option) \<Rightarrow> kafka_publisher \<Rightarrow>
   (string \<Rightarrow> event_envelope option) \<Rightarrow> world \<Rightarrow> kafka_consumer \<Rightarrow> pipeline \<Rightarrow> pipeline \<Rightarrow> bool"
  for cr ic ch serialize send pub de w con where
  pl_receive: "serve_step cr ic ch (pl_receiver p) st \<Longrightarrow> prefix (publish_queue (pl_receiver p)) (publish_queue st) \<Longrightarrow>
     pipeline_step cr ic ch serialize send pub de w con p (p\<lparr>pl_receiver := st\<rparr>)"
| pl_publish: "publish_queue (pl_receiver p) = job # rest \<Longrightarrow> serialize (job_envelope job) = Some payload \<Longrightarrow>
     fst (publish serialize send pub job) = Inr () \<longrightarrow> copies \<noteq> 0 \<Longrightarrow>
     pipeline_step cr ic ch serialize send pub de w con p
       (p\<lparr>pl_receiver := (pl_receiver p)\<lparr>publish_queue := rest\<rparr>,
          pl_log := pl_log p @ replicate copies (job_record job payload)\<rparr>)"
| pl_unserializable: "publish_queue (pl_receiver p) = job # rest \<Longrightarrow> serialize (job_envelope job) = None \<Longrightarrow>
     pipeline_step cr ic ch serialize send pub de w con p
       (p\<lparr>pl_receiver := (pl_receiver p)\<lparr>publish_queue := rest\<rparr>\<rparr>)"
| pl_consume: "r \<in> set (pl_log p) \<Longrightarrow> carries m r \<Longrightarrow>
     pipeline_step cr ic ch serialize send pub de w con p
       (p\<lparr>pl_trace := snd (process_message cr de w con m (pl_trace p))\<rparr>)"

inductive_cases pipeline_stepE: "pipeline_step cr ic ch serialize send pub de w con p p'"

text \<open>What the JSON library promises of its writer and reader of envelopes: strings and booleans come back as
  they were. It may refuse to read a text it wrote (one nested too deeply), and it may read another number
  (floating point), so an envelope need not come back as a whole.\<close>

definition codec_keeps :: "(event_envelope \<Rightarrow> string option) \<Rightarrow> (string \<Rightarrow> event_envelope option) \<Rightarrow> bool" where
  "codec_keeps serialize de \<longleftrightarrow>
     (\<forall>env payload env'. serialize env = Some payload \<longrightarrow> de payload = Some env' \<longrightarrow>
        ev_source env' = ev_source env
        \<and> (\<forall>k b. json_get k (ev_payload env) = Some (JBool b) \<longrightarrow> json_get k (ev_payload env') = Some (JBool b)))"

subsection \<open>Envelopes along the way\<close>

text \<open>An envelope the receiver may emit: its source is enabled and its payload went through the
  sanitiser. No plugin of the consumer changes that.\<close>

definition fit :: "config \<Rightarrow> event_envelope \<Rightarrow> bool" where
  "fit c env \<longleftrightarrow> is_source_enabled c (ev_source env) \<and> json_get ''_sanitized'' (ev_payload env) = Some (JBool True)"

lemma job_ok_fit: "job_ok c job \<Longrightarrow> fit c (job_envelope job)"
  by (simp add: job_ok_def fit_def)

lemma fit_plugins: "apply_smash_plugins cr aid ps env = Inr env' \<Longrightarrow> fit c env \<Longrightarrow> fit c env'"
  by (simp add: fit_def apply_smash_plugins_frame)

text \<open>Every envelope that left the consumer is fit.\<close>

fun effect_fit :: "config \<Rightarrow> effect \<Rightarrow> bool" where
  "effect_fit c (Deliver aid env accepted) = fit c env"
| "effect_fit c (DlqPublish topic d) = fit c (dlq_event d)"
| "effect_fit c (CommitOffset t p n) = True"

abbreviation trace_fit :: "config \<Rightarrow> trace \<Rightarrow> bool" where
  "trace_fit c tr \<equiv> list_all (effect_fit c) tr"

lemma deliver_destination_fit:
  "fit c env \<Longrightarrow> trace_fit c tr \<Longrightarrow> trace_fit c (snd (deliver_destination cr w con aid env tr))"
  by (auto simp: deliver_destination_def Let_def fit_plugins split: sum.splits)

lemma publish_failed_fit:
  "fit c env \<Longrightarrow> trace_fit c tr \<Longrightarrow> trace_fit c (snd (publish_failed w con env reason tr))"
  by (auto simp: publish_failed_def Let_def split: option.splits sum.splits)

lemma handle_no_output_fit:
  "fit c env \<Longrightarrow> trace_fit c tr \<Longrightarrow> trace_fit c (snd (handle_no_output w con env reason tr))"
  using publish_failed_fit [of c env tr w con reason]
  by (auto simp: handle_no_output_def split: option.splits no_output_sink.splits prod.splits sum.splits)

lemma deliver_required_fit:
  "fit c env \<Longrightarrow> trace_fit c tr \<Longrightarrow> trace_fit c (snd (deliver_required cr w con rid env ds tr))"
proof (induction ds arbitrary: tr)
  case (Cons d ds)
  obtain r1 tr1 where one: "deliver_destination cr w con (dest_adapter_id d) env tr = (r1, tr1)" by force
  then have "trace_fit c tr1" using deliver_destination_fit [OF Cons.prems, of cr w con "dest_adapter_id d"] by simp
  with one Cons.IH [OF Cons.prems(1) this] publish_failed_fit [OF Cons.prems(1) this] show ?case
    by (auto simp: Let_def split: sum.splits prod.splits) (metis snd_conv)+
qed simp

lemma deliver_optional_fit:
  "fit c env \<Longrightarrow> trace_fit c tr \<Longrightarrow> trace_fit c (deliver_optional cr w con env ds tr)"
  by (induction ds arbitrary: tr) (simp_all add: deliver_destination_fit)

lemma deliver_routes_fit:
  "fit c env \<Longrightarrow> trace_fit c tr \<Longrightarrow> trace_fit c (snd (deliver_routes cr w con env rs n tr))"
proof (induction rs arbitrary: n tr)
  case (Cons r rs)
  let ?req = "filter dest_required (destinations r)"
  obtain r1 tr1 where one: "deliver_required cr w con (sroute_id r) env ?req tr = (r1, tr1)" by force
  then have "trace_fit c tr1" using deliver_required_fit [OF Cons.prems, of cr w con "sroute_id r" ?req] by simp
  with one Cons.IH [OF Cons.prems(1) deliver_optional_fit [OF Cons.prems(1) this]] show ?case
    by (auto simp: Let_def split: sum.splits bool.splits)
qed simp

lemma deliver_to_routes_fit:
  "fit c env \<Longrightarrow> trace_fit c tr \<Longrightarrow> trace_fit c (snd (deliver_to_routes cr w con topic env tr))"
  using deliver_routes_fit [of c env tr cr w con "matched_routes con topic env" 0]
  by (auto simp: deliver_to_routes_def Let_def handle_no_output_fit split: prod.splits sum.splits option.splits)

lemma process_message_fit:
  assumes "trace_fit c tr" "\<And>env. Option.bind (msg_payload m) de = Some env \<Longrightarrow> fit c env"
  shows "trace_fit c (snd (process_message cr de w con m tr))"
proof (cases "Option.bind (msg_payload m) de")
  case None
  with assms(1) show ?thesis by (auto simp: process_message_def bind_eq_None_conv split: option.splits)
next
  case (Some env)
  obtain q tr1 where run: "deliver_to_routes cr w con (msg_topic m) env tr = (q, tr1)" by force
  with deliver_to_routes_fit [OF assms(2) [OF Some] assms(1), of cr w con "msg_topic m"] have "trace_fit c tr1" by simp
  with Some run show ?thesis
    by (auto simp: process_message_def bind_eq_Some_conv split: sum.splits delivery_outcome.splits)
qed

subsection \<open>The invariant of the pipeline\<close>

definition pipeline_inv ::
  "nat \<Rightarrow> config \<Rightarrow> (string \<Rightarrow> event_envelope option) \<Rightarrow> pipeline \<Rightarrow> bool" where
  "pipeline_inv capacity c de p \<longleftrightarrow>
     serve_inv capacity c (pl_receiver p)
     \<and> (\<forall>r \<in> set (pl_log p). \<forall>env. de (rec_payload r) = Some env \<longrightarrow> fit c env)
     \<and> trace_fit c (pl_trace p)"

lemma serve_inv_rest:
  "serve_inv capacity c st \<Longrightarrow> publish_queue st = job # rest \<Longrightarrow> serve_inv capacity c (st\<lparr>publish_queue := rest\<rparr>)"
  by (auto simp: serve_inv_def)

lemma pipeline_step_inv:
  assumes "pipeline_step cr ic ch serialize send pub de w con p p'" "channel_ok capacity ch" "codec_keeps serialize de"
    "pipeline_inv capacity c de p"
  shows "pipeline_inv capacity c de p'"
  using assms(1)
proof (cases rule: pipeline_step.cases)
  case (pl_receive st)
  then show ?thesis using serve_step_inv [OF pl_receive(2) assms(2)] assms(4) by (simp add: pipeline_inv_def)
next
  case (pl_publish job rest payload copies)
  from pl_publish(2) assms(4) have "fit c (job_envelope job)" by (simp add: pipeline_inv_def serve_inv_def job_ok_fit)
  with pl_publish(3) assms(3) have "fit c env" if "de payload = Some env" for env
    using that unfolding codec_keeps_def fit_def by metis
  then show ?thesis
    using pl_publish(1,2) assms(4) serve_inv_rest [OF _ pl_publish(2)] by (auto simp: pipeline_inv_def job_record_def)
next
  case (pl_unserializable job rest)
  then show ?thesis using assms(4) serve_inv_rest [OF _ pl_unserializable(2)] by (simp add: pipeline_inv_def)
next
  case (pl_consume r m)
  from pl_consume(2,3) assms(4) have "fit c env" if "Option.bind (msg_payload m) de = Some env" for env
    using that by (auto simp: carries_def pipeline_inv_def)
  with process_message_fit [of c "pl_trace p" m de cr w con] pl_consume(1) assms(4) show ?thesis
    by (simp add: pipeline_inv_def)
qed

lemma pipeline_reachable_inv:
  assumes "(pipeline_step cr ic ch serialize send pub de w con)\<^sup>*\<^sup>* p p'" "channel_ok capacity ch" "codec_keeps serialize de"
    "pipeline_inv capacity c de p"
  shows "pipeline_inv capacity c de p'"
  using assms(1) by (induction rule: rtranclp_induct) (use assms pipeline_step_inv in blast)+

subsection \<open>One pass through the pipeline\<close>

text \<open>The records of the jobs the worker reports as published, and the messages a consumer with
  these subscriptions gets from one partition of them.\<close>

definition published_log ::
  "(event_envelope \<Rightarrow> string option) \<Rightarrow> (publish_job \<times> unit result) list \<Rightarrow> log_record list" where
  "published_log serialize rs =
     List.map_filter (\<lambda>(job, r). if isl r then None else map_option (job_record job) (serialize (job_envelope job))) rs"

definition received_messages :: "string list \<Rightarrow> log_record list \<Rightarrow> kafka_message option list" where
  "received_messages topics rs =
     map (\<lambda>(n, r). Some \<lparr>msg_topic = rec_topic r, msg_partition = 0, msg_offset = n, msg_payload = Some (rec_payload r)\<rparr>)
       (filter (\<lambda>(n, r). rec_topic r \<in> set topics) (enumerate 0 rs))"

definition pass_through ::
  "crates \<Rightarrow> (event_envelope \<Rightarrow> string option) \<Rightarrow> (string \<Rightarrow> string \<Rightarrow> string \<Rightarrow> nat \<Rightarrow> string option) \<Rightarrow>
   kafka_publisher \<Rightarrow> (string \<Rightarrow> event_envelope option) \<Rightarrow> world \<Rightarrow> smash_config \<Rightarrow> publish_job list \<Rightarrow> trace" where
  "pass_through cr serialize send pub de w c jobs =
     consumer_run cr de w (consumer_from_config c)
       (received_messages (sc_kafka_topics c)
          (published_log serialize (run_publish_worker serialize send pub jobs))) []"

lemma publish_accepted:
  assumes "serialize (job_envelope job) = Some payload" "i < attempts pub"
    "send (job_topic job) (ev_id (job_envelope job)) payload i = None"
  shows "fst (publish serialize send pub job) = Inr ()"
proof -
  let ?send = "send (job_topic job) (ev_id (job_envelope job)) payload"
  obtain k where k: "k < attempts pub" "\<forall>i < k. ?send i \<noteq> None" "?send k = None \<or> Suc k = attempts pub"
    using first_or_last by blast
  then have "publish_loop ?send pub 0 = (publish_result ?send k, attempt_trace pub 0 k)"
    using publish_loop_trace [of 0 k pub ?send] by simp
  moreover have "?send k = None" using k assms(2,3) by (metis less_SucE)
  ultimately show ?thesis using assms(1) by (simp add: publish_def publish_result_def)
qed

lemma worker_publishes:
  "job \<in> set jobs \<Longrightarrow> fst (publish serialize send pub job) = Inr () \<Longrightarrow>
     (job, Inr ()) \<in> set (run_publish_worker serialize send pub jobs)"
  by (induction jobs) auto

lemma published_logged:
  assumes "(job, Inr ()) \<in> set rs" "serialize (job_envelope job) = Some payload"
  shows "job_record job payload \<in> set (published_log serialize rs)"
  using assms by (force simp: published_log_def map_filter_def)

lemma logged_received:
  assumes "r \<in> set rs" "rec_topic r \<in> set topics"
  shows "\<exists>m. Some m \<in> set (received_messages topics rs) \<and> carries m r"
proof -
  from assms(1) obtain n where "n < length rs" "rs ! n = r" by (auto simp: in_set_conv_nth)
  then have "(n, r) \<in> set (enumerate 0 rs)" by (force simp: in_set_enumerate_eq)
  with assms(2) show ?thesis
    by (intro exI [of _ "\<lparr>msg_topic = rec_topic r, msg_partition = 0, msg_offset = n, msg_payload = Some (rec_payload r)\<rparr>"])
       (force simp: received_messages_def carries_def)
qed

lemma process_message_extends: "\<exists>es. snd (process_message cr de w con m tr) = tr @ es"
proof -
  obtain r tr' where run: "process_message cr de w con m tr = (r, tr')" by force
  then show ?thesis by (cases rule: process_message_trace) (use run in auto)
qed

lemma consumer_run_extends: "\<exists>es. consumer_run cr de w con received tr = tr @ es"
proof (induction cr de w con received tr rule: consumer_run.induct)
  case (3 cr de w con m received tr)
  with process_message_extends [of cr de w con m tr] show ?case by auto
qed auto

text \<open>Each received message is processed at some point of the run, and what it leaves stays.\<close>

lemma consumer_run_processes:
  "Some m \<in> set received \<Longrightarrow>
     \<exists>before es. consumer_run cr de w con received tr = snd (process_message cr de w con m before) @ es"
proof (induction cr de w con received tr rule: consumer_run.induct)
  case (3 cr de w con m' received tr)
  show ?case
  proof (cases "Some m \<in> set received")
    case True
    with 3 show ?thesis by simp
  next
    case False
    with 3(2) have "m' = m" by simp
    with consumer_run_extends [of cr de w con received "snd (process_message cr de w con m tr)"] show ?thesis by auto
  qed
qed auto

subsection \<open>Properties\<close>

text \<open>C7. Nothing reaches an output but what the receiver admitted: in every state of the two programs and the
  log between them, under any interleaving, retries and duplicated records, every envelope that was
  offered to an output or parked on the dead-letter topic has a source enabled in the receiver and a
  payload its sanitiser has marked. Of the JSON library it uses only that strings and booleans it reads
  back are those it wrote.\<close>

theorem pipeline_delivers_admitted:
  assumes "startup cc create_client create_topics create_producer e = Inr (st0, pub, sel)"
    and "channel_ok (unat (publish_queue_capacity (app_config st0))) ch" "codec_keeps serialize de"
    and "(pipeline_step cr ic ch serialize send pub de w con)\<^sup>*\<^sup>*
           \<lparr>pl_receiver = st0, pl_log = [], pl_trace = []\<rparr> p"
  shows "list_all (effect_fit (app_config st0)) (pl_trace p)"
proof -
  obtain c where c: "app_config st0 = c" "publish_queue st0 = []"
    using assms(1) by (auto simp: startup_def result_iffs)
  then have "serve_inv (unat (publish_queue_capacity c)) c st0" by (simp add: serve_inv_def)
  then have "pipeline_inv (unat (publish_queue_capacity c)) c de \<lparr>pl_receiver = st0, pl_log = [], pl_trace = []\<rparr>"
    by (simp add: pipeline_inv_def)
  from pipeline_reachable_inv [OF assms(4) _ assms(3) this] assms(2) c show ?thesis by (simp add: pipeline_inv_def)
qed

text \<open>The job of the demo webhook, from the receiver's demo to the consumer's.\<close>

definition demo_queued :: publish_job where
  "demo_queued = admitted_job (demo_moment 1700000000) demo_state demo_admission"

definition demo_serialize :: "event_envelope \<Rightarrow> string option" where
  "demo_serialize env = (if env = job_envelope demo_queued then Some ''event'' else None)"

definition demo_read :: "string \<Rightarrow> event_envelope option" where
  "demo_read payload = (if payload = ''event'' then Some (job_envelope demo_queued) else None)"

lemma demo_codec: "codec_keeps demo_serialize demo_read"
  by (simp add: codec_keeps_def demo_serialize_def demo_read_def)

lemma demo_queued_fields:
  "job_topic demo_queued = ''webhooks.github''" "ev_id (job_envelope demo_queued) = ''e1''"
proof -
  have "route_topic demo_config ''github'' ''ping.opened'' = ''webhooks.github''" by code_simp
  moreover have "sh_source_name github_handler = ''github''" by (simp add: github_handler_def)
  ultimately show "job_topic demo_queued = ''webhooks.github''" "ev_id (job_envelope demo_queued) = ''e1''"
    by (simp_all add: demo_queued_def admitted_job_def demo_admission_def demo_state_def Let_def build_envelope_def demo_moment_def)
qed

lemma demo_webhook_queued:
  "\<exists>st'. webhook_handler demo_webhook_crates (bounded_channel 4096) (demo_moment 1700000000) demo_state ''github''
       demo_request ''{}'' = (ok_response (event_uuid (demo_moment 1700000000)), st') \<and> publish_queue st' = [demo_queued]"
proof -
  obtain resp st' where w: "webhook_handler demo_webhook_crates (bounded_channel 4096) (demo_moment 1700000000) demo_state
      ''github'' demo_request ''{}'' = (resp, st')" using prod.exhaust by blast
  have "try_send (bounded_channel 4096) (publish_queue demo_state) job = SendOk" for job
    by (simp add: bounded_channel_def demo_state_def)
  with admitted_complete [OF demo_admitted] have r: "resp = ok_response (event_uuid (demo_moment 1700000000))"
    using w by (metis fst_conv)
  then obtain a where a: "admitted demo_webhook_crates (demo_moment 1700000000) demo_state ''github'' demo_request ''{}'' a"
    "publish_queue st' = [admitted_job (demo_moment 1700000000) demo_state a]"
    using webhook_handler_outcome [of "bounded_channel 4096" "demo_moment 1700000000" demo_state demo_webhook_crates
        "''github''" demo_request "''{}''"] w by (auto simp: outcome_def demo_state_def)
  have "a = demo_admission" using a(1) demo_admitted by (auto simp: admitted_def demo_admission_def)
  with a(2) w r show ?thesis by (auto simp: demo_queued_def)
qed

lemma demo_legacy_matches: "route_matches (legacy_route ''webhooks.github'') ''webhooks.github'' event_type"
proof -
  have "smash_wildcard_matches ''webhooks.github'' ''webhooks.github''" by code_simp
  then show ?thesis by (simp add: route_matches_def route_event_filter_match_def legacy_route_def)
qed

lemma demo_takes:
  "d \<in> set (destinations (legacy_route t)) \<Longrightarrow>
     takes demo_webhook_crates demo_world demo_consumer (job_envelope demo_queued) d"
  by (simp add: takes_def demo_consumer_eq apply_smash_plugins_def demo_world_def legacy_destinations demo_queued_fields)

lemma demo_startup_state: "\<exists>p sel. demo_startup = (demo_state, p, sel)"
proof -
  obtain st p sel where d: "demo_startup = (st, p, sel)" using prod_cases3 by blast
  have start: "startup demo_config_crates (\<lambda>_. True) (\<lambda>_ _ _. Some []) (\<lambda>_. True) demo_env = Inr (st, p, sel)"
    using demo_startup_runs d by simp
  have sel: "resolve_ingress_runtime demo_env demo_config = Inr
      \<lparr>sel_http_path = ''/webhook/{source}'', sel_http_adapter_id = None, sel_http_plugins = [],
       sel_websocket = None, sel_mcp = None, sel_kafka = []\<rparr>" by code_simp
  have n: "source_limit_per_minute demo_config = 500" "cfg_dedup_ttl_seconds demo_config = 604800"
    "cfg_cooldown_seconds demo_config = 30" by code_simp+
  have "st = demo_state" using start sel n by (auto simp: startup_def result_iffs demo_config_loaded demo_state_def)
  with d show ?thesis by blast
qed

theorem pipeline_delivers_admitted_witness:
  "is_source_enabled demo_config (ev_source (job_envelope demo_queued))"
proof -
  obtain pub sel where d: "demo_startup = (demo_state, pub, sel)" using demo_startup_state by blast
  let ?step = "pipeline_step demo_webhook_crates demo_ingress_crates (bounded_channel 4096) demo_serialize (\<lambda>_ _ _ _. None)
      pub demo_read demo_world demo_consumer"
  let ?p0 = "\<lparr>pl_receiver = demo_state, pl_log = [], pl_trace = []\<rparr>"
  let ?m = "\<lparr>msg_topic = ''webhooks.github'', msg_partition = 0, msg_offset = 0, msg_payload = Some ''event''\<rparr>"
  obtain st' where st': "webhook_handler demo_webhook_crates (bounded_channel 4096) (demo_moment 1700000000) demo_state
      ''github'' demo_request ''{}'' = (ok_response (event_uuid (demo_moment 1700000000)), st')"
    and q: "publish_queue st' = [demo_queued]" using demo_webhook_queued by blast
  let ?p1 = "?p0\<lparr>pl_receiver := st'\<rparr>"
  let ?p2 = "?p1\<lparr>pl_receiver := (pl_receiver ?p1)\<lparr>publish_queue := []\<rparr>,
      pl_log := pl_log ?p1 @ replicate 1 (job_record demo_queued ''event'')\<rparr>"
  let ?p3 = "?p2\<lparr>pl_trace := snd (process_message demo_webhook_crates demo_read demo_world demo_consumer ?m (pl_trace ?p2))\<rparr>"
  have "serve_step demo_webhook_crates demo_ingress_crates (bounded_channel 4096) demo_state st'"
    using step_webhook [of demo_webhook_crates demo_ingress_crates "bounded_channel 4096" demo_state
        "demo_moment 1700000000" "''github''" demo_request "''{}''"] st' by simp
  then have "?step ?p0 ?p1" by (intro pl_receive) (simp_all add: demo_state_def)
  moreover have "?step ?p1 ?p2" by (rule pl_publish) (simp_all add: q demo_serialize_def)
  moreover have "?step ?p2 ?p3"
    by (rule pl_consume [of "job_record demo_queued ''event''"]) (simp_all add: carries_def job_record_def demo_queued_fields)
  ultimately have reach: "?step\<^sup>*\<^sup>* ?p0 ?p3" by (meson converse_rtranclp_into_rtranclp rtranclp.rtrancl_refl)
  have cap: "unat (publish_queue_capacity demo_config) = 4096" by code_simp
  have "channel_ok (unat (publish_queue_capacity (app_config demo_state))) (bounded_channel 4096)"
    using bounded_channel_ok [of 4096] cap by (simp add: demo_state_def)
  from pipeline_delivers_admitted [OF demo_startup_runs [unfolded d] this demo_codec reach]
  have "list_all (effect_fit demo_config) (pl_trace ?p3)" by (simp add: demo_state_def)
  moreover obtain env' where "Deliver ''openclaw-output'' env' True \<in> set (pl_trace ?p3)"
    "ev_source env' = ev_source (job_envelope demo_queued)"
  proof -
    let ?env = "job_envelope demo_queued" and ?r = "legacy_route ''webhooks.github''"
    have r: "?r \<in> set (matched_routes demo_consumer ''webhooks.github'' ?env)"
      by (simp add: demo_consumer_eq demo_legacy_matches)
    have "\<forall>r \<in> set (matched_routes demo_consumer ''webhooks.github'' ?env). \<forall>d \<in> set (destinations r). dest_required d \<longrightarrow>
        dest_adapter_id d \<in> set (con_adapters demo_consumer) \<and> takes demo_webhook_crates demo_world demo_consumer ?env d"
      using demo_takes by (auto simp: demo_consumer_eq legacy_destinations)
    from deliver_to_routes_takes [OF this r, of "[]"] obtain tr1 where
      del: "deliver_to_routes demo_webhook_crates demo_world demo_consumer ''webhooks.github'' ?env [] = (Inr Commit, tr1)"
      by (auto simp: legacy_destinations)
    from deliver_to_routes_trace [OF del]
    have "required_served demo_webhook_crates demo_consumer (matched_routes demo_consumer ''webhooks.github'' ?env) ?env tr1"
      by auto
    with r have "delivered demo_webhook_crates demo_consumer ''openclaw-output'' ?env tr1"
      by (force simp: required_served_def legacy_destinations)
    then obtain env' where env': "Deliver ''openclaw-output'' env' True \<in> set tr1" "ev_source env' = ev_source ?env"
      by (auto simp: delivered_def dest: apply_smash_plugins_frame)
    moreover have "set tr1 \<subseteq> set (pl_trace ?p3)"
      using del by (simp add: process_message_def demo_read_def) auto
    ultimately show ?thesis using that by blast
  qed
  ultimately show ?thesis by (auto simp: list_all_iff fit_def)
qed

text \<open>C8. An accepted webhook arrives: when a webhook is answered with success, its envelope is written as JSON
  and that text read back gives the envelope, the broker accepts some attempt to publish its job, the
  consumer is subscribed to the topic of the job, some route with a destination matches and the required
  destinations of the matching routes take the envelope, then the pass of the queue through worker, log
  and consumer serves every required destination and commits the record. The reading back is a condition
  on this one envelope: a payload at the nesting limit of the JSON library is accepted by the receiver, but
  its envelope, one level deeper, is not read by the consumer.\<close>

theorem accepted_webhook_delivered:
  assumes "webhook_handler cr ch now st path hs body = (ok_response (event_uuid now), st')"
    and job: "job = last (publish_queue st')"
    and "serialize (job_envelope job) = Some payload" "de payload = Some (job_envelope job)"
    and "i < attempts pub" "send (job_topic job) (ev_id (job_envelope job)) payload i = None"
    and "smash_from_env sc e = Inr c" "job_topic job \<in> set (sc_kafka_topics c)"
    and "r \<in> set (smash_routes c)" "route_matches r (job_topic job) (ev_type (job_envelope job))" "destinations r \<noteq> []"
    and "\<And>r d. r \<in> set (smash_routes c) \<Longrightarrow> route_matches r (job_topic job) (ev_type (job_envelope job)) \<Longrightarrow>
           d \<in> set (destinations r) \<Longrightarrow> dest_required d \<Longrightarrow> takes cr w (consumer_from_config c) (job_envelope job) d"
    and "\<And>tr. w_commit w tr"
  shows "\<exists>m. let tr = pass_through cr serialize send pub de w c (publish_queue st') in
     ev_id (job_envelope job) = event_uuid now \<and> msg_topic m = job_topic job \<and> msg_payload m = Some payload \<and> committed m tr
     \<and> required_served cr (consumer_from_config c)
          (matched_routes (consumer_from_config c) (job_topic job) (job_envelope job)) (job_envelope job) tr"
proof -
  let ?con = "consumer_from_config c" and ?env = "job_envelope job"
  obtain a where a: "publish_queue st' = publish_queue st @ [admitted_job now st a]"
    using webhook_handler_outcome [of ch now st cr path hs body] assms(1) by (auto simp: outcome_def)
  then have mem: "job \<in> set (publish_queue st')" and eid: "ev_id ?env = event_uuid now"
    by (simp_all add: job admitted_job_def Let_def build_envelope_def)
  have "fst (publish serialize send pub job) = Inr ()" by (rule publish_accepted) (use assms(3,5,6) in simp_all)
  from published_logged [of job _ serialize, OF worker_publishes [of job "publish_queue st'" serialize send pub] assms(3), OF mem this]
  have "job_record job payload \<in> set (published_log serialize (run_publish_worker serialize send pub (publish_queue st')))" .
  from logged_received [OF this, of "sc_kafka_topics c"] assms(8) obtain m where
    m: "Some m \<in> set (received_messages (sc_kafka_topics c)
          (published_log serialize (run_publish_worker serialize send pub (publish_queue st'))))"
    and carry: "carries m (job_record job payload)" by (auto simp: job_record_def)
  from carry have mt: "msg_topic m = job_topic job" "msg_payload m = Some payload"
    by (simp_all add: carries_def job_record_def)
  with assms(3,4) have dec: "Option.bind (msg_payload m) de = Some ?env" by simp
  obtain before es where run: "pass_through cr serialize send pub de w c (publish_queue st')
      = snd (process_message cr de w ?con m before) @ es"
    using consumer_run_processes [OF m, of cr de w ?con "[]"] unfolding pass_through_def by blast
  have known: "\<forall>r \<in> set (matched_routes ?con (job_topic job) ?env). \<forall>d \<in> set (destinations r). dest_required d \<longrightarrow>
      dest_adapter_id d \<in> set (con_adapters ?con) \<and> takes cr w ?con ?env d"
    using assms(12) loaded_destination_known [OF smash_from_env_wf [OF assms(7)]] by (auto simp: consumer_from_config_def)
  have "r \<in> set (matched_routes ?con (job_topic job) ?env)" using assms(9,10) by (simp add: consumer_from_config_def)
  from deliver_to_routes_takes [OF known this assms(11), of before] obtain tr1 where
    del: "deliver_to_routes cr w ?con (job_topic job) ?env before = (Inr Commit, tr1)" by blast
  from deliver_to_routes_trace [OF del] obtain es1 where es1: "tr1 = before @ es1"
    "required_served cr ?con (matched_routes ?con (job_topic job) ?env) ?env es1" by blast
  have "snd (process_message cr de w ?con m before) =
      tr1 @ [CommitOffset (msg_topic m) (msg_partition m) (msg_offset m)]"
    using del dec mt assms(13) by (auto simp: process_message_def bind_eq_Some_conv)
  with run es1 have tr: "pass_through cr serialize send pub de w c (publish_queue st') =
      before @ es1 @ [CommitOffset (msg_topic m) (msg_partition m) (msg_offset m)] @ es" by simp
  have "required_served cr ?con (matched_routes ?con (job_topic job) ?env) ?env
      (before @ es1 @ [CommitOffset (msg_topic m) (msg_partition m) (msg_offset m)] @ es)"
    using es1(2) by (rule required_served_mono) auto
  with mt eid tr show ?thesis by (intro exI [of _ m]) (simp add: Let_def committed_def)
qed

theorem accepted_webhook_delivered_witness:
  "\<exists>m. msg_topic m = ''webhooks.github'' \<and> committed m (pass_through demo_webhook_crates demo_serialize (\<lambda>_ _ _ _. None) demo_publisher
     demo_read demo_world demo_smash_config [demo_queued])"
proof -
  obtain st' where st': "webhook_handler demo_webhook_crates (bounded_channel 4096) (demo_moment 1700000000) demo_state
      ''github'' demo_request ''{}'' = (ok_response (event_uuid (demo_moment 1700000000)), st')"
    and q: "publish_queue st' = [demo_queued]" using demo_webhook_queued by blast
  have topics: "''webhooks.github'' \<in> set (sc_kafka_topics demo_smash_config)" by code_simp
  have routes: "smash_routes demo_smash_config = [legacy_route ''webhooks.github'', legacy_route ''webhooks.linear'']"
    by code_simp
  have tries: "0 < attempts demo_publisher" by (simp add: attempts_def)
  have "\<exists>m. let tr = pass_through demo_webhook_crates demo_serialize (\<lambda>_ _ _ _. None) demo_publisher demo_read demo_world
        demo_smash_config (publish_queue st') in
      ev_id (job_envelope demo_queued) = event_uuid (demo_moment 1700000000) \<and> msg_topic m = job_topic demo_queued
      \<and> msg_payload m = Some ''event'' \<and> committed m tr
      \<and> required_served demo_webhook_crates (consumer_from_config demo_smash_config)
          (matched_routes (consumer_from_config demo_smash_config) (job_topic demo_queued) (job_envelope demo_queued))
          (job_envelope demo_queued) tr"
  proof (rule accepted_webhook_delivered [OF st' _ _ _ tries _ demo_smash_loaded])
    show "route_matches (legacy_route ''webhooks.github'') (job_topic demo_queued) (ev_type (job_envelope demo_queued))"
      unfolding demo_queued_fields by (rule demo_legacy_matches)
    show "takes demo_webhook_crates demo_world (consumer_from_config demo_smash_config) (job_envelope demo_queued) d"
      if "r \<in> set (smash_routes demo_smash_config)" "d \<in> set (destinations r)" for r d
      using that demo_takes unfolding routes demo_consumer_def by auto
  qed (use topics routes in \<open>simp_all add: q demo_serialize_def demo_read_def demo_queued_fields legacy_destinations\<close>)
  then show ?thesis unfolding q demo_queued_fields Let_def by blast
qed

end
