(* ===== verification/Contract.thy ===== *)
theory Contract
  imports Json
begin

section \<open>The app contract and its validator\<close>

text \<open>
  \<open>crates/relay-core/src/contract.rs\<close> and \<open>contract_validator.rs\<close>: the data of a
  \<open>contract.toml\<close> and the check of one of its profiles. The validator pushes onto one vector of
  errors; here each step returns the errors it pushes and the caller appends them. A
  \<open>toml::Value\<close> is the datatype \<open>toml\<close>, with floats and datetimes as their text, which no
  check looks into; a \<open>BTreeMap\<close> is its list of entries. The reader of the TOML text is generated
  by serde and is not modelled, its hand-written parts (the drivers) are.
\<close>

subsection \<open>Data\<close>

datatype toml =
    TString string
  | TInteger i64
  | TFloat string
  | TBoolean bool
  | TDatetime string
  | TArray "toml list"
  | TTable "(string \<times> toml) list"

type_synonym toml_config = "(string \<times> toml) list"

datatype validation_mode = Strict | Debug

datatype contract_sink = Discard | Dlq

record app_meta =
  app_id :: string
  app_name :: string
  app_version :: string
  app_description :: "string option"

record policies =
  pol_allow_no_output :: bool
  pol_no_output_sink :: "contract_sink option"
  pol_validation_mode :: validation_mode

datatype ingress_driver =
    HttpWebhookDriver | WebsocketIngressDriver | McpIngestDriver | KafkaIngressDriver
  | UnknownIngress string

datatype egress_driver =
    OpenclawDriver | McpToolDriver | WebsocketClientDriver | WebsocketServerDriver | KafkaOutputDriver
  | UnknownEgress string

datatype transport_driver = StdioDriver | HttpSseDriver | UnknownTransport string

record ingress_adapter_def =
  in_id :: string
  in_driver :: ingress_driver
  in_config :: toml_config

record egress_adapter_def =
  out_id :: string
  out_driver :: egress_driver
  out_config :: toml_config

record serve_route_def =
  svr_id :: string
  svr_source_match :: string
  svr_event_type_pattern :: string
  svr_target_topic :: string

record destination_def =
  dst_adapter_id :: string
  dst_required :: bool

record smash_route_def =
  smr_id :: string
  smr_source_topic_pattern :: string
  smr_event_filters :: "string list"
  smr_destinations :: "destination_def list"

record profile_def =
  prof_label :: string
  prof_serve_adapters :: "string list"
  prof_smash_adapters :: "string list"
  prof_serve_routes :: "string list"
  prof_smash_routes :: "string list"
  prof_env :: "(string \<times> string) list"

record transport_def =
  tr_driver :: transport_driver
  tr_config :: toml_config

record serve_section =
  ingress_adapter_defs :: "ingress_adapter_def list"
  serve_route_defs :: "serve_route_def list"

record smash_section =
  egress_adapter_defs :: "egress_adapter_def list"
  smash_route_defs :: "smash_route_def list"

record app_contract =
  con_app :: app_meta
  con_policies :: policies
  con_serve :: serve_section
  con_smash :: smash_section
  con_profiles :: "(string \<times> profile_def) list"
  con_transports :: "(string \<times> transport_def) list"

subsection \<open>Drivers\<close>

fun ingress_as_str :: "ingress_driver \<Rightarrow> string" where
  "ingress_as_str HttpWebhookDriver = ''http_webhook_ingress''"
| "ingress_as_str WebsocketIngressDriver = ''websocket_ingress''"
| "ingress_as_str McpIngestDriver = ''mcp_ingest_exposed''"
| "ingress_as_str KafkaIngressDriver = ''kafka_ingress''"
| "ingress_as_str (UnknownIngress v) = v"

fun egress_as_str :: "egress_driver \<Rightarrow> string" where
  "egress_as_str OpenclawDriver = ''openclaw_http_output''"
| "egress_as_str McpToolDriver = ''mcp_tool_output''"
| "egress_as_str WebsocketClientDriver = ''websocket_client_output''"
| "egress_as_str WebsocketServerDriver = ''websocket_server_output''"
| "egress_as_str KafkaOutputDriver = ''kafka_output''"
| "egress_as_str (UnknownEgress v) = v"

fun transport_as_str :: "transport_driver \<Rightarrow> string" where
  "transport_as_str StdioDriver = ''stdio_jsonrpc''"
| "transport_as_str HttpSseDriver = ''http_sse''"
| "transport_as_str (UnknownTransport v) = v"

definition ingress_deserialize :: "string \<Rightarrow> ingress_driver" where
  "ingress_deserialize raw =
     (let s = to_ascii_lowercase (trim raw)
      in if s = ''http_webhook_ingress'' then HttpWebhookDriver
         else if s = ''websocket_ingress'' then WebsocketIngressDriver
         else if s = ''mcp_ingest_exposed'' then McpIngestDriver
         else if s = ''kafka_ingress'' then KafkaIngressDriver
         else UnknownIngress raw)"

definition egress_deserialize :: "string \<Rightarrow> egress_driver" where
  "egress_deserialize raw =
     (let s = to_ascii_lowercase (trim raw)
      in if s = ''openclaw_http_output'' then OpenclawDriver
         else if s = ''mcp_tool_output'' then McpToolDriver
         else if s = ''websocket_client_output'' then WebsocketClientDriver
         else if s = ''websocket_server_output'' then WebsocketServerDriver
         else if s = ''kafka_output'' then KafkaOutputDriver
         else UnknownEgress raw)"

definition transport_deserialize :: "string \<Rightarrow> transport_driver" where
  "transport_deserialize raw =
     (let s = to_ascii_lowercase (trim raw)
      in if s = ''stdio_jsonrpc'' then StdioDriver
         else if s = ''http_sse'' then HttpSseDriver
         else UnknownTransport raw)"

subsection \<open>Errors\<close>

record contract_error =
  err_code :: string
  err_message :: string
  security_critical :: bool

definition critical :: "string \<Rightarrow> string \<Rightarrow> contract_error" where
  "critical c m = \<lparr>err_code = c, err_message = m, security_critical = True\<rparr>"

text \<open>A check that pushes one error or none.\<close>

definition push_unless :: "bool \<Rightarrow> contract_error \<Rightarrow> contract_error list" where
  "push_unless ok e = (if ok then [] else [e])"

lemma push_unless_Nil_iff [simp]: "push_unless ok e = [] \<longleftrightarrow> ok"
  by (simp add: push_unless_def)

record validated_profile =
  vp_profile_name :: string
  vp_validation_mode :: validation_mode
  vp_serve_adapter_ids :: "string list"
  vp_smash_adapter_ids :: "string list"
  vp_serve_route_ids :: "string list"
  vp_smash_route_ids :: "string list"
  vp_skipped :: "string list"

subsection \<open>Schemas\<close>

fun is_non_empty_toml :: "toml \<Rightarrow> bool" where
  "is_non_empty_toml (TString v) = (\<not> blank v)"
| "is_non_empty_toml (TArray v) = (v \<noteq> [])"
| "is_non_empty_toml (TTable v) = (v \<noteq> [])"
| "is_non_empty_toml _ = True"

fun as_trimmed_str :: "toml \<Rightarrow> string option" where
  "as_trimmed_str (TString v) = Some (trim v)"
| "as_trimmed_str _ = None"

definition required_key_errors :: "string \<Rightarrow> toml_config \<Rightarrow> string \<Rightarrow> contract_error list" where
  "required_key_errors at config required_key =
     (case map_of config required_key of
        Some v \<Rightarrow> push_unless (is_non_empty_toml v)
          (critical ''empty_required_adapter_value'' (at @ '' has empty required key '' @ quoted required_key))
      | None \<Rightarrow> [critical ''missing_required_adapter_key'' (at @ '' is missing required key '' @ quoted required_key)])"

definition validate_adapter_config_schema ::
  "string \<Rightarrow> string \<Rightarrow> string \<Rightarrow> toml_config \<Rightarrow> string list \<Rightarrow> string list \<Rightarrow> contract_error list" where
  "validate_adapter_config_schema kind i driver_name config required_keys optional_keys =
     (let at = kind @ '' adapter '' @ quoted i @ '' (driver '' @ quoted driver_name @ '')''
      in concat (map (\<lambda>(key, _). push_unless (key \<in> set (required_keys @ optional_keys))
           (critical ''unknown_adapter_key'' (at @ '' has unknown key '' @ quoted key))) config)
         @ concat (map (required_key_errors at config) required_keys))"

text \<open>The required and optional keys of each driver.\<close>

fun ingress_schema :: "ingress_driver \<Rightarrow> string list \<times> string list" where
  "ingress_schema HttpWebhookDriver = ([''bind''], [''path_template'', ''plugins''])"
| "ingress_schema WebsocketIngressDriver = ([''auth_mode''], [''path_template'', ''plugins''])"
| "ingress_schema McpIngestDriver =
     ([''transport_driver'', ''bind'', ''auth_mode'', ''max_payload_bytes''],
      [''tool_name'', ''path'', ''token_env'', ''plugins''])"
| "ingress_schema KafkaIngressDriver = ([''topics'', ''group_id''], [''brokers'', ''plugins''])"
| "ingress_schema (UnknownIngress _) = ([], [])"

fun egress_schema :: "egress_driver \<Rightarrow> string list \<times> string list" where
  "egress_schema OpenclawDriver =
     ([''url'', ''token_env'', ''timeout_seconds'', ''max_retries''], [''plugins''])"
| "egress_schema McpToolDriver = ([''tool_name'', ''transport_ref''], [''plugins''])"
| "egress_schema WebsocketClientDriver =
     ([''url'', ''auth_mode'', ''send_timeout_ms'', ''retry_policy''], [''plugins''])"
| "egress_schema WebsocketServerDriver =
     ([''bind'', ''path'', ''auth_mode'', ''max_clients'', ''queue_depth_per_client'', ''send_timeout_ms''],
      [''plugins''])"
| "egress_schema KafkaOutputDriver = ([''topic'', ''key_mode''], [''plugins''])"
| "egress_schema (UnknownEgress _) = ([], [])"

fun transport_schema :: "transport_driver \<Rightarrow> string list \<times> string list" where
  "transport_schema StdioDriver = ([], [''command'', ''args'', ''env''])"
| "transport_schema HttpSseDriver = ([''url'', ''auth_mode''], [])"
| "transport_schema (UnknownTransport _) = ([], [])"

definition validate_ingress_adapter_schema :: "ingress_adapter_def \<Rightarrow> contract_error list" where
  "validate_ingress_adapter_schema adapter =
     (case in_driver adapter of
        UnknownIngress v \<Rightarrow>
          [critical ''unsupported_ingress_driver''
             (''serve adapter '' @ quoted (in_id adapter) @ '' uses unsupported driver '' @ quoted v)]
      | driver \<Rightarrow>
          validate_adapter_config_schema ''serve'' (in_id adapter) (ingress_as_str driver) (in_config adapter)
            (fst (ingress_schema driver)) (snd (ingress_schema driver)))"

definition validate_ingress_adapter_schemas :: "ingress_adapter_def list \<Rightarrow> contract_error list" where
  "validate_ingress_adapter_schemas adapters = concat (map validate_ingress_adapter_schema adapters)"

text \<open>\<open>transport_ref\<close> of an adapter: trimmed, a string, not empty.\<close>

definition transport_ref_of :: "egress_adapter_def \<Rightarrow> string option" where
  "transport_ref_of adapter =
     opt_filter (\<lambda>v. v \<noteq> []) (Option.bind (map_of (out_config adapter) ''transport_ref'') as_trimmed_str)"

definition transport_ref_errors :: "app_contract \<Rightarrow> egress_adapter_def \<Rightarrow> contract_error list" where
  "transport_ref_errors contract adapter =
     (case transport_ref_of adapter of
        Some transport_ref \<Rightarrow> push_unless (map_of (con_transports contract) transport_ref \<noteq> None)
          (critical ''missing_transport_ref''
             (''smash adapter '' @ quoted (out_id adapter) @ '' references unknown transport '' @ quoted transport_ref))
      | None \<Rightarrow>
          [critical ''missing_transport_ref''
             (''smash adapter '' @ quoted (out_id adapter) @ '' has invalid transport_ref'')])"

definition validate_egress_adapter_schema :: "app_contract \<Rightarrow> egress_adapter_def \<Rightarrow> contract_error list" where
  "validate_egress_adapter_schema contract adapter =
     (case out_driver adapter of
        UnknownEgress v \<Rightarrow>
          [critical ''unsupported_egress_driver''
             (''smash adapter '' @ quoted (out_id adapter) @ '' uses unsupported driver '' @ quoted v)]
      | driver \<Rightarrow>
          validate_adapter_config_schema ''smash'' (out_id adapter) (egress_as_str driver) (out_config adapter)
            (fst (egress_schema driver)) (snd (egress_schema driver))
          @ (if driver = McpToolDriver then transport_ref_errors contract adapter else []))"

definition validate_egress_adapter_schemas ::
  "app_contract \<Rightarrow> egress_adapter_def list \<Rightarrow> contract_error list" where
  "validate_egress_adapter_schemas contract adapters = concat (map (validate_egress_adapter_schema contract) adapters)"

definition collect_active_transport_refs :: "egress_adapter_def list \<Rightarrow> string list" where
  "collect_active_transport_refs adapters =
     btree_set (List.map_filter transport_ref_of (filter (\<lambda>a. out_driver a = McpToolDriver) adapters))"

definition validate_transport_config_schema :: "string \<Rightarrow> transport_def \<Rightarrow> contract_error list" where
  "validate_transport_config_schema name transport =
     (case tr_driver transport of
        UnknownTransport v \<Rightarrow>
          [critical ''unsupported_transport_driver''
             (''transport '' @ quoted name @ '' uses unsupported driver '' @ quoted v)]
      | driver \<Rightarrow>
          validate_adapter_config_schema ''transport'' name (transport_as_str driver) (tr_config transport)
            (fst (transport_schema driver)) (snd (transport_schema driver)))"

definition validate_transport_schemas :: "app_contract \<Rightarrow> string list \<Rightarrow> contract_error list" where
  "validate_transport_schemas contract refs =
     concat (map (\<lambda>name. case map_of (con_transports contract) name of
        None \<Rightarrow> [] | Some transport \<Rightarrow> validate_transport_config_schema name transport) refs)"

subsection \<open>Profiles\<close>

text \<open>\<open>index_ingress_adapters\<close>, \<open>index_egress_adapters\<close>: a later adapter of an id replaces an earlier one.\<close>

definition index_ingress_adapters :: "ingress_adapter_def list \<Rightarrow> string \<Rightarrow> ingress_adapter_def option" where
  "index_ingress_adapters adapters = map_of (btree_collect (map (\<lambda>a. (in_id a, a)) adapters))"

definition index_egress_adapters :: "egress_adapter_def list \<Rightarrow> string \<Rightarrow> egress_adapter_def option" where
  "index_egress_adapters adapters = map_of (btree_collect (map (\<lambda>a. (out_id a, a)) adapters))"

definition index_routes :: "string list \<Rightarrow> string list" where
  "index_routes route_ids = btree_set route_ids"

definition missing_ref :: "string \<Rightarrow> string \<Rightarrow> string \<Rightarrow> contract_error" where
  "missing_ref code what i = critical code (''profile references unknown '' @ what @ '' '' @ quoted i)"

definition validate_profile_refs ::
  "profile_def \<Rightarrow> (string \<Rightarrow> ingress_adapter_def option) \<Rightarrow> (string \<Rightarrow> egress_adapter_def option) \<Rightarrow>
   string list \<Rightarrow> string list \<Rightarrow> contract_error list" where
  "validate_profile_refs profile serve_adapters smash_adapters serve_routes_by_id smash_routes_by_id =
     concat (map (\<lambda>i. push_unless (serve_adapters i \<noteq> None) (missing_ref ''missing_serve_adapter'' ''serve adapter'' i))
               (prof_serve_adapters profile))
     @ concat (map (\<lambda>i. push_unless (smash_adapters i \<noteq> None) (missing_ref ''missing_smash_adapter'' ''smash adapter'' i))
               (prof_smash_adapters profile))
     @ concat (map (\<lambda>i. push_unless (i \<in> set serve_routes_by_id) (missing_ref ''missing_serve_route'' ''serve route'' i))
               (prof_serve_routes profile))
     @ concat (map (\<lambda>i. push_unless (i \<in> set smash_routes_by_id) (missing_ref ''missing_smash_route'' ''smash route'' i))
               (prof_smash_routes profile))"

definition destination_errors ::
  "string list \<Rightarrow> (string \<Rightarrow> egress_adapter_def option) \<Rightarrow> string \<Rightarrow> destination_def \<Rightarrow> contract_error list" where
  "destination_errors active smash_adapters rid d =
     (if dst_adapter_id d \<notin> set active
      then [critical ''inactive_destination_adapter''
              (''smash route '' @ quoted rid @ '' references adapter '' @ quoted (dst_adapter_id d)
                 @ '' that is not active in profile'')]
      else push_unless (smash_adapters (dst_adapter_id d) \<noteq> None)
             (critical ''missing_destination_adapter''
                (''smash route '' @ quoted rid @ '' references unknown adapter '' @ quoted (dst_adapter_id d))))"

definition validate_smash_route_destinations ::
  "smash_route_def list \<Rightarrow> string list \<Rightarrow> (string \<Rightarrow> egress_adapter_def option) \<Rightarrow> contract_error list" where
  "validate_smash_route_destinations routes active smash_adapters =
     concat (map (\<lambda>route.
       if smr_destinations route = []
       then [critical ''empty_smash_route_destinations'' (''smash route '' @ quoted (smr_id route) @ '' has no destinations'')]
       else concat (map (destination_errors active smash_adapters (smr_id route)) (smr_destinations route))) routes)"

definition validate_no_output_policy ::
  "app_contract \<Rightarrow> profile_def \<Rightarrow> smash_route_def list \<Rightarrow> contract_error list" where
  "validate_no_output_policy contract profile active_smash_routes =
     (let active_destination_count =
            length (filter (\<lambda>d. dst_adapter_id d \<in> set (prof_smash_adapters profile))
                      (concat (map smr_destinations active_smash_routes)));
          policy = con_policies contract
      in if active_destination_count > 0 then []
         else if \<not> pol_allow_no_output policy
         then [critical ''no_smash_outputs'' ''profile has zero active smash outputs and allow_no_output is false'']
         else
           push_unless (pol_no_output_sink policy \<noteq> None)
             (critical ''missing_no_output_sink'' ''allow_no_output=true requires no_output_sink to be set'')
           @ push_unless (\<not> (pol_no_output_sink policy = Some Dlq \<and> prof_smash_routes profile = []))
               (critical ''dlq_without_routes'' ''no_output_sink=dlq requires at least one active smash route''))"

text \<open>The errors and the names of the checks that were skipped.\<close>

definition maybe_validate_non_security ::
  "validation_mode \<Rightarrow> profile_def \<Rightarrow> contract_error list \<times> string list" where
  "maybe_validate_non_security mode profile =
     (case mode of
        Debug \<Rightarrow> ([], [''non_security_profile_label_check'', ''non_security_profile_env_table_check''])
      | Strict \<Rightarrow>
          (push_unless (\<not> blank (prof_label profile))
             \<lparr>err_code = ''empty_profile_label'', err_message = ''profile label cannot be empty'',
              security_critical = False\<rparr>, []))"

subsection \<open>\<open>validate_contract\<close>\<close>

definition active_smash_routes :: "app_contract \<Rightarrow> profile_def \<Rightarrow> smash_route_def list" where
  "active_smash_routes contract profile =
     filter (\<lambda>r. smr_id r \<in> set (prof_smash_routes profile)) (smash_route_defs (con_smash contract))"

definition active_egress_adapters :: "app_contract \<Rightarrow> profile_def \<Rightarrow> egress_adapter_def list" where
  "active_egress_adapters contract profile =
     List.map_filter (index_egress_adapters (egress_adapter_defs (con_smash contract))) (prof_smash_adapters profile)"

definition active_ingress_adapters :: "app_contract \<Rightarrow> profile_def \<Rightarrow> ingress_adapter_def list" where
  "active_ingress_adapters contract profile =
     List.map_filter (index_ingress_adapters (ingress_adapter_defs (con_serve contract))) (prof_serve_adapters profile)"

text \<open>Everything but the checks the mode may skip.\<close>

definition contract_errors :: "app_contract \<Rightarrow> profile_def \<Rightarrow> contract_error list" where
  "contract_errors contract profile =
     (let serve_adapters_by_id = index_ingress_adapters (ingress_adapter_defs (con_serve contract));
          smash_adapters_by_id = index_egress_adapters (egress_adapter_defs (con_smash contract));
          serve_routes_by_id = index_routes (map svr_id (serve_route_defs (con_serve contract)));
          smash_routes_by_id = index_routes (map smr_id (smash_route_defs (con_smash contract)));
          ingress = active_ingress_adapters contract profile;
          egress = active_egress_adapters contract profile;
          routes = active_smash_routes contract profile
      in validate_profile_refs profile serve_adapters_by_id smash_adapters_by_id serve_routes_by_id smash_routes_by_id
         @ validate_ingress_adapter_schemas ingress
         @ validate_egress_adapter_schemas contract egress
         @ validate_transport_schemas contract (collect_active_transport_refs egress)
         @ validate_smash_route_destinations routes (prof_smash_adapters profile) smash_adapters_by_id
         @ validate_no_output_policy contract profile routes)"

definition validate_contract :: "app_contract \<Rightarrow> string \<Rightarrow> contract_error list + validated_profile" where
  "validate_contract contract profile_name =
     (case map_of (con_profiles contract) profile_name of
        None \<Rightarrow> Inl [critical ''missing_profile'' (''profile '' @ quoted profile_name @ '' not found in contract'')]
      | Some profile \<Rightarrow>
          let mode = pol_validation_mode (con_policies contract);
              (non_security, skipped) = maybe_validate_non_security mode profile;
              errors = contract_errors contract profile @ non_security
          in if errors = []
             then Inr \<lparr>vp_profile_name = profile_name, vp_validation_mode = mode,
                       vp_serve_adapter_ids = prof_serve_adapters profile,
                       vp_smash_adapter_ids = prof_smash_adapters profile,
                       vp_serve_route_ids = prof_serve_routes profile,
                       vp_smash_route_ids = prof_smash_routes profile,
                       vp_skipped = skipped\<rparr>
             else Inl errors)"

subsection \<open>What a valid profile is\<close>

definition schema_ok :: "toml_config \<Rightarrow> string list \<times> string list \<Rightarrow> bool" where
  "schema_ok config schema \<longleftrightarrow>
     fst ` set config \<subseteq> set (fst schema) \<union> set (snd schema) \<and>
     (\<forall>k \<in> set (fst schema). \<exists>v. map_of config k = Some v \<and> is_non_empty_toml v)"

lemma validate_adapter_config_schema_Nil_iff:
  "validate_adapter_config_schema kind i d config req opt = [] \<longleftrightarrow> schema_ok config (req, opt)"
  by (auto simp: validate_adapter_config_schema_def Let_def schema_ok_def required_key_errors_def split: option.splits)

fun known_ingress :: "ingress_driver \<Rightarrow> bool" where
  "known_ingress (UnknownIngress _) = False"
| "known_ingress _ = True"

fun known_egress :: "egress_driver \<Rightarrow> bool" where
  "known_egress (UnknownEgress _) = False"
| "known_egress _ = True"

fun known_transport :: "transport_driver \<Rightarrow> bool" where
  "known_transport (UnknownTransport _) = False"
| "known_transport _ = True"

definition ingress_ok :: "ingress_adapter_def \<Rightarrow> bool" where
  "ingress_ok a \<longleftrightarrow> known_ingress (in_driver a) \<and> schema_ok (in_config a) (ingress_schema (in_driver a))"

definition transport_ok :: "transport_def \<Rightarrow> bool" where
  "transport_ok t \<longleftrightarrow> known_transport (tr_driver t) \<and> schema_ok (tr_config t) (transport_schema (tr_driver t))"

definition egress_ok :: "app_contract \<Rightarrow> egress_adapter_def \<Rightarrow> bool" where
  "egress_ok contract a \<longleftrightarrow>
     known_egress (out_driver a) \<and> schema_ok (out_config a) (egress_schema (out_driver a)) \<and>
     (out_driver a = McpToolDriver \<longrightarrow>
        (\<exists>name t. transport_ref_of a = Some name \<and> map_of (con_transports contract) name = Some t \<and> transport_ok t))"

lemma validate_ingress_Nil_iff: "validate_ingress_adapter_schema a = [] \<longleftrightarrow> ingress_ok a"
  by (cases "in_driver a")
     (simp_all add: validate_ingress_adapter_schema_def ingress_ok_def validate_adapter_config_schema_Nil_iff)

lemma validate_transport_Nil_iff: "validate_transport_config_schema n t = [] \<longleftrightarrow> transport_ok t"
  by (cases "tr_driver t")
     (simp_all add: validate_transport_config_schema_def transport_ok_def validate_adapter_config_schema_Nil_iff)

lemma transport_ref_errors_Nil_iff:
  "transport_ref_errors contract a = [] \<longleftrightarrow>
     (\<exists>name. transport_ref_of a = Some name \<and> map_of (con_transports contract) name \<noteq> None)"
  by (simp add: transport_ref_errors_def split: option.splits)

lemma validate_egress_Nil_iff:
  "validate_egress_adapter_schema contract a = [] \<longleftrightarrow>
     known_egress (out_driver a) \<and> schema_ok (out_config a) (egress_schema (out_driver a)) \<and>
     (out_driver a = McpToolDriver \<longrightarrow>
        (\<exists>name. transport_ref_of a = Some name \<and> map_of (con_transports contract) name \<noteq> None))"
  by (cases "out_driver a")
     (simp_all add: validate_egress_adapter_schema_def validate_adapter_config_schema_Nil_iff transport_ref_errors_Nil_iff)

lemma set_active_transport_refs:
  "set (collect_active_transport_refs adapters) =
     {name. \<exists>a \<in> set adapters. out_driver a = McpToolDriver \<and> transport_ref_of a = Some name}"
  by (auto simp: collect_active_transport_refs_def set_map_filter)

lemma egress_and_transports_Nil_iff:
  "validate_egress_adapter_schemas contract as = [] \<and>
   validate_transport_schemas contract (collect_active_transport_refs as) = [] \<longleftrightarrow> (\<forall>a \<in> set as. egress_ok contract a)"
proof -
  have t: "validate_transport_schemas contract (collect_active_transport_refs as) = [] \<longleftrightarrow>
      (\<forall>a \<in> set as. \<forall>name t. out_driver a = McpToolDriver \<and> transport_ref_of a = Some name \<and>
         map_of (con_transports contract) name = Some t \<longrightarrow> transport_ok t)"
    by (auto simp: validate_transport_schemas_def set_active_transport_refs validate_transport_Nil_iff split: option.splits)
  show ?thesis
    unfolding t by (auto simp: validate_egress_adapter_schemas_def validate_egress_Nil_iff egress_ok_def)
qed

text \<open>Every route of the profile has destinations, all of them active; a profile without routes must
  allow no output, and discard.\<close>

definition profile_wf :: "app_contract \<Rightarrow> profile_def \<Rightarrow> bool" where
  "profile_wf contract profile \<longleftrightarrow>
     set (prof_serve_adapters profile) \<subseteq> in_id ` set (ingress_adapter_defs (con_serve contract)) \<and>
     set (prof_smash_adapters profile) \<subseteq> out_id ` set (egress_adapter_defs (con_smash contract)) \<and>
     set (prof_serve_routes profile) \<subseteq> svr_id ` set (serve_route_defs (con_serve contract)) \<and>
     set (prof_smash_routes profile) \<subseteq> smr_id ` set (smash_route_defs (con_smash contract)) \<and>
     (\<forall>a \<in> set (active_ingress_adapters contract profile). ingress_ok a) \<and>
     (\<forall>a \<in> set (active_egress_adapters contract profile). egress_ok contract a) \<and>
     (\<forall>r \<in> set (active_smash_routes contract profile). smr_destinations r \<noteq> [] \<and>
        (\<forall>d \<in> set (smr_destinations r). dst_adapter_id d \<in> set (prof_smash_adapters profile))) \<and>
     (prof_smash_routes profile = [] \<longrightarrow>
        pol_allow_no_output (con_policies contract) \<and> pol_no_output_sink (con_policies contract) = Some Discard)"

lemma index_ingress_iff: "index_ingress_adapters as i \<noteq> None \<longleftrightarrow> i \<in> in_id ` set as"
  by (simp add: index_ingress_adapters_def map_of_btree_collect map_of_eq_None_iff image_image)

lemma index_egress_iff: "index_egress_adapters as i \<noteq> None \<longleftrightarrow> i \<in> out_id ` set as"
  by (simp add: index_egress_adapters_def map_of_btree_collect map_of_eq_None_iff image_image)

lemma validate_profile_refs_Nil_iff:
  "validate_profile_refs profile sa ma sr mr = [] \<longleftrightarrow>
     (\<forall>i \<in> set (prof_serve_adapters profile). sa i \<noteq> None) \<and> (\<forall>i \<in> set (prof_smash_adapters profile). ma i \<noteq> None) \<and>
     set (prof_serve_routes profile) \<subseteq> set sr \<and> set (prof_smash_routes profile) \<subseteq> set mr"
  by (auto simp: validate_profile_refs_def)

lemma destination_errors_Nil_iff:
  "destination_errors active ma rid d = [] \<longleftrightarrow> dst_adapter_id d \<in> set active \<and> ma (dst_adapter_id d) \<noteq> None"
  by (simp add: destination_errors_def)

lemma validate_destinations_Nil_iff:
  "validate_smash_route_destinations routes active ma = [] \<longleftrightarrow>
     (\<forall>r \<in> set routes. smr_destinations r \<noteq> [] \<and>
        (\<forall>d \<in> set (smr_destinations r). dst_adapter_id d \<in> set active \<and> ma (dst_adapter_id d) \<noteq> None))"
proof -
  have "(if c then [x] else ys) = [] \<longleftrightarrow> \<not> c \<and> ys = []" for c and x :: contract_error and ys by simp
  then show ?thesis
    by (simp only: validate_smash_route_destinations_def concat_eq_Nil_conv set_map ball_simps destination_errors_Nil_iff)
qed

lemma validate_no_output_policy_Nil_iff:
  assumes "\<forall>r \<in> set routes. smr_destinations r \<noteq> [] \<and>
      (\<forall>d \<in> set (smr_destinations r). dst_adapter_id d \<in> set (prof_smash_adapters profile))"
  shows "validate_no_output_policy contract profile routes = [] \<longleftrightarrow>
     (routes = [] \<longrightarrow> pol_allow_no_output (con_policies contract) \<and>
        (case pol_no_output_sink (con_policies contract) of
           None \<Rightarrow> False | Some Discard \<Rightarrow> True | Some Dlq \<Rightarrow> prof_smash_routes profile \<noteq> []))"
proof (cases routes)
  case Nil
  then show ?thesis
    by (auto simp: validate_no_output_policy_def Let_def split: option.splits contract_sink.splits)
next
  case (Cons r rs)
  then obtain d ds where d: "smr_destinations r = d # ds" using assms by (cases "smr_destinations r") auto
  then have "dst_adapter_id d \<in> set (prof_smash_adapters profile)" using assms Cons by simp
  then show ?thesis using Cons d by (simp add: validate_no_output_policy_def)
qed

lemma contract_errors_Nil_iff: "contract_errors contract profile = [] \<longleftrightarrow> profile_wf contract profile"
proof -
  let ?routes = "active_smash_routes contract profile"
  let ?ma = "index_egress_adapters (egress_adapter_defs (con_smash contract))"
  let ?dests = "\<forall>r \<in> set ?routes. smr_destinations r \<noteq> [] \<and>
      (\<forall>d \<in> set (smr_destinations r). dst_adapter_id d \<in> set (prof_smash_adapters profile))"
  let ?refs = "set (prof_serve_adapters profile) \<subseteq> in_id ` set (ingress_adapter_defs (con_serve contract)) \<and>
     set (prof_smash_adapters profile) \<subseteq> out_id ` set (egress_adapter_defs (con_smash contract)) \<and>
     set (prof_serve_routes profile) \<subseteq> svr_id ` set (serve_route_defs (con_serve contract)) \<and>
     set (prof_smash_routes profile) \<subseteq> smr_id ` set (smash_route_defs (con_smash contract))"
  have routes: "?routes = [] \<longleftrightarrow> prof_smash_routes profile = []" if ?refs
  proof
    assume empty: "?routes = []"
    have "i \<notin> set (prof_smash_routes profile)" for i
    proof
      assume i: "i \<in> set (prof_smash_routes profile)"
      with that obtain r where "r \<in> set (smash_route_defs (con_smash contract))" "smr_id r = i" by blast
      with i have "r \<in> set ?routes" by (simp add: active_smash_routes_def)
      with empty show False by simp
    qed
    then show "prof_smash_routes profile = []" by (meson list.set_sel(1))
  qed (simp add: active_smash_routes_def)
  have policy: "validate_no_output_policy contract profile ?routes = [] \<longleftrightarrow>
      (prof_smash_routes profile = [] \<longrightarrow>
        pol_allow_no_output (con_policies contract) \<and> pol_no_output_sink (con_policies contract) = Some Discard)"
    if ?refs ?dests
    unfolding validate_no_output_policy_Nil_iff [OF that(2)] routes [OF that(1)]
    by (auto split: option.splits contract_sink.splits)
  have refs: "validate_profile_refs profile (index_ingress_adapters (ingress_adapter_defs (con_serve contract))) ?ma
      (index_routes (map svr_id (serve_route_defs (con_serve contract))))
      (index_routes (map smr_id (smash_route_defs (con_smash contract)))) = [] \<longleftrightarrow> ?refs"
    by (simp only: validate_profile_refs_Nil_iff index_ingress_iff index_egress_iff index_routes_def set_btree_set set_map
        subset_eq)
  have dests: "validate_smash_route_destinations ?routes (prof_smash_adapters profile) ?ma = [] \<longleftrightarrow> ?dests" if ?refs
    unfolding validate_destinations_Nil_iff index_egress_iff using that by blast
  show ?thesis
    unfolding contract_errors_def profile_wf_def Let_def append_is_Nil_conv refs
    using policy dests egress_and_transports_Nil_iff [of contract "active_egress_adapters contract profile"]
    by (auto simp: validate_ingress_adapter_schemas_def validate_ingress_Nil_iff)
qed

lemma known_names:
  "ingress_deserialize (ingress_as_str HttpWebhookDriver) = HttpWebhookDriver"
  "ingress_deserialize (ingress_as_str WebsocketIngressDriver) = WebsocketIngressDriver"
  "ingress_deserialize (ingress_as_str McpIngestDriver) = McpIngestDriver"
  "ingress_deserialize (ingress_as_str KafkaIngressDriver) = KafkaIngressDriver"
  "egress_deserialize (egress_as_str OpenclawDriver) = OpenclawDriver"
  "egress_deserialize (egress_as_str McpToolDriver) = McpToolDriver"
  "egress_deserialize (egress_as_str WebsocketClientDriver) = WebsocketClientDriver"
  "egress_deserialize (egress_as_str WebsocketServerDriver) = WebsocketServerDriver"
  "egress_deserialize (egress_as_str KafkaOutputDriver) = KafkaOutputDriver"
  "transport_deserialize (transport_as_str StdioDriver) = StdioDriver"
  "transport_deserialize (transport_as_str HttpSseDriver) = HttpSseDriver"
  by code_simp+

lemmas known_literals = known_names [unfolded ingress_as_str.simps egress_as_str.simps transport_as_str.simps]

lemma deserialize_unknown:
  "ingress_deserialize raw = UnknownIngress v \<Longrightarrow> v = raw"
  "egress_deserialize raw = UnknownEgress v \<Longrightarrow> v = raw"
  "transport_deserialize raw = UnknownTransport v \<Longrightarrow> v = raw"
  by (auto simp: ingress_deserialize_def egress_deserialize_def transport_deserialize_def Let_def split: if_splits)

subsection \<open>Errors of the two modes\<close>

definition errors_of :: "contract_error list + 'a \<Rightarrow> contract_error list" where
  "errors_of r = (case r of Inl es \<Rightarrow> es | Inr _ \<Rightarrow> [])"

definition in_mode :: "validation_mode \<Rightarrow> app_contract \<Rightarrow> app_contract" where
  "in_mode mode contract = contract\<lparr>con_policies := (con_policies contract)\<lparr>pol_validation_mode := mode\<rparr>\<rparr>"

lemma in_mode_sel [simp]:
  "con_serve (in_mode m c) = con_serve c" "con_smash (in_mode m c) = con_smash c"
  "con_profiles (in_mode m c) = con_profiles c" "con_transports (in_mode m c) = con_transports c"
  "pol_allow_no_output (con_policies (in_mode m c)) = pol_allow_no_output (con_policies c)"
  "pol_no_output_sink (con_policies (in_mode m c)) = pol_no_output_sink (con_policies c)"
  "pol_validation_mode (con_policies (in_mode m c)) = m"
  by (simp_all add: in_mode_def)

lemma checks_in_mode [simp]:
  "transport_ref_errors (in_mode m c) = transport_ref_errors c"
  "validate_egress_adapter_schema (in_mode m c) = validate_egress_adapter_schema c"
  "validate_transport_schemas (in_mode m c) = validate_transport_schemas c"
  "validate_no_output_policy (in_mode m c) = validate_no_output_policy c"
  "active_ingress_adapters (in_mode m c) = active_ingress_adapters c"
  "active_egress_adapters (in_mode m c) = active_egress_adapters c"
  "active_smash_routes (in_mode m c) = active_smash_routes c"
proof -
  show ref: "transport_ref_errors (in_mode m c) = transport_ref_errors c"
    by (rule ext) (simp add: transport_ref_errors_def split: option.split)
  show "validate_egress_adapter_schema (in_mode m c) = validate_egress_adapter_schema c"
    by (rule ext) (simp only: validate_egress_adapter_schema_def ref)
qed (simp_all add: fun_eq_iff validate_transport_schemas_def validate_no_output_policy_def active_ingress_adapters_def
      active_egress_adapters_def active_smash_routes_def Let_def)

lemma contract_errors_in_mode [simp]: "contract_errors (in_mode m c) p = contract_errors c p"
  by (simp add: contract_errors_def validate_egress_adapter_schemas_def)

definition all_critical :: "contract_error list \<Rightarrow> bool" where
  "all_critical es \<longleftrightarrow> (\<forall>e \<in> set es. security_critical e)"

lemma all_critical_simps [simp]:
  "all_critical []" "all_critical (e # es) \<longleftrightarrow> security_critical e \<and> all_critical es"
  "all_critical (es @ es') \<longleftrightarrow> all_critical es \<and> all_critical es'"
  "all_critical (concat ess) \<longleftrightarrow> (\<forall>es \<in> set ess. all_critical es)"
  "security_critical (critical c m)" "security_critical (missing_ref c w i)"
  "all_critical (push_unless ok e) \<longleftrightarrow> ok \<or> security_critical e"
  by (auto simp: all_critical_def critical_def missing_ref_def push_unless_def)

lemma schema_errors_critical [simp]: "all_critical (validate_adapter_config_schema k i d c r q)"
  by (auto simp: validate_adapter_config_schema_def Let_def required_key_errors_def split: option.splits)

lemma contract_errors_critical: "all_critical (contract_errors contract profile)"
proof -
  have "all_critical (validate_ingress_adapter_schema a)" for a
    by (cases "in_driver a") (simp_all add: validate_ingress_adapter_schema_def)
  moreover have "all_critical (transport_ref_errors contract a)" for a
    by (simp add: transport_ref_errors_def split: option.splits)
  then have "all_critical (validate_egress_adapter_schema contract a)" for a
    by (cases "out_driver a") (simp_all add: validate_egress_adapter_schema_def)
  moreover have "all_critical (validate_transport_config_schema n t)" for n t
    by (cases "tr_driver t") (simp_all add: validate_transport_config_schema_def)
  moreover have "all_critical (destination_errors active ma rid d)" for active ma rid d
    by (simp add: destination_errors_def)
  ultimately show ?thesis
    by (auto simp: contract_errors_def Let_def validate_profile_refs_def validate_ingress_adapter_schemas_def
        validate_egress_adapter_schemas_def validate_transport_schemas_def validate_smash_route_destinations_def
        validate_no_output_policy_def split: option.splits)
qed

subsection \<open>The contract the tool embeds\<close>

definition embedded_default_contract :: app_contract where
  "embedded_default_contract =
     \<lparr>con_app = \<lparr>app_id = ''default-openclaw'', app_name = ''Default OpenClaw'', app_version = ''1.0.0'',
                 app_description = None\<rparr>,
      con_policies = \<lparr>pol_allow_no_output = False, pol_no_output_sink = None, pol_validation_mode = Strict\<rparr>,
      con_serve =
        \<lparr>ingress_adapter_defs =
           [\<lparr>in_id = ''http-ingress'', in_driver = ingress_deserialize ''http_webhook_ingress'',
             in_config = [(''bind'', TString ''0.0.0.0:8080''), (''path_template'', TString ''/webhook/{source}'')]\<rparr>],
         serve_route_defs =
           [\<lparr>svr_id = ''all-to-core'', svr_source_match = ''*'', svr_event_type_pattern = ''*'',
             svr_target_topic = ''webhooks.core''\<rparr>]\<rparr>,
      con_smash =
        \<lparr>egress_adapter_defs =
           [\<lparr>out_id = ''openclaw-output'', out_driver = egress_deserialize ''openclaw_http_output'',
             out_config = [(''max_retries'', TInteger 5), (''timeout_seconds'', TInteger 20),
               (''token_env'', TString ''OPENCLAW_WEBHOOK_TOKEN''),
               (''url'', TString ''http://127.0.0.1:18789/hooks/agent'')]\<rparr>],
         smash_route_defs =
           [\<lparr>smr_id = ''core-to-openclaw'', smr_source_topic_pattern = ''webhooks.core'', smr_event_filters = [],
             smr_destinations = [\<lparr>dst_adapter_id = ''openclaw-output'', dst_required = True\<rparr>]\<rparr>]\<rparr>,
      con_profiles =
        [(''default-openclaw'',
          \<lparr>prof_label = ''Default OpenClaw'', prof_serve_adapters = [''http-ingress''],
           prof_smash_adapters = [''openclaw-output''], prof_serve_routes = [''all-to-core''],
           prof_smash_routes = [''core-to-openclaw''], prof_env = []\<rparr>)],
      con_transports = []\<rparr>"

definition default_validated :: validated_profile where
  "default_validated =
     \<lparr>vp_profile_name = ''default-openclaw'', vp_validation_mode = Strict, vp_serve_adapter_ids = [''http-ingress''],
      vp_smash_adapter_ids = [''openclaw-output''], vp_serve_route_ids = [''all-to-core''],
      vp_smash_route_ids = [''core-to-openclaw''], vp_skipped = []\<rparr>"

definition with_sink :: "contract_sink option \<Rightarrow> app_contract \<Rightarrow> app_contract" where
  "with_sink sink contract = contract\<lparr>con_policies := (con_policies contract)\<lparr>pol_no_output_sink := sink\<rparr>\<rparr>"

lemma embedded_validates:
  "validate_contract (with_sink sink embedded_default_contract) ''default-openclaw'' = Inr default_validated"
proof (cases sink)
  case None
  have "validate_contract (with_sink None embedded_default_contract) ''default-openclaw'' = Inr default_validated" by code_simp
  with None show ?thesis by simp
next
  case (Some k)
  have "validate_contract (with_sink (Some Discard) embedded_default_contract) ''default-openclaw'' = Inr default_validated"
    "validate_contract (with_sink (Some Dlq) embedded_default_contract) ''default-openclaw'' = Inr default_validated"
    by code_simp+
  with Some show ?thesis by (cases k) auto
qed

subsection \<open>Properties\<close>

text \<open>C12. The validator accepts exactly the well-formed profiles: everything the profile names exists;
  every active adapter has a known driver, no unknown key and all required keys not empty; every MCP
  output names a transport that is well-formed itself; every route has destinations and all of them
  are active; and a profile without consumer routes allows no output and discards. Only outside debug
  mode the label must not be blank. That is all: it does not ask for a receiver route, and it does not
  look at the keys of adapters that are not active and of transports no active adapter names, although
  \<open>docs/spec.md\<close> demands a route and \<open>docs/security.md\<close> calls unknown keys errors anywhere in a contract
  (\<open>accepts_what_the_documents_forbid\<close>).\<close>

theorem validate_contract_exact:
  "(\<exists>v. validate_contract contract name = Inr v) \<longleftrightarrow>
     (\<exists>profile. map_of (con_profiles contract) name = Some profile \<and> profile_wf contract profile \<and>
        (pol_validation_mode (con_policies contract) = Debug \<or> \<not> blank (prof_label profile)))"
  by (auto simp: validate_contract_def Let_def contract_errors_Nil_iff maybe_validate_non_security_def
      split: option.splits validation_mode.splits)

theorem validate_contract_exact_witness:
  "\<exists>profile. map_of (con_profiles embedded_default_contract) ''default-openclaw'' = Some profile
     \<and> profile_wf embedded_default_contract profile"
proof -
  have "validate_contract embedded_default_contract ''default-openclaw'' = Inr default_validated" by code_simp
  then have "\<exists>v. validate_contract embedded_default_contract ''default-openclaw'' = Inr v" by blast
  then show ?thesis unfolding validate_contract_exact by blast
qed

text \<open>Two contracts the validator accepts against the documents: the active profile has no receiver route; an
  adapter that is not active has an unknown key.\<close>

definition no_route_contract :: app_contract where
  "no_route_contract = embedded_default_contract
     \<lparr>con_profiles := map (\<lambda>(n, p). (n, p\<lparr>prof_serve_routes := []\<rparr>)) (con_profiles embedded_default_contract)\<rparr>"

definition stray_key_contract :: app_contract where
  "stray_key_contract = embedded_default_contract
     \<lparr>con_smash := (con_smash embedded_default_contract)
        \<lparr>egress_adapter_defs := egress_adapter_defs (con_smash embedded_default_contract)
           @ [\<lparr>out_id = ''spare'', out_driver = KafkaOutputDriver, out_config = [(''no_such_key'', TString ''x'')]\<rparr>]\<rparr>\<rparr>"

theorem accepts_what_the_documents_forbid:
  "\<not> isl (validate_contract no_route_contract ''default-openclaw'')
     \<and> \<not> isl (validate_contract stray_key_contract ''default-openclaw'')"
  by (rule conjI; code_simp)

text \<open>Debug mode relaxes nothing that is security-critical: for every contract and profile the
  errors in debug mode are exactly the security-critical errors of strict mode, in their order.\<close>

theorem debug_mode_keeps_critical:
  "errors_of (validate_contract (in_mode Debug contract) name) =
     filter security_critical (errors_of (validate_contract (in_mode Strict contract) name))"
proof (cases "map_of (con_profiles contract) name")
  case None
  then show ?thesis by (simp add: validate_contract_def errors_of_def critical_def)
next
  case (Some profile)
  have "filter security_critical (contract_errors contract profile) = contract_errors contract profile"
    using contract_errors_critical [of contract profile] by (simp add: all_critical_def filter_id_conv)
  with Some show ?thesis
    by (auto simp: validate_contract_def errors_of_def Let_def maybe_validate_non_security_def push_unless_def)
qed

text \<open>The dead-letter sink for events without output cannot be used: a contract with
  \<open>no_output_sink = "dlq"\<close> is accepted only for a profile that has an active destination, for which
  the sink is irrelevant; the profiles it is meant for are refused in every case.\<close>

theorem dlq_sink_needs_output:
  assumes "validate_contract contract name = Inr v" "pol_no_output_sink (con_policies contract) = Some Dlq"
  shows "\<exists>r \<in> set (smash_route_defs (con_smash contract)). \<exists>d \<in> set (smr_destinations r).
     smr_id r \<in> set (vp_smash_route_ids v) \<and> dst_adapter_id d \<in> set (vp_smash_adapter_ids v)"
proof -
  obtain profile where p: "map_of (con_profiles contract) name = Some profile" "contract_errors contract profile = []"
      "vp_smash_route_ids v = prof_smash_routes profile" "vp_smash_adapter_ids v = prof_smash_adapters profile"
    using assms(1) by (auto simp: validate_contract_def Let_def split: option.splits prod.splits if_splits)
  have wf: "profile_wf contract profile" using p(2) contract_errors_Nil_iff by simp
  with assms(2) have "prof_smash_routes profile \<noteq> []" by (auto simp: profile_wf_def)
  with wf obtain r where r: "r \<in> set (active_smash_routes contract profile)"
    by (cases "prof_smash_routes profile") (auto simp: profile_wf_def active_smash_routes_def image_iff)
  then obtain d where "d \<in> set (smr_destinations r)" "dst_adapter_id d \<in> set (prof_smash_adapters profile)"
    using wf by (cases "smr_destinations r") (auto simp: profile_wf_def)
  with r p show ?thesis by (auto simp: active_smash_routes_def)
qed

theorem dlq_sink_needs_output_witness:
  "\<exists>r \<in> set (smash_route_defs (con_smash embedded_default_contract)). smr_id r \<in> set (vp_smash_route_ids default_validated)"
proof -
  have "pol_no_output_sink (con_policies (with_sink (Some Dlq) embedded_default_contract)) = Some Dlq"
    "con_smash (with_sink (Some Dlq) embedded_default_contract) = con_smash embedded_default_contract"
    by (simp_all add: with_sink_def)
  with dlq_sink_needs_output [OF embedded_validates [of "Some Dlq"]] show ?thesis by auto
qed

text \<open>Reading and printing drivers is stable: the name a driver prints reads back as the same
  driver, unknown names included.\<close>

theorem driver_names_round_trip:
  "ingress_deserialize (ingress_as_str (ingress_deserialize raw)) = ingress_deserialize raw
   \<and> egress_deserialize (egress_as_str (egress_deserialize raw)) = egress_deserialize raw
   \<and> transport_deserialize (transport_as_str (transport_deserialize raw)) = transport_deserialize raw"
proof (intro conjI)
  show "ingress_deserialize (ingress_as_str (ingress_deserialize raw)) = ingress_deserialize raw"
    by (cases "ingress_deserialize raw") (auto simp: known_literals dest: deserialize_unknown)
  show "egress_deserialize (egress_as_str (egress_deserialize raw)) = egress_deserialize raw"
    by (cases "egress_deserialize raw") (auto simp: known_literals dest: deserialize_unknown)
  show "transport_deserialize (transport_as_str (transport_deserialize raw)) = transport_deserialize raw"
    by (cases "transport_deserialize raw") (auto simp: known_literals dest: deserialize_unknown)
qed

end
