(* ===== verification/Cli_Config.thy ===== *)
theory Cli_Config
  imports Contract
begin

section \<open>The command line tool: context, profiles and capabilities\<close>

text \<open>
  \<open>tools/hook/src/config.rs\<close>, \<open>capabilities.rs\<close>, and the profile handling of
  \<open>commands/config.rs\<close> and \<open>commands/introduce.rs\<close>. What the tool asks the operating system
  and the readers serde generates is the record \<open>host\<close>: the environment, the files, the programs on
  the path. A path is its text.
\<close>

subsection \<open>Data\<close>

record global_args =
  ga_profile :: string
  ga_app :: "string option"
  ga_contract :: "string option"
  ga_env_files :: "string list"
  ga_config :: "string option"
  ga_force :: bool
  ga_json :: bool
  ga_validation_mode :: "string option"

record backend_profile =
  serve_cmd :: "string option"
  smash_cmd :: "string option"

record hook_profile =
  hp_env :: "(string \<times> string) list"
  hp_backends :: backend_profile
  hp_roles :: "string list"

definition default_profile :: hook_profile where
  "default_profile = \<lparr>hp_env = [], hp_backends = \<lparr>serve_cmd = None, smash_cmd = None\<rparr>, hp_roles = []\<rparr>"

record app_context =
  ctx_global :: global_args
  ctx_repo_root :: "string option"
  ctx_profile_path :: string
  ctx_profile :: hook_profile
  ctx_env_file_values :: "(string \<times> string) list"
  ctx_contract_path :: "string option"
  ctx_contract :: "app_contract option"

record host =
  host_vars :: "(string \<times> string) list"
  host_read :: "string \<Rightarrow> string option"
  host_exists :: "string \<Rightarrow> bool"
  host_is_file :: "string \<Rightarrow> bool"
  host_which :: "string \<Rightarrow> bool"
  host_cwd :: "string option"
  host_config_dir :: "string option"
  host_de_profile :: "string \<Rightarrow> hook_profile option"
  host_de_contract :: "string \<Rightarrow> app_contract option"

subsection \<open>Paths and text\<close>

text \<open>\<open>Path::join\<close>: an absolute second part replaces the first.\<close>

definition path_join :: "string \<Rightarrow> string \<Rightarrow> string" where
  "path_join a b =
     (if starts_with ''/'' b \<or> a = [] then b
      else if ends_with ''/'' a then a @ b else a @ ''/'' @ b)"

text \<open>\<open>str::lines\<close>: split after each newline, without a last empty line and without the carriage
  return of a line that ends with a newline.\<close>

definition chomp :: "string \<Rightarrow> string" where
  "chomp line = (if line \<noteq> [] \<and> last line = CHR 0x0D then butlast line else line)"

definition lines_of :: "string \<Rightarrow> string list" where
  "lines_of content =
     (let parts = split_on (CHR 0x0A) content
      in map chomp (butlast parts) @ (if last parts = [] then [] else [last parts]))"

subsection \<open>Environment files\<close>

fun parse_env_lines :: "string \<Rightarrow> nat \<Rightarrow> string list \<Rightarrow> (string \<times> string) list \<Rightarrow> (string \<times> string) list result" where
  "parse_env_lines path line_number [] parsed = Inr parsed"
| "parse_env_lines path line_number (raw_line # rest) parsed =
     (let line = trim raw_line; at = path @ '':'' @ show_nat (line_number + 1)
      in if line = [] \<or> starts_with ''#'' line then parse_env_lines path (line_number + 1) rest parsed
         else (case split_once (CHR ''='') line of
                 None \<Rightarrow> Inl (''invalid env line at '' @ at @ '' (expected KEY=VALUE)'')
               | Some (raw_key, raw_value) \<Rightarrow>
                   let key = trim raw_key
                   in if key = [] then Inl (''empty env key at '' @ at)
                      else parse_env_lines path (line_number + 1) rest
                             (btree_insert key (trim_matches (CHR 0x27) (trim_matches (CHR 0x22) (trim raw_value))) parsed)))"

definition parse_env_file :: "host \<Rightarrow> string \<Rightarrow> (string \<times> string) list result" where
  "parse_env_file h path =
     and_then (ok_or (''read env file: '' @ path) (host_read h path)) (\<lambda>content.
       parse_env_lines path 0 (lines_of content) [])"

fun merge_env_files_loop :: "host \<Rightarrow> string list \<Rightarrow> (string \<times> string) list \<Rightarrow> (string \<times> string) list result" where
  "merge_env_files_loop h [] merged = Inr merged"
| "merge_env_files_loop h (path # paths) merged =
     and_then (parse_env_file h path) (\<lambda>parsed.
       merge_env_files_loop h paths (fold (\<lambda>(k, v). btree_insert k v) parsed merged))"

definition merge_env_files :: "host \<Rightarrow> string list \<Rightarrow> (string \<times> string) list result" where
  "merge_env_files h paths = merge_env_files_loop h paths []"

subsection \<open>Profiles and contracts\<close>

definition resolve_profile_path :: "host \<Rightarrow> string \<Rightarrow> string option \<Rightarrow> string result" where
  "resolve_profile_path h profile_name explicit =
     (case explicit of
        Some path \<Rightarrow> Inr path
      | None \<Rightarrow>
          if blank profile_name then Inl ''profile name cannot be empty''
          else
            let file = profile_name @ ''.toml''
            in case host_config_dir h of
                 Some base \<Rightarrow> Inr (path_join (path_join (path_join base ''hook'') ''profiles'') file)
               | None \<Rightarrow> Inr (path_join (path_join ''.hook'' ''profiles'') file))"

definition load_profile_from_path :: "host \<Rightarrow> string \<Rightarrow> hook_profile result" where
  "load_profile_from_path h path =
     (if \<not> host_exists h path then Inr default_profile
      else and_then (ok_or (''read profile file: '' @ path) (host_read h path)) (\<lambda>content.
             ok_or (''parse profile TOML: '' @ path) (host_de_profile h content)))"

definition load_contract_from_path :: "host \<Rightarrow> string \<Rightarrow> app_contract result" where
  "load_contract_from_path h path =
     and_then (ok_or (''read contract file: '' @ path) (host_read h path)) (\<lambda>content.
       ok_or (''parse contract TOML: '' @ path) (host_de_contract h content))"

type_synonym contract_resolution = "string option \<times> app_contract option"

definition resolve_at :: "host \<Rightarrow> string \<Rightarrow> contract_resolution result" where
  "resolve_at h path = and_then (load_contract_from_path h path) (\<lambda>contract. Inr (Some path, Some contract))"

definition resolve_contract :: "host \<Rightarrow> global_args \<Rightarrow> string option \<Rightarrow> contract_resolution result" where
  "resolve_contract h ga repo_root =
     (case ga_contract ga of
        Some path \<Rightarrow> resolve_at h path
      | None \<Rightarrow>
          let app_path = map_option (\<lambda>app_id.
                path_join (path_join (path_join (unwrap_or (unwrap_or ''.'' (host_cwd h)) repo_root) ''apps'') app_id)
                  ''contract.toml'') (ga_app ga);
              local_contract = map_option (\<lambda>cwd. path_join cwd ''contract.toml'') (host_cwd h)
          in case opt_filter (host_exists h) app_path of
               Some path \<Rightarrow> resolve_at h path
             | None \<Rightarrow>
                 (case opt_filter (host_exists h) local_contract of
                    Some path \<Rightarrow> resolve_at h path
                  | None \<Rightarrow> Inr (None, Some embedded_default_contract)))"

text \<open>The root of the repository: the configured one, or the first directory upwards that looks like
  one. The current directory is given by the list of its ancestors, itself first.\<close>

definition looks_like_repo :: "host \<Rightarrow> string \<Rightarrow> bool" where
  "looks_like_repo h path \<longleftrightarrow> host_exists h (path_join path ''Cargo.toml'') \<and> host_exists h (path_join path ''scripts'')"

definition discover_repo_root :: "host \<Rightarrow> string list \<Rightarrow> string option" where
  "discover_repo_root h ancestors =
     (case opt_filter (looks_like_repo h) (map_of (host_vars h) ''HOOK_REPO_ROOT'') of
        Some configured \<Rightarrow> Some configured
      | None \<Rightarrow> find (looks_like_repo h) ancestors)"

definition load_with_contract :: "host \<Rightarrow> string list \<Rightarrow> global_args \<Rightarrow> bool \<Rightarrow> app_context result" where
  "load_with_contract h ancestors ga load_contract_config =
     (let repo_root = discover_repo_root h ancestors
      in and_then (resolve_profile_path h (ga_profile ga) (ga_config ga)) (\<lambda>profile_path.
         and_then (load_profile_from_path h profile_path) (\<lambda>profile.
         and_then (merge_env_files h (ga_env_files ga)) (\<lambda>env_file_values.
         and_then (if load_contract_config then resolve_contract h ga repo_root else Inr (None, None)) (\<lambda>(path, contract).
           Inr \<lparr>ctx_global = ga, ctx_repo_root = repo_root, ctx_profile_path = profile_path, ctx_profile = profile,
                ctx_env_file_values = env_file_values, ctx_contract_path = path, ctx_contract = contract\<rparr>)))))"

subsection \<open>Values of a context\<close>

definition resolved_validation_mode :: "app_context \<Rightarrow> string" where
  "resolved_validation_mode ctx =
     (case ga_validation_mode (ctx_global ctx) of
        Some mode \<Rightarrow> to_ascii_lowercase (trim mode)
      | None \<Rightarrow>
          if map_option (\<lambda>c. pol_validation_mode (con_policies c)) (ctx_contract ctx) = Some Debug
          then ''debug'' else ''strict'')"

definition merged_env_for_command ::
  "host \<Rightarrow> app_context \<Rightarrow> (string \<times> string) list \<Rightarrow> (string \<times> string) list" where
  "merged_env_for_command h ctx explicit_overrides =
     btree_collect
       (host_vars h @ ctx_env_file_values ctx @ hp_env (ctx_profile ctx) @ explicit_overrides
        @ [(''RELAY_PROFILE'', ga_profile (ctx_global ctx)),
           (''RELAY_VALIDATION_MODE'', resolved_validation_mode ctx)]
        @ (case ctx_contract_path ctx of Some path \<Rightarrow> [(''RELAY_CONTRACT_PATH'', path)] | None \<Rightarrow> []))"

definition resolve_value :: "host \<Rightarrow> app_context \<Rightarrow> string option \<Rightarrow> string \<Rightarrow> string option" where
  "resolve_value h ctx flag_value env_key =
     opt_filter (\<lambda>v. v \<noteq> []) (map_option trim
       (or_else flag_value
         (or_else (map_of (hp_env (ctx_profile ctx)) env_key)
           (or_else (map_of (ctx_env_file_values ctx) env_key) (map_of (host_vars h) env_key)))))"

definition profile_roles :: "app_context \<Rightarrow> string list" where
  "profile_roles ctx = map to_ascii_lowercase (hp_roles (ctx_profile ctx))"

definition to_ascii_uppercase :: "string \<Rightarrow> string" where
  "to_ascii_uppercase s = map ascii_upper s"

definition is_sensitive_env_key :: "string \<Rightarrow> bool" where
  "is_sensitive_env_key key =
     (let normalized = to_ascii_uppercase key
      in contains_sub ''SECRET'' normalized \<or> contains_sub ''TOKEN'' normalized \<or> contains_sub ''PASSWORD'' normalized
         \<or> contains_sub ''PRIVATE_KEY'' normalized \<or> contains_sub ''SASL'' normalized)"

definition redacted_line :: "string \<times> string \<Rightarrow> string" where
  "redacted_line kv =
     fst kv @ ''='' @ (if is_sensitive_env_key (fst kv) then ''[REDACTED]'' else snd kv)"

definition redacted_merged_env_text :: "host \<Rightarrow> app_context \<Rightarrow> string" where
  "redacted_merged_env_text h ctx = join [CHR 0x0A] (map redacted_line (merged_env_for_command h ctx []))"

definition merge_profile :: "hook_profile \<Rightarrow> hook_profile \<Rightarrow> hook_profile" where
  "merge_profile target source =
     \<lparr>hp_env = fold (\<lambda>(k, v). btree_insert k v) (hp_env source) (hp_env target),
      hp_backends =
        \<lparr>serve_cmd = or_else (serve_cmd (hp_backends source)) (serve_cmd (hp_backends target)),
         smash_cmd = or_else (smash_cmd (hp_backends source)) (smash_cmd (hp_backends target))\<rparr>,
      hp_roles = (if hp_roles source \<noteq> [] then hp_roles source else hp_roles target)\<rparr>"

text \<open>The profile \<open>config import\<close> and \<open>introduce\<close> write, before they write it.\<close>

definition imported_profile :: "host \<Rightarrow> app_context \<Rightarrow> string option \<Rightarrow> string list \<Rightarrow> hook_profile result" where
  "imported_profile h ctx toml_path env_files =
     and_then (case toml_path of
                 Some path \<Rightarrow>
                   and_then (load_profile_from_path h path) (\<lambda>imported. Inr (merge_profile (ctx_profile ctx) imported))
               | None \<Rightarrow> Inr (ctx_profile ctx)) (\<lambda>profile.
     and_then (merge_env_files h (ga_env_files (ctx_global ctx) @ env_files)) (\<lambda>imported_env.
       Inr (profile\<lparr>hp_env := fold (\<lambda>(k, v). btree_insert k v) imported_env (hp_env profile)\<rparr>)))"

subsection \<open>Capabilities\<close>

datatype role = RoleServe | RoleRelay | RoleSmash

record role_capability =
  cap_role :: role
  cap_available :: bool
  cap_backend :: "string option"
  cap_reasons :: "string list"

fun role_name :: "role \<Rightarrow> string" where
  "role_name RoleServe = ''serve''"
| "role_name RoleRelay = ''relay''"
| "role_name RoleSmash = ''smash''"

definition parse_csv_lower :: "string \<Rightarrow> string list" where
  "parse_csv_lower raw = map to_ascii_lowercase (split_trimmed (CHR '','') raw)"

text \<open>\<open>split_whitespace().next()\<close> of a text that is not blank: up to the first white space.\<close>

fun until_white_space :: "string \<Rightarrow> string" where
  "until_white_space [] = []"
| "until_white_space (c # cs) = (if lead_len white_space (c # cs) > 0 then [] else c # until_white_space cs)"

definition command_spec_runnable :: "host \<Rightarrow> string \<Rightarrow> bool" where
  "command_spec_runnable h spec =
     (if blank spec then False
      else
        let first_token = until_white_space (trim_start spec)
        in if first_token = [] then False
           else if contains_sub ''/'' first_token then host_is_file h first_token
           else host_which h first_token)"

definition configured_backend :: "host \<Rightarrow> app_context \<Rightarrow> string \<Rightarrow> string option \<Rightarrow> string option" where
  "configured_backend h ctx key profile_cmd =
     opt_filter (command_spec_runnable h) (or_else (resolve_value h ctx None key) profile_cmd)"

definition resolve_backend ::
  "host \<Rightarrow> app_context \<Rightarrow> string \<Rightarrow> string option \<Rightarrow> string \<Rightarrow> string \<Rightarrow> string option" where
  "resolve_backend h ctx key profile_cmd program main_file =
     (case configured_backend h ctx key profile_cmd of
        Some command \<Rightarrow> Some command
      | None \<Rightarrow>
          if host_which h program then Some program
          else (case ctx_repo_root ctx of
                  None \<Rightarrow> None
                | Some repo_root \<Rightarrow>
                    let local_binary = path_join repo_root (''target/release/'' @ program)
                    in if host_is_file h local_binary then Some local_binary
                       else if host_which h ''cargo'' \<and> host_exists h (path_join repo_root main_file)
                       then Some (''cargo run --manifest-path '' @ path_join repo_root ''Cargo.toml''
                                    @ '' -p '' @ program @ '' --release'')
                       else None))"

definition resolve_serve_backend :: "host \<Rightarrow> app_context \<Rightarrow> string option" where
  "resolve_serve_backend h ctx =
     resolve_backend h ctx ''HOOK_BACKEND_SERVE_CMD'' (serve_cmd (hp_backends (ctx_profile ctx)))
       ''hook-serve'' ''src/main.rs''"

definition resolve_smash_backend :: "host \<Rightarrow> app_context \<Rightarrow> string option" where
  "resolve_smash_backend h ctx =
     resolve_backend h ctx ''HOOK_BACKEND_SMASH_CMD'' (smash_cmd (hp_backends (ctx_profile ctx)))
       ''kafka-openclaw-hook'' ''apps/kafka-openclaw-hook/src/main.rs''"

definition apply_profile_role_restriction :: "app_context \<Rightarrow> role \<Rightarrow> string list" where
  "apply_profile_role_restriction ctx r =
     (let roles = profile_roles ctx
      in if roles = [] then []
         else if role_name r \<notin> set roles then [''profile capabilities.roles excludes '' @ role_name r]
         else [])"

definition missing_value :: "host \<Rightarrow> app_context \<Rightarrow> string \<Rightarrow> string list" where
  "missing_value h ctx key = (if resolve_value h ctx None key = None then [''missing '' @ key] else [])"

definition missing_secret :: "string \<Rightarrow> host \<Rightarrow> app_context \<Rightarrow> string \<Rightarrow> string list" where
  "missing_secret about h ctx source =
     (let key = (if source = ''github'' then ''HMAC_SECRET_GITHUB''
                 else if source = ''linear'' then ''HMAC_SECRET_LINEAR''
                 else if source = ''example'' then ''HMAC_SECRET_EXAMPLE'' else [])
      in if key \<noteq> [] \<and> resolve_value h ctx None key = None
         then [''missing '' @ key @ about @ source] else [])"

definition role_capability_of :: "role \<Rightarrow> string option \<Rightarrow> string list \<Rightarrow> role_capability" where
  "role_capability_of r backend reasons =
     \<lparr>cap_role = r, cap_available = (reasons = []), cap_backend = backend, cap_reasons = reasons\<rparr>"

definition detect_serve_capability :: "host \<Rightarrow> app_context \<Rightarrow> role_capability" where
  "detect_serve_capability h ctx =
     (let backend = resolve_serve_backend h ctx;
          sources = unwrap_or ''github,linear'' (resolve_value h ctx None ''RELAY_ENABLED_SOURCES'')
      in role_capability_of RoleServe backend
           ((if backend = None then [''no serve backend found (hook-serve/cargo fallback)''] else [])
            @ missing_value h ctx ''KAFKA_BROKERS''
            @ (if blank sources then [''missing RELAY_ENABLED_SOURCES''] else [])
            @ concat (map (missing_secret '' for enabled source '' h ctx) (parse_csv_lower sources))
            @ apply_profile_role_restriction ctx RoleServe))"

definition detect_relay_capability :: "host \<Rightarrow> app_context \<Rightarrow> role_capability" where
  "detect_relay_capability h ctx =
     role_capability_of RoleRelay (Some ''internal'')
       (missing_value h ctx ''KAFKA_BROKERS'' @ missing_value h ctx ''KAFKA_TOPICS''
        @ missing_value h ctx ''HOOK_RELAY_OUTPUT_TOPIC'' @ apply_profile_role_restriction ctx RoleRelay)"

definition detect_smash_capability :: "host \<Rightarrow> app_context \<Rightarrow> role_capability" where
  "detect_smash_capability h ctx =
     (let backend = resolve_smash_backend h ctx
      in role_capability_of RoleSmash backend
           ((if backend = None then [''no smash backend found (kafka-openclaw-hook/cargo fallback)''] else [])
            @ missing_value h ctx ''KAFKA_BROKERS'' @ missing_value h ctx ''OPENCLAW_WEBHOOK_URL''
            @ missing_value h ctx ''OPENCLAW_WEBHOOK_TOKEN'' @ apply_profile_role_restriction ctx RoleSmash))"

record capability_report =
  rep_repo_root :: "string option"
  rep_roles :: "role_capability list"
  rep_tools :: "(string \<times> bool) list"

definition detect_capabilities :: "host \<Rightarrow> app_context \<Rightarrow> capability_report" where
  "detect_capabilities h ctx =
     \<lparr>rep_repo_root = ctx_repo_root ctx,
      rep_roles = [detect_serve_capability h ctx, detect_relay_capability h ctx, detect_smash_capability h ctx],
      rep_tools = btree_collect (map (\<lambda>tool. (tool, host_which h tool))
        [''docker'', ''journalctl'', ''systemctl'', ''cargo'', ''firecracker'', ''bash''])\<rparr>"

subsection \<open>Ordered maps of a context\<close>

text \<open>The environment has each variable once, and the reader of a profile returns an ordered map.\<close>

definition host_ok :: "host \<Rightarrow> bool" where
  "host_ok h \<longleftrightarrow> distinct (map fst (host_vars h)) \<and>
     (\<forall>content p. host_de_profile h content = Some p \<longrightarrow> btree_wf (hp_env p))"

definition context_ok :: "app_context \<Rightarrow> bool" where
  "context_ok ctx \<longleftrightarrow> btree_wf (ctx_env_file_values ctx) \<and> btree_wf (hp_env (ctx_profile ctx))"

lemma parse_env_lines_wf: "parse_env_lines path n ls parsed = Inr m \<Longrightarrow> btree_wf parsed \<Longrightarrow> btree_wf m"
  by (induction path n ls parsed rule: parse_env_lines.induct)
     (auto simp: Let_def btree_wf_insert split: if_splits option.splits)

lemma merge_env_files_loop_wf: "merge_env_files_loop h ps merged = Inr m \<Longrightarrow> btree_wf merged \<Longrightarrow> btree_wf m"
  by (induction h ps merged rule: merge_env_files_loop.induct) (auto simp: and_then_Inr_iff bt.invar_collect)

lemma merge_env_files_wf: "merge_env_files h ps = Inr m \<Longrightarrow> btree_wf m"
  unfolding merge_env_files_def by (rule merge_env_files_loop_wf) (auto simp: bt.invar_empty)

lemma load_profile_wf: "host_ok h \<Longrightarrow> load_profile_from_path h path = Inr p \<Longrightarrow> btree_wf (hp_env p)"
  by (auto simp: load_profile_from_path_def host_ok_def and_then_Inr_iff ok_or_Inr_iff default_profile_def bt.invar_empty
      split: if_splits)

lemma load_with_contract_ok:
  assumes "load_with_contract h anc ga load = Inr ctx" "host_ok h"
  shows "context_ok ctx"
  using assms load_profile_wf [OF assms(2)] merge_env_files_wf
  by (auto simp: load_with_contract_def Let_def and_then_Inr_iff context_ok_def split: prod.splits)

lemma map_of_rev_distinct: "distinct (map fst m) \<Longrightarrow> map_of (rev m) = map_of m"
  by (rule map_of_inject_set [THEN iffD2]) (auto simp: rev_map [symmetric])

lemma map_of_rev_wf: "btree_wf m \<Longrightarrow> map_of (rev m) = map_of m"
  by (rule map_of_rev_distinct) (auto simp: btree_wf_def strict_sorted_iff)

definition reserved_key :: "string \<Rightarrow> bool" where
  "reserved_key key \<longleftrightarrow> key \<in> {''RELAY_PROFILE'', ''RELAY_VALIDATION_MODE'', ''RELAY_CONTRACT_PATH''}"

lemma merged_env_lookup:
  assumes "context_ok ctx" "distinct (map fst (host_vars h))" "\<not> reserved_key key"
  shows "map_of (merged_env_for_command h ctx overrides) key =
     or_else (map_of (rev overrides) key) (or_else (map_of (hp_env (ctx_profile ctx)) key)
       (or_else (map_of (ctx_env_file_values ctx) key) (map_of (host_vars h) key)))"
proof -
  let ?tail = "[(''RELAY_PROFILE'', ga_profile (ctx_global ctx)), (''RELAY_VALIDATION_MODE'', resolved_validation_mode ctx)]
        @ (case ctx_contract_path ctx of Some path \<Rightarrow> [(''RELAY_CONTRACT_PATH'', path)] | None \<Rightarrow> [])"
  have tail: "map_of (rev ?tail) key = None"
    using assms(3) by (auto simp: reserved_key_def split: option.splits)
  have wf: "map_of (rev (host_vars h)) = map_of (host_vars h)" "map_of (rev (ctx_env_file_values ctx)) = map_of (ctx_env_file_values ctx)"
    "map_of (rev (hp_env (ctx_profile ctx))) = map_of (hp_env (ctx_profile ctx))"
    using assms map_of_rev_wf map_of_rev_distinct by (auto simp: context_ok_def)
  have "map_of (merged_env_for_command h ctx overrides) key =
      ((((map_of (host_vars h) ++ map_of (ctx_env_file_values ctx)) ++ map_of (hp_env (ctx_profile ctx)))
         ++ map_of (rev overrides)) ++ map_of (rev ?tail)) key"
    unfolding merged_env_for_command_def map_of_btree_collect rev_append map_of_append wf map_add_assoc ..
  then show ?thesis unfolding map_add_def tail by (simp add: or_else_def split: option.splits)
qed

lemma merged_env_override:
  assumes "map_of (rev overrides) key = Some v" "\<not> reserved_key key"
  shows "map_of (merged_env_for_command h ctx overrides) key = Some v"
  using assms
  by (auto simp: merged_env_for_command_def map_of_btree_collect reserved_key_def map_add_def split: option.splits)

lemma resolve_value_lookup:
  assumes "context_ok ctx" "distinct (map fst (host_vars h))" "\<not> reserved_key key"
  shows "resolve_value h ctx flag key = opt_filter (\<lambda>v. v \<noteq> []) (map_option trim
     (map_of (merged_env_for_command h ctx (case flag of None \<Rightarrow> [] | Some v \<Rightarrow> [(key, v)])) key))"
  unfolding resolve_value_def by (cases flag) (simp_all add: merged_env_lookup [OF assms])

text \<open>The names that mean a secret, spelled out.\<close>

definition names_secret :: "string \<Rightarrow> bool" where
  "names_secret key \<longleftrightarrow>
     (\<exists>word \<in> {''SECRET'', ''TOKEN'', ''PASSWORD'', ''PRIVATE_KEY'', ''SASL''}. sublist word (to_ascii_uppercase key))"

lemma contains_sub_iff: "contains_sub pat s \<longleftrightarrow> sublist pat s"
proof -
  have "find_sub pat s \<noteq> None \<longleftrightarrow> sublist pat s"
    by (induction s) (auto simp: sublist_Cons_right)
  then show ?thesis by (simp add: contains_sub_def)
qed

lemma is_sensitive_iff: "is_sensitive_env_key key \<longleftrightarrow> names_secret key"
  by (simp add: is_sensitive_env_key_def names_secret_def Let_def contains_sub_iff)

lemma redacted_lines:
  assumes "map fst m = map fst m'"
    and "filter (\<lambda>kv. \<not> is_sensitive_env_key (fst kv)) m = filter (\<lambda>kv. \<not> is_sensitive_env_key (fst kv)) m'"
  shows "map redacted_line m = map redacted_line m'"
  using assms
proof (induction m arbitrary: m')
  case (Cons kv m)
  then obtain kv' m'' where m': "m' = kv' # m''" by (cases m') auto
  with Cons.prems have fst: "fst kv = fst kv'" "map fst m = map fst m''" by simp_all
  show ?case
    by (cases "is_sensitive_env_key (fst kv)")
       (use Cons.prems(2) Cons.IH [OF fst(2)] fst m' in \<open>simp_all add: redacted_line_def\<close>)
qed simp

subsection \<open>Printing an environment file\<close>

definition env_text :: "(string \<times> string) list \<Rightarrow> string" where
  "env_text kvs = concat (map (\<lambda>(k, v). k @ CHR ''='' # v @ [CHR 0x0A]) kvs)"

text \<open>An entry one line can hold: the key is not empty, does not start a comment and has no equals
  sign; key and value have no newline and no white space around them, the value no quotes around it.\<close>

definition plain_entry :: "string \<times> string \<Rightarrow> bool" where
  "plain_entry kv \<longleftrightarrow> (case kv of (k, v) \<Rightarrow>
     k \<noteq> [] \<and> trimmed k \<and> hd k \<noteq> CHR ''#'' \<and> CHR ''='' \<notin> set k \<and> CHR 0x0A \<notin> set k \<and>
     trimmed v \<and> CHR 0x0A \<notin> set v \<and> trim_matches (CHR 0x22) v = v \<and> trim_matches (CHR 0x27) v = v)"

lemma equals_not_white: "\<forall>w \<in> set white_space. CHR ''='' \<notin> set w"
  by (simp add: white_space_def)

lemma trimmed_chomp:
  assumes "trimmed s" shows "chomp s = s"
proof (rule ccontr)
  assume "chomp s \<noteq> s"
  then obtain t where s: "s = t @ [CHR 0x0D]"
    by (auto simp: chomp_def split: if_splits) (metis append_butlast_last_id)
  have "lead_len (map rev white_space) (rev s) = 0" using assms trimmed_ends(2) by blast
  then show False
    unfolding lead_len_0_iff s by (auto simp: white_space_def)
qed

lemma plain_line:
  assumes "plain_entry (k, v)"
  defines "line \<equiv> k @ CHR ''='' # v"
  shows "trim line = line" "line \<noteq> []" "\<not> starts_with ''#'' line" "CHR 0x0A \<notin> set line" "chomp line = line"
    "split_once (CHR ''='') line = Some (k, v)"
proof -
  have t: "trimmed line"
    unfolding line_def using assms equals_not_white by (intro trimmed_sep) (auto simp: plain_entry_def)
  then show "trim line = line" "chomp line = line" by (simp_all add: trimmed_def trimmed_chomp)
  show "line \<noteq> []" "CHR 0x0A \<notin> set line" "split_once (CHR ''='') line = Some (k, v)"
    using assms by (auto simp: plain_entry_def split_once_append)
  show "\<not> starts_with ''#'' line"
    using assms by (cases k) (auto simp: plain_entry_def starts_with_def)
qed

lemma lines_of_env_text:
  assumes "\<forall>kv \<in> set kvs. plain_entry kv"
  shows "lines_of (env_text kvs) = map (\<lambda>(k, v). k @ CHR ''='' # v) kvs"
proof -
  have "split_on (CHR 0x0A) (env_text kvs) = map (\<lambda>(k, v). k @ CHR ''='' # v) kvs @ [[]]"
    using assms
  proof (induction kvs)
    case (Cons kv kvs)
    obtain k v where kv: "kv = (k, v)" by force
    with Cons.prems have p: "plain_entry (k, v)" by simp
    from split_on_append [OF plain_line(4) [OF p], of "env_text kvs"] Cons kv show ?case by (simp add: env_text_def)
  qed (simp add: env_text_def)
  moreover have "map chomp (map (\<lambda>(k, v). k @ CHR ''='' # v) kvs) = map (\<lambda>(k, v). k @ CHR ''='' # v) kvs"
    using assms plain_line(5) by (auto simp: plain_line)
  ultimately show ?thesis by (simp add: lines_of_def del: map_map)
qed

lemma parse_env_lines_plain:
  assumes "\<forall>kv \<in> set kvs. plain_entry kv"
  shows "parse_env_lines path n (map (\<lambda>(k, v). k @ CHR ''='' # v) kvs) parsed =
     Inr (fold (\<lambda>(k, v). btree_insert k v) kvs parsed)"
  using assms
proof (induction kvs arbitrary: n parsed)
  case (Cons kv kvs)
  obtain k v where kv: "kv = (k, v)" by force
  with Cons.prems have p: "plain_entry (k, v)" by simp
  with Cons kv plain_line [OF p] show ?case
    by (simp add: plain_entry_def trimmed_def Let_def)
qed simp

subsection \<open>Properties\<close>

text \<open>What the tool checks is what its backend sees: for a loaded context and any key but the
  three the tool sets itself, the value \<open>resolve_value\<close> finds (command line flag, then profile, then
  environment files, then environment) is the trimmed value of that variable in the environment
  \<open>merged_env_for_command\<close> gives to the backend with the flag as an override.\<close>

theorem resolve_value_is_backend_env:
  assumes "load_with_contract h ancestors ga load = Inr ctx" "host_ok h" "\<not> reserved_key key"
  shows "resolve_value h ctx flag key = opt_filter (\<lambda>v. v \<noteq> []) (map_option trim
     (map_of (merged_env_for_command h ctx (case flag of None \<Rightarrow> [] | Some v \<Rightarrow> [(key, v)])) key))"
  using resolve_value_lookup [OF load_with_contract_ok [OF assms(1,2)]] assms(2,3) by (simp add: host_ok_def)

text \<open>C32. The redacted listing of the environment does not depend on secrets: call a name secret when it contains,
  in any case, \<open>SECRET\<close>, \<open>TOKEN\<close>, \<open>PASSWORD\<close>, \<open>PRIVATE_KEY\<close> or \<open>SASL\<close>. The listing has one line per variable of
  the merged environment, with a mark in place of the value where the name is secret; so two hosts and
  contexts whose environments have the same names and agree on the values of the names that are not
  secret print the same text.\<close>

theorem redaction_hides_secrets:
  assumes "map fst (merged_env_for_command h ctx []) = map fst (merged_env_for_command h' ctx' [])"
    and "filter (\<lambda>kv. \<not> names_secret (fst kv)) (merged_env_for_command h ctx [])
       = filter (\<lambda>kv. \<not> names_secret (fst kv)) (merged_env_for_command h' ctx' [])"
  shows "redacted_merged_env_text h ctx = redacted_merged_env_text h' ctx'
     \<and> redacted_merged_env_text h ctx =
         join [CHR 0x0A] (map (\<lambda>(k, v). k @ ''='' @ (if names_secret k then ''[REDACTED]'' else v)) (merged_env_for_command h ctx []))"
proof
  show "redacted_merged_env_text h ctx = redacted_merged_env_text h' ctx'"
    unfolding redacted_merged_env_text_def
    using redacted_lines [OF assms(1) assms(2) [folded is_sensitive_iff]] by (rule arg_cong)
  have "redacted_line = (\<lambda>(k, v). k @ ''='' @ (if names_secret k then ''[REDACTED]'' else v))"
    by (simp add: fun_eq_iff redacted_line_def is_sensitive_iff)
  then show "redacted_merged_env_text h ctx =
      join [CHR 0x0A] (map (\<lambda>(k, v). k @ ''='' @ (if names_secret k then ''[REDACTED]'' else v)) (merged_env_for_command h ctx []))"
    by (simp add: redacted_merged_env_text_def)
qed

text \<open>C29. Environment files round trip: a file with one \<open>KEY=VALUE\<close> line per entry, each entry one that an
  unquoted line can hold (\<open>plain_entry\<close>), is read back as exactly these entries, a later line of a key
  replacing an earlier one.\<close>

theorem env_file_round_trip:
  assumes "host_read h path = Some (env_text kvs)" "\<forall>kv \<in> set kvs. plain_entry kv"
  shows "parse_env_file h path = Inr (btree_collect kvs)"
  using assms by (simp add: parse_env_file_def lines_of_env_text parse_env_lines_plain btree_collect_def)

subsection \<open>A host for the witnesses\<close>

definition demo_entries :: "(string \<times> string) list" where
  "demo_entries = [(''KAFKA_BROKERS'', ''broker:9092''), (''OPENCLAW_WEBHOOK_TOKEN'', ''abc'')]"

definition demo_host :: host where
  "demo_host =
     \<lparr>host_vars = [(''HMAC_SECRET_GITHUB'', ''s''), (''KAFKA_BROKERS'', ''localhost:9092''), (''HMAC_SECRET_LINEAR'', ''t'')],
      host_read = \<lambda>path. if path = ''test.env'' then Some (env_text demo_entries) else None,
      host_exists = \<lambda>_. False, host_is_file = \<lambda>_. False, host_which = \<lambda>program. program = ''hook-serve'',
      host_cwd = None, host_config_dir = None, host_de_profile = \<lambda>_. None, host_de_contract = \<lambda>_. None\<rparr>"

definition demo_args :: global_args where
  "demo_args =
     \<lparr>ga_profile = ''default-openclaw'', ga_app = None, ga_contract = None, ga_env_files = [''test.env''],
      ga_config = Some ''profile.toml'', ga_force = False, ga_json = False, ga_validation_mode = None\<rparr>"

definition demo_context :: app_context where
  "demo_context =
     \<lparr>ctx_global = demo_args, ctx_repo_root = None, ctx_profile_path = ''profile.toml'', ctx_profile = default_profile,
      ctx_env_file_values = demo_entries, ctx_contract_path = None, ctx_contract = Some embedded_default_contract\<rparr>"

lemma demo_plain: "\<forall>kv \<in> set demo_entries. plain_entry kv"
proof -
  have "plain_entry (''KAFKA_BROKERS'', ''broker:9092'')" "plain_entry (''OPENCLAW_WEBHOOK_TOKEN'', ''abc'')" by code_simp+
  then show ?thesis by (simp add: demo_entries_def)
qed

lemma demo_env_file: "parse_env_file demo_host ''test.env'' = Inr demo_entries"
proof -
  have "btree_collect demo_entries = demo_entries" by code_simp
  moreover have "host_read demo_host ''test.env'' = Some (env_text demo_entries)" by (simp add: demo_host_def)
  ultimately show ?thesis
    using demo_plain by (simp add: parse_env_file_def lines_of_env_text parse_env_lines_plain btree_collect_def)
qed

lemma demo_loaded: "load_with_contract demo_host [] demo_args True = Inr demo_context"
proof -
  have "fold (\<lambda>(k, v). btree_insert k v) demo_entries [] = demo_entries" by code_simp
  then show ?thesis
    by (simp add: load_with_contract_def merge_env_files_def demo_env_file demo_args_def Let_def resolve_profile_path_def
        load_profile_from_path_def resolve_contract_def demo_context_def)
       (simp add: demo_host_def discover_repo_root_def)
qed

lemma demo_host_ok: "host_ok demo_host"
  by (simp add: host_ok_def demo_host_def)

theorem env_file_round_trip_witness: "parse_env_file demo_host ''test.env'' = Inr (btree_collect demo_entries)"
  by (rule env_file_round_trip [OF _ demo_plain]) (simp add: demo_host_def)

theorem resolve_value_is_backend_env_witness:
  "\<exists>v. map_of (merged_env_for_command demo_host demo_context []) ''KAFKA_BROKERS'' = Some v \<and> trim v = ''broker:9092''"
proof -
  have "\<not> reserved_key ''KAFKA_BROKERS''" by (simp add: reserved_key_def)
  from resolve_value_is_backend_env [OF demo_loaded demo_host_ok this, of None]
  have "opt_filter (\<lambda>v. v \<noteq> []) (map_option trim (map_of (merged_env_for_command demo_host demo_context []) ''KAFKA_BROKERS''))
      = resolve_value demo_host demo_context None ''KAFKA_BROKERS''" by simp
  also have "\<dots> = Some ''broker:9092''" by code_simp
  finally show ?thesis by (auto simp: opt_filter_Some_iff)
qed

theorem redaction_hides_secrets_witness:
  "redacted_merged_env_text demo_host demo_context =
   redacted_merged_env_text (demo_host\<lparr>host_vars := [(''HMAC_SECRET_GITHUB'', ''other''), (''KAFKA_BROKERS'', ''localhost:9092''),
      (''HMAC_SECRET_LINEAR'', ''secret'')]\<rparr>) demo_context"
  by (rule conjunct1 [OF redaction_hides_secrets]) (unfold is_sensitive_iff [symmetric], code_simp+)

end
