(* ===== verification/Launch.thy ===== *)
theory Launch
  imports Cli_Config Smash_Config
begin

section \<open>The command line tool: starting the receiver and the consumer\<close>

text \<open>
  \<open>tools/hook/src/commands/serve.rs\<close> and \<open>commands/smash.rs\<close>: the active profile of the contract is
  turned into the environment variables the two programs read at their start. The tool declares its
  own copies of the adapter, route and transport types, field for field those the programs
  deserialize (\<^typ>\<open>ingress_adapter\<close>, \<^typ>\<open>smash_adapter\<close>, \<^typ>\<open>smash_route\<close>,
  \<^typ>\<open>smash_transport\<close>), so each is a second name of the same type. Writing them as JSON and reading a plugin
  from a TOML value is generated by serde: the fields of \<open>launch_crates\<close>.
\<close>

type_synonym serve_ingress_adapter_env = ingress_adapter
type_synonym serve_plugin_env = serve_plugin
type_synonym serve_route_env = serve_route_rule
type_synonym smash_adapter_env = smash_adapter
type_synonym smash_plugin_env = smash_plugin
type_synonym smash_route_env = smash_route
type_synonym smash_destination_env = route_destination
type_synonym smash_transport_env = smash_transport

record launch_crates =
  de_smash_plugin :: "toml \<Rightarrow> smash_plugin_env result"
  de_serve_plugin :: "toml \<Rightarrow> serve_plugin_env result"
  ser_smash_adapters :: "smash_adapter_env list \<Rightarrow> string result"
  ser_smash_routes :: "smash_route_env list \<Rightarrow> string result"
  ser_smash_transports :: "smash_transport_env list \<Rightarrow> string result"
  ser_serve_routes :: "serve_route_env list \<Rightarrow> string result"
  ser_ingress_adapters :: "serve_ingress_adapter_env list \<Rightarrow> string result"

subsection \<open>Reading adapter tables\<close>

text \<open>The two commands have the same readers with different words in the messages.\<close>

definition required_string_config :: "string \<Rightarrow> toml_config \<Rightarrow> string \<Rightarrow> string \<Rightarrow> string result" where
  "required_string_config what config key aid =
     (case map_of config key of
        Some v \<Rightarrow> ok_or (what @ '' '' @ quoted aid @ '' key '' @ quoted key @ '' must be a non-empty string'')
          (opt_filter (\<lambda>s. s \<noteq> []) (as_trimmed_str v))
      | None \<Rightarrow> Inl (what @ '' '' @ quoted aid @ '' missing required key '' @ quoted key))"

definition optional_string_config :: "toml_config \<Rightarrow> string \<Rightarrow> string option" where
  "optional_string_config config key = opt_filter (\<lambda>s. s \<noteq> []) (Option.bind (map_of config key) as_trimmed_str)"

definition required_u64_config :: "string \<Rightarrow> toml_config \<Rightarrow> string \<Rightarrow> string \<Rightarrow> u64 result" where
  "required_u64_config what config key aid =
     (case map_of config key of
        Some (TInteger v) \<Rightarrow>
          if 0 \<le> sint v then Inr v
          else Inl (what @ '' '' @ quoted aid @ '' key '' @ quoted key @ '' must be a non-negative integer'')
      | Some _ \<Rightarrow> Inl (what @ '' '' @ quoted aid @ '' key '' @ quoted key @ '' must be a non-negative integer'')
      | None \<Rightarrow> Inl (what @ '' '' @ quoted aid @ '' missing required key '' @ quoted key))"

definition u32_try_from :: "u64 \<Rightarrow> u32 option" where
  "u32_try_from v = (if v \<le> 0xFFFFFFFF then Some (ucast v) else None)"

definition required_u32_config :: "toml_config \<Rightarrow> string \<Rightarrow> string \<Rightarrow> u32 result" where
  "required_u32_config config key aid =
     and_then (required_u64_config ''adapter'' config key aid) (\<lambda>v.
       ok_or (''adapter '' @ quoted aid @ '' key '' @ quoted key @ '' exceeds u32 range'') (u32_try_from v))"

text \<open>\<open>usize\<close> is 64 bits wide, so the conversion of the source does not fail.\<close>

definition required_usize_config :: "string \<Rightarrow> toml_config \<Rightarrow> string \<Rightarrow> string \<Rightarrow> usize result" where
  "required_usize_config what config key aid = required_u64_config what config key aid"

definition nonempty_strings :: "toml list \<Rightarrow> string list" where
  "nonempty_strings items = List.map_filter (\<lambda>v. opt_filter (\<lambda>s. s \<noteq> []) (as_trimmed_str v)) items"

definition optional_string_array_config :: "toml_config \<Rightarrow> string \<Rightarrow> string list" where
  "optional_string_array_config config key =
     (case map_of config key of Some (TArray items) \<Rightarrow> nonempty_strings items | _ \<Rightarrow> [])"

definition required_string_array_config :: "toml_config \<Rightarrow> string \<Rightarrow> string \<Rightarrow> string list result" where
  "required_string_array_config config key aid =
     (case map_of config key of
        None \<Rightarrow> Inl (''ingress adapter '' @ quoted aid @ '' missing required key '' @ quoted key)
      | Some (TArray items) \<Rightarrow>
          if nonempty_strings items = []
          then Inl (''ingress adapter '' @ quoted aid @ '' key '' @ quoted key @ '' must contain at least one topic'')
          else Inr (nonempty_strings items)
      | Some _ \<Rightarrow> Inl (''ingress adapter '' @ quoted aid @ '' key '' @ quoted key @ '' must be an array of strings''))"

fun string_entries :: "string \<Rightarrow> toml_config \<Rightarrow> (string \<times> string) list result" where
  "string_entries at [] = Inr []"
| "string_entries at ((entry_key, TString v) # entries) =
     and_then (string_entries at entries) (\<lambda>vs. Inr ((entry_key, v) # vs))"
| "string_entries at ((entry_key, _) # entries) = Inl (at @ ''.'' @ entry_key)"

definition optional_string_map_config :: "toml_config \<Rightarrow> string \<Rightarrow> string \<Rightarrow> (string \<times> string) list result" where
  "optional_string_map_config config key aid =
     (case map_of config key of
        None \<Rightarrow> Inr []
      | Some (TTable table) \<Rightarrow>
          (case string_entries key table of
             Inl at \<Rightarrow> Inl (''adapter '' @ quoted aid @ '' key '' @ quoted at @ '' must be string'')
           | Inr kvs \<Rightarrow> Inr (btree_collect kvs))
      | Some _ \<Rightarrow> Inl (''adapter '' @ quoted aid @ '' key '' @ quoted key @ '' must be table''))"

definition parse_plugins_from_config ::
  "(toml \<Rightarrow> 'p result) \<Rightarrow> string \<Rightarrow> toml_config \<Rightarrow> string \<Rightarrow> 'p list result" where
  "parse_plugins_from_config de what config aid =
     (case map_of config ''plugins'' of
        None \<Rightarrow> Inr []
      | Some (TArray items) \<Rightarrow>
          collect_results (\<lambda>item. case de item of
            Inl err \<Rightarrow> Inl (what @ '' '' @ quoted aid @ '' has invalid plugin config: '' @ err)
          | Inr plugin \<Rightarrow> Inr plugin) items
      | Some _ \<Rightarrow> Inl (what @ '' '' @ quoted aid @ '' key '' @ quoted ''plugins'' @ '' must be an array''))"

definition retry_integer :: "string \<Rightarrow> string \<Rightarrow> toml_config \<Rightarrow> u64 \<Rightarrow> u64 result" where
  "retry_integer aid key table dflt =
     (case map_of table key of
        Some (TInteger v) \<Rightarrow>
          if 0 \<le> sint v then Inr v
          else Inl (''smash adapter '' @ quoted aid @ '' retry_policy.'' @ key @ '' must be integer'')
      | Some _ \<Rightarrow> Inl (''smash adapter '' @ quoted aid @ '' retry_policy.'' @ key @ '' must be integer'')
      | None \<Rightarrow> Inr dflt)"

definition parse_retry_policy :: "toml_config \<Rightarrow> string \<Rightarrow> (u32 \<times> u64) result" where
  "parse_retry_policy config aid =
     (case map_of config ''retry_policy'' of
        None \<Rightarrow> Inr (5, 500)
      | Some (TTable table) \<Rightarrow>
          and_then (retry_integer aid ''max_retries'' table 5) (\<lambda>raw.
          and_then (ok_or (''smash adapter '' @ quoted aid @ '' retry_policy.max_retries exceeds u32 range'')
                      (u32_try_from raw)) (\<lambda>max_retries.
          and_then (retry_integer aid ''backoff_ms'' table 500) (\<lambda>backoff_ms.
            Inr (max_retries, backoff_ms))))
      | Some _ \<Rightarrow> Inl (''smash adapter '' @ quoted aid @ '' retry_policy must be a table''))"

definition parse_validation_mode :: "string \<Rightarrow> validation_mode result" where
  "parse_validation_mode raw =
     (let s = to_ascii_lowercase (trim raw)
      in if s = ''strict'' then Inr Strict
         else if s = ''debug'' then Inr Debug
         else Inl (''invalid --validation-mode '' @ quoted s @ ''; expected strict or debug''))"

subsection \<open>The consumer's side of a contract\<close>

definition to_smash_transport_env :: "string \<Rightarrow> transport_def \<Rightarrow> smash_transport_env result" where
  "to_smash_transport_env name transport =
     (let config = tr_config transport; need = required_string_config ''adapter'' config
      in case tr_driver transport of
           StdioDriver \<Rightarrow>
             and_then (need ''command'' name) (\<lambda>command.
             and_then (optional_string_map_config config ''env'' name) (\<lambda>e.
               Inr (StdioJsonrpc name command (optional_string_array_config config ''args'') e)))
         | HttpSseDriver \<Rightarrow>
             and_then (need ''url'' name) (\<lambda>url.
             and_then (need ''auth_mode'' name) (\<lambda>auth_mode.
               Inr (HttpSse name url auth_mode (optional_string_config config ''token_env''))))
         | UnknownTransport v \<Rightarrow>
             Inl (''active transport '' @ quoted name @ '' uses unsupported driver '' @ quoted v))"

definition to_smash_adapter_env :: "launch_crates \<Rightarrow> egress_adapter_def \<Rightarrow> smash_adapter_env result" where
  "to_smash_adapter_env lc adapter =
     (let config = out_config adapter; aid = out_id adapter;
          text_of = (\<lambda>key. required_string_config ''adapter'' config key aid);
          u64_of = (\<lambda>key. required_u64_config ''adapter'' config key aid);
          usize_of = (\<lambda>key. required_usize_config ''adapter'' config key aid)
      in and_then (parse_plugins_from_config (de_smash_plugin lc) ''adapter'' config aid) (\<lambda>plugins.
         case out_driver adapter of
           OpenclawDriver \<Rightarrow>
             and_then (text_of ''url'') (\<lambda>url.
             and_then (text_of ''token_env'') (\<lambda>token_env.
             and_then (u64_of ''timeout_seconds'') (\<lambda>timeout_seconds.
             and_then (required_u32_config config ''max_retries'' aid) (\<lambda>max_retries.
               Inr (OpenclawHttpOutput aid url token_env timeout_seconds max_retries plugins)))))
         | McpToolDriver \<Rightarrow>
             and_then (text_of ''tool_name'') (\<lambda>tool_name.
             and_then (text_of ''transport_ref'') (\<lambda>transport_ref.
               Inr (McpToolOutput aid tool_name transport_ref plugins)))
         | WebsocketClientDriver \<Rightarrow>
             and_then (parse_retry_policy config aid) (\<lambda>(retry_max_retries, retry_backoff_ms).
             and_then (text_of ''url'') (\<lambda>url.
             and_then (text_of ''auth_mode'') (\<lambda>auth_mode.
             and_then (u64_of ''send_timeout_ms'') (\<lambda>send_timeout_ms.
               Inr (WebsocketClientOutput aid url auth_mode (optional_string_config config ''token_env'')
                      send_timeout_ms retry_max_retries retry_backoff_ms plugins)))))
         | WebsocketServerDriver \<Rightarrow>
             and_then (text_of ''bind'') (\<lambda>bind.
             and_then (text_of ''path'') (\<lambda>path.
             and_then (text_of ''auth_mode'') (\<lambda>auth_mode.
             and_then (usize_of ''max_clients'') (\<lambda>max_clients.
             and_then (usize_of ''queue_depth_per_client'') (\<lambda>queue_depth.
             and_then (u64_of ''send_timeout_ms'') (\<lambda>send_timeout_ms.
               Inr (WebsocketServerOutput aid bind path auth_mode (optional_string_config config ''token_env'')
                      max_clients queue_depth send_timeout_ms plugins)))))))
         | KafkaOutputDriver \<Rightarrow>
             and_then (text_of ''topic'') (\<lambda>topic.
             and_then (text_of ''key_mode'') (\<lambda>key_mode.
               Inr (KafkaOutput aid topic key_mode plugins)))
         | UnknownEgress v \<Rightarrow>
             Inl (''active smash adapter '' @ quoted aid @ '' uses unsupported driver '' @ quoted v)))"

definition to_smash_route_env :: "smash_route_def \<Rightarrow> smash_route_env result" where
  "to_smash_route_env route =
     (let pattern = trim (smr_source_topic_pattern route)
      in if pattern = [] then Inl (''smash route '' @ quoted (smr_id route) @ '' has empty source_topic_pattern'')
         else if contains_sub ''*'' pattern
         then Inl (''smash route '' @ quoted (smr_id route) @ '' uses wildcard source_topic_pattern '' @ quoted pattern
                     @ ''; pass explicit --topics or use literal topics'')
         else Inr \<lparr>sroute_id = smr_id route, source_topic_pattern = pattern, event_filters = smr_event_filters route,
                   destinations = map (\<lambda>d. \<lparr>dest_adapter_id = dst_adapter_id d, dest_required = dst_required d\<rparr>)
                                    (smr_destinations route)\<rparr>)"

fun adapter_transports :: "app_contract \<Rightarrow> smash_adapter_env list \<Rightarrow> smash_transport_env list result" where
  "adapter_transports contract [] = Inr []"
| "adapter_transports contract (McpToolOutput aid tool_name transport_ref plugins # adapters) =
     (case map_of (con_transports contract) transport_ref of
        None \<Rightarrow> Inl (''missing transport '' @ quoted transport_ref @ '' for mcp_tool_output'')
      | Some transport \<Rightarrow>
          and_then (to_smash_transport_env transport_ref transport) (\<lambda>t.
          and_then (adapter_transports contract adapters) (\<lambda>ts. Inr (t # ts))))"
| "adapter_transports contract (_ # adapters) = adapter_transports contract adapters"

fun no_output_sink_to_string :: "contract_sink \<Rightarrow> string" where
  "no_output_sink_to_string Discard = ''discard''"
| "no_output_sink_to_string Dlq = ''dlq''"

record active_smash_contract =
  as_adapters :: "smash_adapter_env list"
  as_routes :: "smash_route_env list"
  as_transports :: "smash_transport_env list"
  as_kafka_topics :: "string list"
  as_allow_no_output :: bool
  as_no_output_sink :: "string option"

definition render_error :: "contract_error \<Rightarrow> string" where
  "render_error e = ''- ['' @ err_code e @ ''] '' @ err_message e
     @ (if security_critical e then '' (security-critical)'' else [])"

definition contract_for_validation :: "app_context \<Rightarrow> app_contract \<Rightarrow> app_contract result" where
  "contract_for_validation ctx contract =
     (case ga_validation_mode (ctx_global ctx) of
        None \<Rightarrow> Inr contract
      | Some raw \<Rightarrow> and_then (parse_validation_mode raw) (\<lambda>mode. Inr (in_mode mode contract)))"

text \<open>The outcome of the validation in a command: \<open>None\<close> when only checks that are not critical failed
  and \<open>--force\<close> is given.\<close>

definition validate_or_force ::
  "string \<Rightarrow> app_context \<Rightarrow> app_contract \<Rightarrow> validated_profile option result" where
  "validate_or_force command ctx contract =
     (case validate_contract contract (ga_profile (ctx_global ctx)) of
        Inr validated \<Rightarrow> Inr (Some validated)
      | Inl errors \<Rightarrow>
          if (\<exists>e \<in> set errors. security_critical e) \<or> \<not> ga_force (ctx_global ctx)
          then Inl (command @ '' contract validation failed:'' @ [CHR 0x0A] @ join [CHR 0x0A] (map render_error errors))
          else Inr None)"

definition resolve_active_smash_contract ::
  "launch_crates \<Rightarrow> app_context \<Rightarrow> app_contract \<Rightarrow> active_smash_contract result" where
  "resolve_active_smash_contract lc ctx contract =
     and_then (contract_for_validation ctx contract) (\<lambda>checked.
     and_then (validate_or_force ''smash'' ctx checked) (\<lambda>validation.
     let no_output = pol_allow_no_output (con_policies checked);
         sink = map_option no_output_sink_to_string (pol_no_output_sink (con_policies checked))
     in case validation of
          None \<Rightarrow> Inr \<lparr>as_adapters = [], as_routes = [], as_transports = [], as_kafka_topics = [],
                        as_allow_no_output = no_output, as_no_output_sink = sink\<rparr>
        | Some validated \<Rightarrow>
            and_then (collect_results (to_smash_adapter_env lc)
                (filter (\<lambda>a. out_id a \<in> set (vp_smash_adapter_ids validated)) (egress_adapter_defs (con_smash contract))))
              (\<lambda>adapters.
            and_then (collect_results to_smash_route_env
                (filter (\<lambda>r. smr_id r \<in> set (vp_smash_route_ids validated)) (smash_route_defs (con_smash contract))))
              (\<lambda>routes.
            and_then (adapter_transports contract adapters) (\<lambda>transports.
              Inr \<lparr>as_adapters = adapters, as_routes = routes, as_transports = transports,
                   as_kafka_topics = btree_set (map source_topic_pattern routes),
                   as_allow_no_output = no_output, as_no_output_sink = sink\<rparr>)))))"

record smash_args =
  sa_topics :: "string option"
  sa_webhook_url :: "string option"
  sa_webhook_token :: "string option"
  sa_group_id :: "string option"
  sa_brokers :: "string option"
  sa_instance_id :: "string option"

definition show_bool :: "bool \<Rightarrow> string" where
  "show_bool b = (if b then ''true'' else ''false'')"

definition smash_contract_overrides ::
  "launch_crates \<Rightarrow> active_smash_contract \<Rightarrow> (string \<times> string) list result" where
  "smash_contract_overrides lc active =
     and_then (ser_smash_adapters lc (as_adapters active)) (\<lambda>adapters.
     and_then (ser_smash_routes lc (as_routes active)) (\<lambda>routes.
     and_then (ser_smash_transports lc (as_transports active)) (\<lambda>transports.
       Inr ([(''HOOK_SMASH_ADAPTERS_JSON'', adapters), (''HOOK_SMASH_ROUTES_JSON'', routes),
             (''HOOK_SMASH_TRANSPORTS_JSON'', transports),
             (''HOOK_ALLOW_NO_OUTPUT'', show_bool (as_allow_no_output active))]
            @ (case as_no_output_sink active of None \<Rightarrow> [] | Some sink \<Rightarrow> [(''HOOK_NO_OUTPUT_SINK'', sink)])
            @ (if as_kafka_topics active = [] then []
               else [(''KAFKA_TOPICS'', join '','' (as_kafka_topics active))])))))"

text \<open>The overrides, and whether the variables of the legacy output are needed.\<close>

definition smash_contract_part ::
  "launch_crates \<Rightarrow> app_context \<Rightarrow> ((string \<times> string) list \<times> bool) result" where
  "smash_contract_part lc ctx =
     (case ctx_contract ctx of
        None \<Rightarrow> Inr ([], True)
      | Some contract \<Rightarrow>
          and_then (resolve_active_smash_contract lc ctx contract) (\<lambda>active.
            if as_adapters active \<noteq> [] \<or> as_allow_no_output active
            then and_then (smash_contract_overrides lc active) (\<lambda>overrides. Inr (overrides, False))
            else Inr ([], True)))"

definition missing_flag_value :: "host \<Rightarrow> app_context \<Rightarrow> string option \<Rightarrow> string \<Rightarrow> string list" where
  "missing_flag_value h ctx flag key = (if resolve_value h ctx flag key = None then [''missing '' @ key] else [])"

definition flag_override :: "string \<Rightarrow> string option \<Rightarrow> (string \<times> string) list" where
  "flag_override key flag = (case flag of None \<Rightarrow> [] | Some v \<Rightarrow> [(key, v)])"

definition smash_flag_overrides :: "smash_args \<Rightarrow> (string \<times> string) list" where
  "smash_flag_overrides args =
     flag_override ''KAFKA_BROKERS'' (sa_brokers args) @ flag_override ''KAFKA_TOPICS'' (sa_topics args)
     @ flag_override ''KAFKA_GROUP_ID'' (sa_group_id args) @ flag_override ''OPENCLAW_WEBHOOK_URL'' (sa_webhook_url args)
     @ flag_override ''OPENCLAW_WEBHOOK_TOKEN'' (sa_webhook_token args)
     @ flag_override ''HOOK_INSTANCE_ID'' (sa_instance_id args) @ flag_override ''KAFKA_CLIENT_ID'' (sa_instance_id args)"

text \<open>The command line handed to the shell and its environment.\<close>

definition smash_launch ::
  "host \<Rightarrow> launch_crates \<Rightarrow> app_context \<Rightarrow> smash_args \<Rightarrow> (string \<times> (string \<times> string) list) result" where
  "smash_launch h lc ctx args =
     (let backend = resolve_smash_backend h ctx
      in and_then (smash_contract_part lc ctx) (\<lambda>(contract_overrides, requires_legacy_openclaw_env).
         let reasons = (if backend = None then [''no smash backend found''] else [])
               @ missing_flag_value h ctx (sa_brokers args) ''KAFKA_BROKERS''
               @ (if requires_legacy_openclaw_env
                  then missing_flag_value h ctx (sa_webhook_url args) ''OPENCLAW_WEBHOOK_URL''
                       @ missing_flag_value h ctx (sa_webhook_token args) ''OPENCLAW_WEBHOOK_TOKEN''
                  else [])
         in if reasons \<noteq> [] \<and> \<not> ga_force (ctx_global ctx)
            then Inl (''smash unavailable: '' @ join ''; '' reasons @ ''. use --force to bypass'')
            else and_then (ok_or ''no smash backend resolved'' backend) (\<lambda>spec.
                   Inr (spec, merged_env_for_command h ctx (contract_overrides @ smash_flag_overrides args)))))"

text \<open>The child process: a login shell that reads the command line, in the directory of the repository
  if there is one, with the merged environment added to the inherited one. \<open>sh\<close> says how it ends: the
  text of the error that kept it from starting, or whether its status was a success.\<close>

record shell_command =
  sc_program :: string
  sc_args :: "string list"
  sc_current_dir :: "string option"
  sc_env :: "(string \<times> string) list"

definition shell_command_for :: "app_context \<Rightarrow> string \<Rightarrow> (string \<times> string) list \<Rightarrow> shell_command" where
  "shell_command_for ctx spec e =
     \<lparr>sc_program = ''sh'', sc_args = [''-lc'', spec], sc_current_dir = ctx_repo_root ctx, sc_env = e\<rparr>"

definition run_shell_backend ::
  "(shell_command \<Rightarrow> string + bool) \<Rightarrow> app_context \<Rightarrow> string \<times> (string \<times> string) list \<Rightarrow> unit result" where
  "run_shell_backend sh ctx launch =
     (case launch of (spec, e) \<Rightarrow>
       and_then (sh (shell_command_for ctx spec e)) (\<lambda>success.
         ensure success (''backend command failed: '' @ spec)))"

definition smash_run ::
  "host \<Rightarrow> launch_crates \<Rightarrow> (shell_command \<Rightarrow> string + bool) \<Rightarrow> app_context \<Rightarrow> smash_args \<Rightarrow> unit result" where
  "smash_run h lc sh ctx args = and_then (smash_launch h lc ctx args) (run_shell_backend sh ctx)"

subsection \<open>The receiver's side of a contract\<close>

text \<open>\<open>serve.rs\<close> has its own copies of the readers; each agrees with the one of \<open>smash.rs\<close>.\<close>

definition serve_required_string_config :: "toml_config \<Rightarrow> string \<Rightarrow> string \<Rightarrow> string result" where
  "serve_required_string_config config key aid =
     (case map_of config key of
        Some (TString v) \<Rightarrow>
          if \<not> blank v then Inr (trim v)
          else Inl (''ingress adapter '' @ quoted aid @ '' key '' @ quoted key @ '' must be a non-empty string'')
      | Some _ \<Rightarrow> Inl (''ingress adapter '' @ quoted aid @ '' key '' @ quoted key @ '' must be a non-empty string'')
      | None \<Rightarrow> Inl (''ingress adapter '' @ quoted aid @ '' missing required key '' @ quoted key))"

definition serve_optional_string_config :: "toml_config \<Rightarrow> string \<Rightarrow> string option" where
  "serve_optional_string_config config key =
     (case map_of config key of
        Some (TString v) \<Rightarrow> if \<not> blank v then Some (trim v) else None
      | _ \<Rightarrow> None)"

fun serve_plugin_items :: "launch_crates \<Rightarrow> string \<Rightarrow> toml list \<Rightarrow> serve_plugin_env list result" where
  "serve_plugin_items lc aid [] = Inr []"
| "serve_plugin_items lc aid (item # items) =
     (case de_serve_plugin lc item of
        Inl err \<Rightarrow> Inl (''ingress adapter '' @ quoted aid @ '' has invalid plugin config: '' @ err)
      | Inr plugin \<Rightarrow> and_then (serve_plugin_items lc aid items) (\<lambda>plugins. Inr (plugin # plugins)))"

definition serve_parse_plugins_from_config :: "launch_crates \<Rightarrow> toml_config \<Rightarrow> string \<Rightarrow> serve_plugin_env list result" where
  "serve_parse_plugins_from_config lc config aid =
     (case map_of config ''plugins'' of
        None \<Rightarrow> Inr []
      | Some (TArray items) \<Rightarrow> serve_plugin_items lc aid items
      | Some _ \<Rightarrow> Inl (''ingress adapter '' @ quoted aid @ '' key '' @ quoted ''plugins'' @ '' must be an array''))"

definition serve_required_usize_config :: "toml_config \<Rightarrow> string \<Rightarrow> string \<Rightarrow> usize result" where
  "serve_required_usize_config config key aid =
     (case map_of config key of
        Some (TInteger v) \<Rightarrow>
          if 0 \<le> sint v then Inr v
          else Inl (''ingress adapter '' @ quoted aid @ '' key '' @ quoted key @ '' must be a non-negative integer'')
      | Some _ \<Rightarrow> Inl (''ingress adapter '' @ quoted aid @ '' key '' @ quoted key @ '' must be a non-negative integer'')
      | None \<Rightarrow> Inl (''ingress adapter '' @ quoted aid @ '' missing required key '' @ quoted key))"

definition serve_value :: "host \<Rightarrow> app_context \<Rightarrow> string option \<Rightarrow> string \<Rightarrow> string option" where
  "serve_value h ctx flag key = resolve_value h ctx flag key"

definition serve_parse_csv_lower :: "string \<Rightarrow> string list" where
  "serve_parse_csv_lower raw =
     map to_ascii_lowercase (filter (\<lambda>v. v \<noteq> []) (map trim (split_on (CHR '','') raw)))"

lemma serve_copies [simp]:
  "serve_required_string_config config key aid = required_string_config ''ingress adapter'' config key aid"
  "serve_optional_string_config config key = optional_string_config config key"
  "serve_parse_plugins_from_config lc config aid = parse_plugins_from_config (de_serve_plugin lc) ''ingress adapter'' config aid"
  "serve_required_usize_config config key aid = required_usize_config ''ingress adapter'' config key aid"
  "serve_value h ctx flag key = resolve_value h ctx flag key"
  "serve_parse_csv_lower raw = parse_csv_lower raw"
proof -
  show "serve_required_string_config config key aid = required_string_config ''ingress adapter'' config key aid"
    by (simp add: serve_required_string_config_def required_string_config_def opt_filter_def blank_def split: option.split toml.split)
  show "serve_optional_string_config config key = optional_string_config config key"
    by (simp add: serve_optional_string_config_def optional_string_config_def opt_filter_def blank_def split: option.split toml.split)
  have "serve_plugin_items lc aid items = collect_results (\<lambda>item. case de_serve_plugin lc item of
      Inl err \<Rightarrow> Inl (''ingress adapter '' @ quoted aid @ '' has invalid plugin config: '' @ err) | Inr plugin \<Rightarrow> Inr plugin) items"
    for items by (induction items) (simp_all split: sum.split)
  then show "serve_parse_plugins_from_config lc config aid =
      parse_plugins_from_config (de_serve_plugin lc) ''ingress adapter'' config aid"
    by (simp add: serve_parse_plugins_from_config_def parse_plugins_from_config_def split: option.split toml.split cong: sum.case_cong)
  show "serve_required_usize_config config key aid = required_usize_config ''ingress adapter'' config key aid"
    by (simp add: serve_required_usize_config_def required_usize_config_def required_u64_config_def split: option.split toml.split)
  show "serve_value h ctx flag key = resolve_value h ctx flag key" by (simp add: serve_value_def)
  show "serve_parse_csv_lower raw = parse_csv_lower raw"
    by (simp add: serve_parse_csv_lower_def parse_csv_lower_def split_trimmed_def)
qed

definition to_serve_adapter_env :: "launch_crates \<Rightarrow> ingress_adapter_def \<Rightarrow> serve_ingress_adapter_env result" where
  "to_serve_adapter_env lc adapter =
     (let config = in_config adapter; aid = in_id adapter;
          text_of = (\<lambda>key. serve_required_string_config config key aid);
          optional = serve_optional_string_config config
      in and_then (serve_parse_plugins_from_config lc config aid) (\<lambda>plugins.
         case in_driver adapter of
           HttpWebhookDriver \<Rightarrow>
             and_then (text_of ''bind'') (\<lambda>bind.
               Inr (HttpWebhookIngress aid bind (unwrap_or ''/webhook/{source}'' (optional ''path_template'')) plugins))
         | WebsocketIngressDriver \<Rightarrow>
             and_then (text_of ''auth_mode'') (\<lambda>auth_mode.
               Inr (WebsocketIngress aid (unwrap_or ''/ingest/ws/{source}'' (optional ''path_template'')) auth_mode
                      (optional ''token_env'') plugins))
         | McpIngestDriver \<Rightarrow>
             (let tool_name = unwrap_or ''serve_ingest_event'' (optional ''tool_name'');
                  path = unwrap_or (''/mcp/tools/'' @ tool_name) (optional ''path'')
              in and_then (text_of ''transport_driver'') (\<lambda>transport_driver.
                 and_then (text_of ''bind'') (\<lambda>bind.
                 and_then (text_of ''auth_mode'') (\<lambda>auth_mode.
                 and_then (serve_required_usize_config config ''max_payload_bytes'' aid) (\<lambda>max_bytes.
                   Inr (McpIngestExposed aid tool_name transport_driver bind auth_mode (optional ''token_env'')
                          max_bytes path plugins))))))
         | KafkaIngressDriver \<Rightarrow>
             and_then (required_string_array_config config ''topics'' aid) (\<lambda>topics.
             and_then (text_of ''group_id'') (\<lambda>group_id.
               Inr (KafkaIngress aid topics group_id (optional ''brokers'') plugins)))
         | UnknownIngress v \<Rightarrow>
             Inl (''active ingress adapter '' @ quoted aid @ '' uses unsupported driver '' @ quoted v)))"

definition to_serve_route_env :: "serve_route_def \<Rightarrow> serve_route_env" where
  "to_serve_route_env route =
     \<lparr>route_id = svr_id route, source_match = svr_source_match route,
      event_type_pattern = svr_event_type_pattern route, target_topic = svr_target_topic route\<rparr>"

fun serve_adapter_id :: "serve_ingress_adapter_env \<Rightarrow> string" where
  "serve_adapter_id (HttpWebhookIngress i _ _ _) = i"
| "serve_adapter_id (WebsocketIngress i _ _ _ _) = i"
| "serve_adapter_id (McpIngestExposed i _ _ _ _ _ _ _ _) = i"
| "serve_adapter_id (KafkaIngress i _ _ _ _) = i"

fun bind_of :: "serve_ingress_adapter_env \<Rightarrow> string option" where
  "bind_of (HttpWebhookIngress _ bind _ _) = Some bind"
| "bind_of (McpIngestExposed _ _ _ bind _ _ _ _ _) = Some bind"
| "bind_of _ = None"

record active_serve_contract =
  av_ingress_adapters :: "serve_ingress_adapter_env list"
  av_ingress_adapter_id :: "string option"
  av_bind :: "string option"
  av_routes :: "serve_route_env list"
  av_enabled_sources :: "string list"

definition literal_source :: "serve_route_env \<Rightarrow> string option" where
  "literal_source route =
     (let source = trim (source_match route)
      in if source = [] \<or> source = ''*'' \<or> contains_sub ''*'' source then None else Some (to_ascii_lowercase source))"

definition resolve_active_serve_contract ::
  "launch_crates \<Rightarrow> app_context \<Rightarrow> app_contract \<Rightarrow> active_serve_contract result" where
  "resolve_active_serve_contract lc ctx contract =
     and_then (contract_for_validation ctx contract) (\<lambda>checked.
     and_then (validate_or_force ''serve'' ctx checked) (\<lambda>validation.
     case validation of
       None \<Rightarrow> Inr \<lparr>av_ingress_adapters = [], av_ingress_adapter_id = None, av_bind = None, av_routes = [],
                     av_enabled_sources = []\<rparr>
     | Some validated \<Rightarrow>
         let active_routes = map to_serve_route_env
               (filter (\<lambda>r. svr_id r \<in> set (vp_serve_route_ids validated)) (serve_route_defs (con_serve contract)))
         in and_then (collect_results (to_serve_adapter_env lc)
                (filter (\<lambda>a. in_id a \<in> set (vp_serve_adapter_ids validated)) (ingress_adapter_defs (con_serve contract))))
              (\<lambda>adapters.
              Inr \<lparr>av_ingress_adapters = adapters,
                   av_ingress_adapter_id = (case adapters of [] \<Rightarrow> None | a # _ \<Rightarrow> Some (serve_adapter_id a)),
                   av_bind = find_map bind_of adapters, av_routes = active_routes,
                   av_enabled_sources = btree_set (List.map_filter literal_source active_routes)\<rparr>)))"

record serve_args =
  va_bind :: "string option"
  va_enabled_sources :: "string option"
  va_brokers :: "string option"
  va_source_topic_prefix :: "string option"
  va_instance_id :: "string option"

definition serve_contract_overrides ::
  "launch_crates \<Rightarrow> active_serve_contract \<Rightarrow> (string \<times> string) list result" where
  "serve_contract_overrides lc active =
     and_then (if av_routes active = [] then Inr []
               else and_then (ser_serve_routes lc (av_routes active)) (\<lambda>t. Inr [(''RELAY_SERVE_ROUTES_JSON'', t)])) (\<lambda>routes.
     and_then (if av_ingress_adapters active = [] then Inr []
               else and_then (ser_ingress_adapters lc (av_ingress_adapters active)) (\<lambda>t.
                      Inr [(''RELAY_INGRESS_ADAPTERS_JSON'', t)])) (\<lambda>adapters.
       Inr (flag_override ''RELAY_BIND'' (av_bind active) @ routes @ adapters
            @ flag_override ''RELAY_INGRESS_ADAPTER_ID'' (av_ingress_adapter_id active)
            @ (if av_enabled_sources active = [] then []
               else [(''RELAY_ENABLED_SOURCES'', join '','' (av_enabled_sources active))]))))"

definition serve_flag_overrides :: "serve_args \<Rightarrow> (string \<times> string) list" where
  "serve_flag_overrides args =
     flag_override ''RELAY_BIND'' (va_bind args) @ flag_override ''RELAY_ENABLED_SOURCES'' (va_enabled_sources args)
     @ flag_override ''KAFKA_BROKERS'' (va_brokers args)
     @ flag_override ''RELAY_SOURCE_TOPIC_PREFIX'' (va_source_topic_prefix args)
     @ flag_override ''HOOK_INSTANCE_ID'' (va_instance_id args) @ flag_override ''KAFKA_CLIENT_ID'' (va_instance_id args)"

definition serve_reasons :: "host \<Rightarrow> app_context \<Rightarrow> serve_args \<Rightarrow> string list" where
  "serve_reasons h ctx args =
     (let sources = unwrap_or ''github,linear'' (serve_value h ctx (va_enabled_sources args) ''RELAY_ENABLED_SOURCES'')
      in (if resolve_serve_backend h ctx = None then [''no serve backend found''] else [])
         @ missing_flag_value h ctx (va_brokers args) ''KAFKA_BROKERS''
         @ (if blank sources then [''missing RELAY_ENABLED_SOURCES''] else [])
         @ concat (map (missing_secret '' for source '' h ctx) (serve_parse_csv_lower sources)))"

definition serve_launch ::
  "host \<Rightarrow> launch_crates \<Rightarrow> app_context \<Rightarrow> serve_args \<Rightarrow> (string \<times> (string \<times> string) list) result" where
  "serve_launch h lc ctx args =
     (let backend = resolve_serve_backend h ctx; reasons = serve_reasons h ctx args
      in if reasons \<noteq> [] \<and> \<not> ga_force (ctx_global ctx)
         then Inl (''serve unavailable: '' @ join ''; '' reasons @ ''. use --force to bypass'')
         else
           and_then (case ctx_contract ctx of
                       None \<Rightarrow> Inr []
                     | Some contract \<Rightarrow>
                         and_then (resolve_active_serve_contract lc ctx contract) (serve_contract_overrides lc))
             (\<lambda>contract_overrides.
           and_then (ok_or ''no serve backend resolved'' backend) (\<lambda>spec.
             Inr (spec, merged_env_for_command h ctx (contract_overrides @ serve_flag_overrides args)))))"

definition serve_run ::
  "host \<Rightarrow> launch_crates \<Rightarrow> (shell_command \<Rightarrow> string + bool) \<Rightarrow> app_context \<Rightarrow> serve_args \<Rightarrow> unit result" where
  "serve_run h lc sh ctx args = and_then (serve_launch h lc ctx args) (run_shell_backend sh ctx)"

text \<open>A command that ends well ran its backend to success.\<close>

lemma serve_run_succeeds:
  "serve_run h lc sh ctx args = Inr () \<longleftrightarrow>
     (\<exists>spec e. serve_launch h lc ctx args = Inr (spec, e) \<and> sh (shell_command_for ctx spec e) = Inr True)"
  by (auto simp: serve_run_def run_shell_backend_def and_then_Inr_iff ensure_Inr_iff)

lemma smash_run_succeeds:
  "smash_run h lc sh ctx args = Inr () \<longleftrightarrow>
     (\<exists>spec e. smash_launch h lc ctx args = Inr (spec, e) \<and> sh (shell_command_for ctx spec e) = Inr True)"
  by (auto simp: smash_run_def run_shell_backend_def and_then_Inr_iff ensure_Inr_iff)

subsection \<open>What the validation of a command guarantees\<close>

text \<open>The profile of the command line is well-formed, whatever the flags.\<close>

definition launch_profile_ok :: "app_context \<Rightarrow> app_contract \<Rightarrow> bool" where
  "launch_profile_ok ctx contract \<longleftrightarrow>
     (\<exists>profile. map_of (con_profiles contract) (ga_profile (ctx_global ctx)) = Some profile \<and> profile_wf contract profile)"

lemma contract_for_validation_errors:
  assumes "contract_for_validation ctx contract = Inr checked"
  shows "con_profiles checked = con_profiles contract" "contract_errors checked profile = contract_errors contract profile"
    "pol_allow_no_output (con_policies checked) = pol_allow_no_output (con_policies contract)"
  using assms by (auto simp: contract_for_validation_def and_then_Inr_iff split: option.splits)

lemma validate_or_force_wf:
  assumes "validate_or_force command ctx checked = Inr v" "contract_for_validation ctx contract = Inr checked"
  shows "launch_profile_ok ctx contract"
    and "v = Some validated \<Longrightarrow> map_of (con_profiles contract) (ga_profile (ctx_global ctx)) = Some profile \<Longrightarrow>
      vp_smash_adapter_ids validated = prof_smash_adapters profile \<and> vp_smash_route_ids validated = prof_smash_routes profile \<and>
      vp_serve_adapter_ids validated = prof_serve_adapters profile \<and> vp_serve_route_ids validated = prof_serve_routes profile"
proof -
  note errs = contract_for_validation_errors [OF assms(2)]
  let ?name = "ga_profile (ctx_global ctx)"
  show "launch_profile_ok ctx contract"
  proof (cases "map_of (con_profiles contract) ?name")
    case None
    with assms(1) errs(1) show ?thesis
      by (simp add: validate_or_force_def validate_contract_def critical_def)
  next
    case (Some profile)
    have "contract_errors contract profile = []"
    proof (rule ccontr)
      assume ne: "contract_errors contract profile \<noteq> []"
      then obtain e where e: "e \<in> set (contract_errors contract profile)" "security_critical e"
        using contract_errors_critical [of contract profile] by (cases "contract_errors contract profile") (auto simp: all_critical_def)
      with ne Some assms(1) errs show False
        by (auto simp: validate_or_force_def validate_contract_def Let_def split: prod.splits if_splits)
    qed
    with Some show ?thesis by (simp add: launch_profile_ok_def contract_errors_Nil_iff)
  qed
  show "vp_smash_adapter_ids validated = prof_smash_adapters profile \<and> vp_smash_route_ids validated = prof_smash_routes profile \<and>
      vp_serve_adapter_ids validated = prof_serve_adapters profile \<and> vp_serve_route_ids validated = prof_serve_routes profile"
    if "v = Some validated" "map_of (con_profiles contract) ?name = Some profile"
    using assms(1) that errs(1)
    by (auto simp: validate_or_force_def validate_contract_def Let_def split: sum.splits option.splits prod.splits if_splits)
qed

text \<open>A resolved consumer contract is empty, or it comes from the adapters and routes of the profile.\<close>

lemma resolve_smash_cases:
  assumes "resolve_active_smash_contract lc ctx contract = Inr active"
  obtains (forced) "as_adapters active = []" "as_routes active = []" "as_transports active = []"
  | (validated) profile adapters routes transports where
      "map_of (con_profiles contract) (ga_profile (ctx_global ctx)) = Some profile" "profile_wf contract profile"
      "collect_results (to_smash_adapter_env lc)
         (filter (\<lambda>a. out_id a \<in> set (prof_smash_adapters profile)) (egress_adapter_defs (con_smash contract))) = Inr adapters"
      "collect_results to_smash_route_env (active_smash_routes contract profile) = Inr routes"
      "adapter_transports contract adapters = Inr transports"
      "as_adapters active = adapters" "as_routes active = routes" "as_transports active = transports"
      "as_kafka_topics active = btree_set (map source_topic_pattern routes)"
proof -
  obtain checked v where c: "contract_for_validation ctx contract = Inr checked"
    and v: "validate_or_force ''smash'' ctx checked = Inr v"
    using assms by (auto simp: resolve_active_smash_contract_def and_then_Inr_iff)
  note wf = validate_or_force_wf [OF v c]
  show ?thesis
  proof (cases v)
    case None
    with assms c v show ?thesis
      by (intro forced) (auto simp: resolve_active_smash_contract_def Let_def)
  next
    case (Some validated)
    obtain profile where p: "map_of (con_profiles contract) (ga_profile (ctx_global ctx)) = Some profile" "profile_wf contract profile"
      using wf(1) by (auto simp: launch_profile_ok_def)
    with wf(2) [OF Some] assms c v Some show ?thesis
      by (auto simp: resolve_active_smash_contract_def Let_def and_then_Inr_iff active_smash_routes_def intro!: validated)
  qed
qed

lemma to_smash_adapter_env_id: "to_smash_adapter_env lc a = Inr b \<Longrightarrow> adapter_id b = out_id a"
  by (cases "out_driver a") (auto simp: to_smash_adapter_env_def Let_def and_then_Inr_iff split: prod.splits)

lemma to_smash_transport_env_name: "to_smash_transport_env n t = Inr b \<Longrightarrow> transport_name b = n"
  by (auto simp: to_smash_transport_env_def Let_def and_then_Inr_iff split: transport_driver.splits)

lemma adapter_transports_cover:
  "adapter_transports contract as = Inr ts \<Longrightarrow> McpToolOutput i tool ref ps \<in> set as \<Longrightarrow> \<exists>t \<in> set ts. transport_name t = ref"
  by (induction contract as arbitrary: ts rule: adapter_transports.induct)
     (auto simp: and_then_Inr_iff to_smash_transport_env_name split: option.splits)

lemma to_smash_route_env_ok:
  "to_smash_route_env r = Inr s \<Longrightarrow> source_topic_pattern s = trim (smr_source_topic_pattern r) \<and> source_topic_pattern s \<noteq> [] \<and>
     CHR ''*'' \<notin> set (source_topic_pattern s) \<and> dest_adapter_id ` set (destinations s) = dst_adapter_id ` set (smr_destinations r)"
  by (auto simp: to_smash_route_env_def Let_def contains_star image_image split: if_splits)

lemma collect_results_member:
  "collect_results f xs = Inr ys \<Longrightarrow> y \<in> set ys \<Longrightarrow> \<exists>x \<in> set xs. f x = Inr y"
  by (induction xs arbitrary: ys) (auto simp: and_then_Inr_iff)

lemma collect_results_image:
  "collect_results f xs = Inr ys \<Longrightarrow> x \<in> set xs \<Longrightarrow> \<exists>y \<in> set ys. f x = Inr y"
  by (induction xs arbitrary: ys) (auto simp: and_then_Inr_iff)

text \<open>With distinct ids every emitted adapter is one the validator looked at.\<close>

lemma index_egress_distinct:
  assumes "distinct (map out_id as)" "a \<in> set as"
  shows "index_egress_adapters as (out_id a) = Some a"
proof -
  have "map_of (rev (map (\<lambda>a. (out_id a, a)) as)) = map_of (map (\<lambda>a. (out_id a, a)) as)"
    by (rule map_of_rev_distinct) (simp add: assms comp_def)
  then show ?thesis
    using assms by (auto simp: index_egress_adapters_def map_of_btree_collect comp_def intro!: map_of_is_SomeI)
qed

lemma index_ingress_distinct:
  assumes "distinct (map in_id as)" "a \<in> set as"
  shows "index_ingress_adapters as (in_id a) = Some a"
proof -
  have "map_of (rev (map (\<lambda>a. (in_id a, a)) as)) = map_of (map (\<lambda>a. (in_id a, a)) as)"
    by (rule map_of_rev_distinct) (simp add: assms comp_def)
  then show ?thesis
    using assms by (auto simp: index_ingress_adapters_def map_of_btree_collect comp_def intro!: map_of_is_SomeI)
qed

lemma schema_no_key: "schema_ok config schema \<Longrightarrow> k \<notin> set (fst schema) \<union> set (snd schema) \<Longrightarrow> map_of config k = None"
  by (auto simp: schema_ok_def map_of_eq_None_iff)

lemma no_token_env:
  assumes "schema_ok config schema" "''token_env'' \<notin> set (fst schema) \<union> set (snd schema)"
  shows "optional_string_config config ''token_env'' = None"
  using schema_no_key [OF assms] by (simp add: optional_string_config_def)

definition adapter_token_env :: "smash_adapter \<Rightarrow> string option" where
  "adapter_token_env a = (case a of
     WebsocketClientOutput _ _ _ token_env _ _ _ _ \<Rightarrow> token_env
   | WebsocketServerOutput _ _ _ _ token_env _ _ _ _ \<Rightarrow> token_env | _ \<Rightarrow> None)"

lemma websocket_output_no_token:
  assumes "to_smash_adapter_env lc a = Inr b" "schema_ok (out_config a) (egress_schema (out_driver a))"
  shows "adapter_token_env b = None"
proof -
  have "optional_string_config (out_config a) ''token_env'' = None"
    if "out_driver a = WebsocketClientDriver \<or> out_driver a = WebsocketServerDriver"
    using that assms(2) by (intro no_token_env) auto
  with assms(1) show ?thesis
    by (cases "out_driver a")
       (auto simp: to_smash_adapter_env_def adapter_token_env_def Let_def and_then_Inr_iff split: prod.splits)
qed

lemma transport_no_token:
  assumes "to_smash_transport_env n t = Inr (HttpSse m url auth token_env)" "transport_ok t"
  shows "token_env = None"
proof -
  have "optional_string_config (tr_config t) ''token_env'' = None" if "tr_driver t = HttpSseDriver"
    using that assms(2) by (intro no_token_env [of _ "transport_schema HttpSseDriver"]) (auto simp: transport_ok_def)
  with assms(1) show ?thesis
    by (auto simp: to_smash_transport_env_def Let_def and_then_Inr_iff split: transport_driver.splits)
qed

lemma websocket_ingress_no_token:
  assumes "to_serve_adapter_env lc a = Inr (WebsocketIngress i path auth token_env ps)" "ingress_ok a"
  shows "token_env = None"
proof -
  have "optional_string_config (in_config a) ''token_env'' = None" if "in_driver a = WebsocketIngressDriver"
    using that assms(2) by (intro no_token_env [of _ "ingress_schema WebsocketIngressDriver"]) (auto simp: ingress_ok_def)
  with assms(1) show ?thesis
    by (cases "in_driver a") (auto simp: to_serve_adapter_env_def Let_def and_then_Inr_iff)
qed

text \<open>The emitted adapters are among those the validator checks, when no id is used twice.\<close>

lemma emitted_egress_ok:
  assumes "profile_wf contract profile" "distinct (map out_id (egress_adapter_defs (con_smash contract)))"
    and "a \<in> set (egress_adapter_defs (con_smash contract))" "out_id a \<in> set (prof_smash_adapters profile)"
  shows "egress_ok contract a"
proof -
  have "a \<in> set (active_egress_adapters contract profile)"
    using assms index_egress_distinct by (auto simp: active_egress_adapters_def set_map_filter)
  with assms(1) show ?thesis by (simp add: profile_wf_def)
qed

lemma emitted_ingress_ok:
  assumes "profile_wf contract profile" "distinct (map in_id (ingress_adapter_defs (con_serve contract)))"
    and "a \<in> set (ingress_adapter_defs (con_serve contract))" "in_id a \<in> set (prof_serve_adapters profile)"
  shows "ingress_ok a"
proof -
  have "a \<in> set (active_ingress_adapters contract profile)"
    using assms index_ingress_distinct by (auto simp: active_ingress_adapters_def set_map_filter)
  with assms(1) show ?thesis by (simp add: profile_wf_def)
qed

lemma resolve_serve_member:
  assumes "resolve_active_serve_contract lc ctx contract = Inr active" "b \<in> set (av_ingress_adapters active)"
  obtains profile a where "profile_wf contract profile" "a \<in> set (ingress_adapter_defs (con_serve contract))"
    "in_id a \<in> set (prof_serve_adapters profile)" "to_serve_adapter_env lc a = Inr b"
proof -
  obtain checked v where c: "contract_for_validation ctx contract = Inr checked"
    and v: "validate_or_force ''serve'' ctx checked = Inr v"
    using assms(1) by (auto simp: resolve_active_serve_contract_def and_then_Inr_iff)
  note wf = validate_or_force_wf [OF v c]
  obtain profile where p: "map_of (con_profiles contract) (ga_profile (ctx_global ctx)) = Some profile" "profile_wf contract profile"
    using wf(1) by (auto simp: launch_profile_ok_def)
  obtain validated where validated: "v = Some validated"
    using assms c v by (cases v) (auto simp: resolve_active_serve_contract_def)
  have "collect_results (to_serve_adapter_env lc) (filter (\<lambda>a. in_id a \<in> set (prof_serve_adapters profile))
      (ingress_adapter_defs (con_serve contract))) = Inr (av_ingress_adapters active)"
    using assms(1) c v validated wf(2) [OF validated p(1)]
    by (auto simp: resolve_active_serve_contract_def Let_def and_then_Inr_iff)
  from collect_results_member [OF this assms(2)] p(2) that show ?thesis by auto
qed

subsection \<open>The consumer started by the tool\<close>

lemma json_list_env_empty: "e name = Some t \<Longrightarrow> de t = Some [] \<Longrightarrow> json_list_env de e name = Inr []"
  by (simp add: json_list_env_def)

lemma legacy_route_takes_topic:
  assumes "t \<noteq> []" "trimmed t"
  shows "smash_wildcard_matches (source_topic_pattern (legacy_route t)) t" "event_filters (legacy_route t) = []"
    "destinations (legacy_route t) = [\<lparr>dest_adapter_id = ''openclaw-output'', dest_required = True\<rparr>]"
  using assms glob_self [of t] by (simp_all add: smash_wildcard_matches_glob legacy_route_def trimmed_def)

lemma derive_default_topics:
  "derive_topics_from_routes (map legacy_route [''webhooks.github'', ''webhooks.linear'']) = Inr [''webhooks.github'', ''webhooks.linear'']"
  "trimmed ''webhooks.github''" "trimmed ''webhooks.linear''"
  by code_simp (simp_all add: trimmed_def, code_simp+)

lemma smash_from_env_legacy:
  assumes "smash_from_env sc e = Inr c" "parse_routes_json_env sc e = Inr []" "parse_adapters_json_env sc e = Inr []"
  shows "\<exists>url timeout retries. smash_adapters c =
       [OpenclawHttpOutput ''openclaw-output'' url ''OPENCLAW_WEBHOOK_TOKEN'' timeout retries []]"
    "smash_routes c = map legacy_route (sc_kafka_topics c)" "sc_kafka_topics c \<noteq> []"
    "\<forall>t \<in> set (sc_kafka_topics c). t \<noteq> [] \<and> trimmed t"
proof -
  define topics_env where "topics_env = opt_filter (\<lambda>topics. topics \<noteq> []) (map_option parse_csv_topics (e ''KAFKA_TOPICS''))"
  obtain ts plan topics no_output sink where
    p: "read_smash_plan e topics_env [] [] ts = Inr plan" and r: "read_smash_config e topics plan no_output sink = Inr c"
    and t: "(case topics_env of Some topics \<Rightarrow> Inr topics | None \<Rightarrow> derive_topics_from_routes (fst plan)) = Inr topics"
    "topics \<noteq> []"
    using assms unfolding topics_env_def by (auto simp: smash_from_env_def Let_def and_then_Inr_iff split: if_splits)
  from p obtain url timeout retries where plan: "plan =
      (map legacy_route (unwrap_or [''webhooks.github'', ''webhooks.linear''] topics_env),
       [OpenclawHttpOutput ''openclaw-output'' url ''OPENCLAW_WEBHOOK_TOKEN'' timeout retries []], [], True)"
    by (auto simp: read_smash_plan_def and_then_Inr_iff)
  from r plan have c: "smash_adapters c = [OpenclawHttpOutput ''openclaw-output'' url ''OPENCLAW_WEBHOOK_TOKEN'' timeout retries []]"
    "smash_routes c = map legacy_route (unwrap_or [''webhooks.github'', ''webhooks.linear''] topics_env)" "sc_kafka_topics c = topics"
    by (auto simp: read_smash_config_def and_then_Inr_iff)
  then show "\<exists>url timeout retries. smash_adapters c =
       [OpenclawHttpOutput ''openclaw-output'' url ''OPENCLAW_WEBHOOK_TOKEN'' timeout retries []]" by blast
  have same: "topics = unwrap_or [''webhooks.github'', ''webhooks.linear''] topics_env"
    using t(1) plan derive_default_topics(1) by (cases topics_env) simp_all
  with c show "smash_routes c = map legacy_route (sc_kafka_topics c)" by simp
  from c t(2) show "sc_kafka_topics c \<noteq> []" by simp
  have "t \<noteq> [] \<and> trimmed t" if "t \<in> set topics" for t
  proof (cases topics_env)
    case None
    with same that derive_default_topics(2,3) show ?thesis by auto
  next
    case (Some xs)
    with same that have "t \<in> set xs" by simp
    with Some show ?thesis
      by (auto simp: topics_env_def opt_filter_Some_iff parse_csv_topics_def split_trimmed_def)
  qed
  with c show "\<forall>t \<in> set (sc_kafka_topics c). t \<noteq> [] \<and> trimmed t" by simp
qed

lemma flag_override_key: "k \<noteq> key \<Longrightarrow> k \<notin> fst ` set (flag_override key flag)"
  by (cases flag) (simp_all add: flag_override_def)

lemma flag_overrides_no_json:
  "map_of (rev (smash_flag_overrides args)) ''HOOK_SMASH_ADAPTERS_JSON'' = None"
  "map_of (rev (smash_flag_overrides args)) ''HOOK_SMASH_ROUTES_JSON'' = None"
  by (simp_all add: map_of_eq_None_iff smash_flag_overrides_def image_Un flag_override_key)

lemma map_of_rev_append: "map_of (rev b) k = None \<Longrightarrow> map_of (rev (a @ b)) k = map_of (rev a) k"
  by (simp add: map_add_def)

lemma smash_overrides_json:
  assumes "smash_contract_overrides lc active = Inr ov"
    and "ser_smash_adapters lc (as_adapters active) = Inr ta" "ser_smash_routes lc (as_routes active) = Inr tr"
  shows "map_of (rev ov) ''HOOK_SMASH_ADAPTERS_JSON'' = Some ta" "map_of (rev ov) ''HOOK_SMASH_ROUTES_JSON'' = Some tr"
  using assms by (auto simp: smash_contract_overrides_def and_then_Inr_iff split: option.splits)

lemma json_keys_not_reserved:
  "\<not> reserved_key ''HOOK_SMASH_ADAPTERS_JSON''" "\<not> reserved_key ''HOOK_SMASH_ROUTES_JSON''"
  by (simp_all add: reserved_key_def)

lemma smash_launch_json:
  assumes "smash_launch h lc ctx args = Inr (spec, vars)" "ctx_contract ctx = Some contract"
    and "resolve_active_smash_contract lc ctx contract = Inr active" "as_adapters active \<noteq> [] \<or> as_allow_no_output active"
    and "ser_smash_adapters lc (as_adapters active) = Inr ta" "ser_smash_routes lc (as_routes active) = Inr tr"
  shows "map_of vars ''HOOK_SMASH_ADAPTERS_JSON'' = Some ta" "map_of vars ''HOOK_SMASH_ROUTES_JSON'' = Some tr"
proof -
  obtain ov where ov: "smash_contract_overrides lc active = Inr ov"
    and vars: "vars = merged_env_for_command h ctx (ov @ smash_flag_overrides args)"
    using assms(1-4) by (auto simp: smash_launch_def smash_contract_part_def Let_def and_then_Inr_iff split: if_splits)
  have over: "map_of (rev (ov @ smash_flag_overrides args)) ''HOOK_SMASH_ADAPTERS_JSON'' = Some ta"
    "map_of (rev (ov @ smash_flag_overrides args)) ''HOOK_SMASH_ROUTES_JSON'' = Some tr"
    by (simp_all only: map_of_rev_append flag_overrides_no_json smash_overrides_json [OF ov assms(5,6)])
  show "map_of vars ''HOOK_SMASH_ADAPTERS_JSON'' = Some ta" "map_of vars ''HOOK_SMASH_ROUTES_JSON'' = Some tr"
    unfolding vars by (rule merged_env_override [OF over(1) json_keys_not_reserved(1)],
      rule merged_env_override [OF over(2) json_keys_not_reserved(2)])
qed

subsection \<open>Contexts for the witnesses\<close>

definition demo_launch_crates :: launch_crates where
  "demo_launch_crates =
     \<lparr>de_smash_plugin = \<lambda>_. Inl ''unknown variant'', de_serve_plugin = \<lambda>_. Inl ''unknown variant'',
      ser_smash_adapters = \<lambda>_. Inr ''[]'', ser_smash_routes = \<lambda>_. Inr ''[]'', ser_smash_transports = \<lambda>_. Inr ''[]'',
      ser_serve_routes = \<lambda>_. Inr ''[]'', ser_ingress_adapters = \<lambda>_. Inr ''[]''\<rparr>"

definition no_serve_args :: serve_args where
  "no_serve_args = \<lparr>va_bind = None, va_enabled_sources = None, va_brokers = None, va_source_topic_prefix = None,
     va_instance_id = None\<rparr>"

definition no_smash_args :: smash_args where
  "no_smash_args = \<lparr>sa_topics = None, sa_webhook_url = None, sa_webhook_token = None, sa_group_id = None,
     sa_brokers = None, sa_instance_id = None\<rparr>"

text \<open>A contract for a profile that consumes nothing, with the policy for it.\<close>

definition silent_contract :: app_contract where
  "silent_contract = embedded_default_contract
     \<lparr>con_policies := \<lparr>pol_allow_no_output = True, pol_no_output_sink = Some Discard, pol_validation_mode = Strict\<rparr>,
      con_profiles := [(''default-openclaw'',
        \<lparr>prof_label = ''Silent'', prof_serve_adapters = [], prof_smash_adapters = [], prof_serve_routes = [],
         prof_smash_routes = [], prof_env = []\<rparr>)]\<rparr>"

definition silent_context :: app_context where
  "silent_context = demo_context\<lparr>ctx_contract := Some silent_contract\<rparr>"

definition silent_host :: host where
  "silent_host = demo_host\<lparr>host_vars := [(''KAFKA_BROKERS'', ''b:9092''), (''OPENCLAW_WEBHOOK_URL'', ''http://openclaw/hook'')],
     host_which := \<lambda>program. program = ''kafka-openclaw-hook''\<rparr>"

definition silent_crates :: smash_crates where
  "silent_crates = \<lparr>de_smash_routes = \<lambda>_. Some [], de_smash_adapters = \<lambda>_. Some [], de_smash_transports = \<lambda>_. Some []\<rparr>"

definition silent_active :: active_smash_contract where
  "silent_active = \<lparr>as_adapters = [], as_routes = [], as_transports = [], as_kafka_topics = [],
     as_allow_no_output = True, as_no_output_sink = Some ''discard''\<rparr>"

definition silent_vars :: "(string \<times> string) list" where
  "silent_vars = snd (projr (smash_launch silent_host demo_launch_crates silent_context no_smash_args))"

definition silent_config :: smash_config where
  "silent_config = projr (smash_from_env silent_crates (map_of silent_vars))"

lemma projr_eq: "\<not> isl r \<Longrightarrow> r = Inr (projr r)"
  by (cases r) auto

lemma silent_resolved:
  "resolve_active_smash_contract demo_launch_crates silent_context silent_contract = Inr silent_active"
  by code_simp

lemma silent_launched:
  "smash_launch silent_host demo_launch_crates silent_context no_smash_args = Inr (''kafka-openclaw-hook'', silent_vars)"
proof -
  have "\<not> isl (smash_launch silent_host demo_launch_crates silent_context no_smash_args)"
    "fst (projr (smash_launch silent_host demo_launch_crates silent_context no_smash_args)) = ''kafka-openclaw-hook''"
    by code_simp+
  then show ?thesis by (metis projr_eq silent_vars_def prod.collapse)
qed

lemma silent_loaded: "smash_from_env silent_crates (map_of silent_vars) = Inr silent_config"
proof -
  have "\<not> isl (smash_from_env silent_crates (map_of silent_vars))" by code_simp
  then show ?thesis unfolding silent_config_def by (rule projr_eq)
qed

subsection \<open>Properties\<close>

text \<open>C25. No flag starts a program on a bad profile: when the tool starts the receiver or the consumer
  with a contract, the selected profile is well-formed, in debug mode and with \<open>--force\<close> too.\<close>

theorem launch_needs_valid_profile:
  assumes "ctx_contract ctx = Some contract"
    and "serve_launch h lc ctx vargs = Inr started \<or> smash_launch h lc ctx sargs = Inr started"
  shows "launch_profile_ok ctx contract"
proof -
  from assms obtain command checked v where
    "contract_for_validation ctx contract = Inr checked" "validate_or_force command ctx checked = Inr v"
    by (auto simp: serve_launch_def smash_launch_def smash_contract_part_def resolve_active_serve_contract_def
        resolve_active_smash_contract_def Let_def and_then_Inr_iff split: if_splits prod.splits)
  then show ?thesis using validate_or_force_wf(1) by blast
qed

theorem launch_needs_valid_profile_witness: "launch_profile_ok silent_context silent_contract"
  by (rule launch_needs_valid_profile [OF _ disjI2 [OF silent_launched]])
     (simp add: silent_context_def)

text \<open>C24. What the tool hands to the consumer is closed: every destination of every emitted route is
  an emitted adapter, every MCP output names an emitted transport, and the emitted topics are
  exactly the patterns of the routes, none of which has a star.\<close>

theorem active_smash_contract_closed:
  assumes "resolve_active_smash_contract lc ctx contract = Inr active" "as_adapters active \<noteq> []"
  shows "(\<forall>r \<in> set (as_routes active). \<forall>d \<in> set (destinations r).
            dest_adapter_id d \<in> adapter_id ` set (as_adapters active))
     \<and> (\<forall>i tool ref ps. McpToolOutput i tool ref ps \<in> set (as_adapters active) \<longrightarrow>
            ref \<in> transport_name ` set (as_transports active))
     \<and> set (as_kafka_topics active) = source_topic_pattern ` set (as_routes active)
     \<and> (\<forall>t \<in> set (as_kafka_topics active). t \<noteq> [] \<and> trimmed t \<and> CHR ''*'' \<notin> set t)"
  using assms(1)
proof (cases rule: resolve_smash_cases)
  case (validated profile adapters routes transports)
  have dest: "dest_adapter_id d \<in> adapter_id ` set adapters" if s: "s \<in> set routes" "d \<in> set (destinations s)" for s d
  proof -
    obtain r where r: "r \<in> set (active_smash_routes contract profile)" "to_smash_route_env r = Inr s"
      using collect_results_member [OF validated(4) s(1)] by blast
    have "dest_adapter_id d \<in> dst_adapter_id ` set (smr_destinations r)"
      using to_smash_route_env_ok [OF r(2)] s(2) by blast
    with r(1) validated(2) have "dest_adapter_id d \<in> set (prof_smash_adapters profile)"
      "dest_adapter_id d \<in> out_id ` set (egress_adapter_defs (con_smash contract))"
      by (auto simp: profile_wf_def subset_iff)
    then obtain a where "a \<in> set (filter (\<lambda>a. out_id a \<in> set (prof_smash_adapters profile)) (egress_adapter_defs (con_smash contract)))"
      "out_id a = dest_adapter_id d" by auto
    then show ?thesis
      using collect_results_image [OF validated(3)] to_smash_adapter_env_id by (metis image_eqI)
  qed
  have topic: "t \<noteq> [] \<and> trimmed t \<and> CHR ''*'' \<notin> set t" if "s \<in> set routes" "t = source_topic_pattern s" for s t
    using collect_results_member [OF validated(4) that(1)] to_smash_route_env_ok that(2) by fastforce
  show ?thesis
    using dest topic validated adapter_transports_cover [OF validated(5)] by (auto simp: image_iff) metis
qed (use assms(2) in auto)

definition demo_active :: active_smash_contract where
  "demo_active = projr (resolve_active_smash_contract demo_launch_crates demo_context embedded_default_contract)"

lemma demo_active_resolved:
  "resolve_active_smash_contract demo_launch_crates demo_context embedded_default_contract = Inr demo_active"
proof -
  have "\<not> isl (resolve_active_smash_contract demo_launch_crates demo_context embedded_default_contract)" by code_simp
  then show ?thesis unfolding demo_active_def by (rule projr_eq)
qed

theorem active_smash_contract_closed_witness:
  "set (as_kafka_topics demo_active) = source_topic_pattern ` set (as_routes demo_active)"
proof -
  have "as_adapters demo_active \<noteq> []" by code_simp
  from active_smash_contract_closed [OF demo_active_resolved this] show ?thesis by blast
qed

text \<open>A contract cannot configure an authenticated websocket: as long as no adapter id is used
  twice, every websocket output and every websocket ingress the tool emits has no
  \<open>token_env\<close>, because the validator refuses the key; with \<open>auth_mode\<close> \<open>bearer\<close> or \<open>hmac\<close>
  the consumer then refuses the output, and the receiver the ingress.\<close>

theorem contract_websockets_have_no_token:
  assumes "distinct (map out_id (egress_adapter_defs (con_smash contract)))"
    and "distinct (map in_id (ingress_adapter_defs (con_serve contract)))"
    and "resolve_active_smash_contract lc ctx contract = Inr sactive" "b \<in> set (as_adapters sactive)"
    and "resolve_active_serve_contract lc ctx contract = Inr vactive"
  shows "adapter_token_env b = None
     \<and> (\<forall>i path auth token_env ps. WebsocketIngress i path auth token_env ps \<in> set (av_ingress_adapters vactive) \<longrightarrow>
          token_env = None)"
proof
  from assms(3) show "adapter_token_env b = None"
  proof (cases rule: resolve_smash_cases)
    case (validated profile adapters routes transports)
    then obtain a where a: "a \<in> set (egress_adapter_defs (con_smash contract))" "out_id a \<in> set (prof_smash_adapters profile)"
        "to_smash_adapter_env lc a = Inr b"
      using collect_results_member [OF validated(3)] assms(4) by auto
    then have "egress_ok contract a" using emitted_egress_ok validated(2) assms(1) by blast
    then show ?thesis using websocket_output_no_token a(3) by (auto simp: egress_ok_def)
  qed (use assms(4) in auto)
  show "\<forall>i path auth token_env ps. WebsocketIngress i path auth token_env ps \<in> set (av_ingress_adapters vactive) \<longrightarrow>
      token_env = None"
    using resolve_serve_member [OF assms(5)] emitted_ingress_ok [OF _ assms(2)] websocket_ingress_no_token by metis
qed

theorem contract_websockets_have_no_token_witness:
  "\<forall>b \<in> set (as_adapters demo_active). adapter_token_env b = None"
proof
  fix b assume b: "b \<in> set (as_adapters demo_active)"
  have d: "distinct (map out_id (egress_adapter_defs (con_smash embedded_default_contract)))"
    "distinct (map in_id (ingress_adapter_defs (con_serve embedded_default_contract)))" by code_simp+
  have "\<not> isl (resolve_active_serve_contract demo_launch_crates demo_context embedded_default_contract)" by code_simp
  from contract_websockets_have_no_token [OF d demo_active_resolved b projr_eq [OF this]]
  show "adapter_token_env b = None" ..
qed

text \<open>C40. A contract without outputs does not run without outputs: when the tool starts the consumer for a
  profile that emits no adapter and no route under \<open>allow_no_output\<close>, and the JSON lists it writes read
  back as they were, then a consumer that comes up has the legacy OpenClaw output; it subscribes to at
  least one topic, and for each of its topics it has a route that takes every event of it to that output,
  as a required destination; no route goes anywhere else.\<close>

theorem zero_output_contract_runs_legacy:
  assumes "smash_launch h lc ctx args = Inr (spec, vars)" "ctx_contract ctx = Some contract"
    and "resolve_active_smash_contract lc ctx contract = Inr active"
    and "as_adapters active = []" "as_routes active = []" "as_allow_no_output active"
    and "ser_smash_adapters lc [] = Inr ta" "de_smash_adapters sc ta = Some []"
    and "ser_smash_routes lc [] = Inr tr" "de_smash_routes sc tr = Some []"
    and "smash_from_env sc (map_of vars) = Inr c"
  shows "(\<exists>url timeout retries. smash_adapters c =
       [OpenclawHttpOutput ''openclaw-output'' url ''OPENCLAW_WEBHOOK_TOKEN'' timeout retries []])
     \<and> sc_kafka_topics c \<noteq> []
     \<and> (\<forall>t \<in> set (sc_kafka_topics c). \<exists>r \<in> set (smash_routes c).
          smash_wildcard_matches (source_topic_pattern r) t \<and> event_filters r = []
          \<and> destinations r = [\<lparr>dest_adapter_id = ''openclaw-output'', dest_required = True\<rparr>])
     \<and> (\<forall>r \<in> set (smash_routes c). destinations r = [\<lparr>dest_adapter_id = ''openclaw-output'', dest_required = True\<rparr>])"
proof -
  note json = smash_launch_json [OF assms(1-3) _ _ _, of ta tr]
  have empty: "parse_routes_json_env sc (map_of vars) = Inr []" "parse_adapters_json_env sc (map_of vars) = Inr []"
    using json assms(4-10) by (auto simp: parse_routes_json_env_def parse_adapters_json_env_def json_list_env_empty)
  note legacy = smash_from_env_legacy [OF assms(11) empty]
  have "\<exists>r \<in> set (smash_routes c). smash_wildcard_matches (source_topic_pattern r) t \<and> event_filters r = []
      \<and> destinations r = [\<lparr>dest_adapter_id = ''openclaw-output'', dest_required = True\<rparr>]" if "t \<in> set (sc_kafka_topics c)" for t
    using that legacy(2,4) legacy_route_takes_topic [of t] by (intro bexI [of _ "legacy_route t"]) auto
  moreover have "destinations r = [\<lparr>dest_adapter_id = ''openclaw-output'', dest_required = True\<rparr>]" if "r \<in> set (smash_routes c)" for r
    using that legacy(2,4) legacy_route_takes_topic(3) by auto
  ultimately show ?thesis using legacy(1,3) by blast
qed

theorem zero_output_contract_runs_legacy_witness:
  "\<exists>r. r \<in> set (smash_routes silent_config)
     \<and> destinations r = [\<lparr>dest_adapter_id = ''openclaw-output'', dest_required = True\<rparr>]"
proof -
  have "(\<exists>url timeout retries. smash_adapters silent_config =
       [OpenclawHttpOutput ''openclaw-output'' url ''OPENCLAW_WEBHOOK_TOKEN'' timeout retries []])
     \<and> sc_kafka_topics silent_config \<noteq> []
     \<and> (\<forall>t \<in> set (sc_kafka_topics silent_config). \<exists>r \<in> set (smash_routes silent_config).
          smash_wildcard_matches (source_topic_pattern r) t \<and> event_filters r = []
          \<and> destinations r = [\<lparr>dest_adapter_id = ''openclaw-output'', dest_required = True\<rparr>])
     \<and> (\<forall>r \<in> set (smash_routes silent_config). destinations r = [\<lparr>dest_adapter_id = ''openclaw-output'', dest_required = True\<rparr>])"
    by (rule zero_output_contract_runs_legacy [OF silent_launched _ silent_resolved _ _ _ _ _ _ _ silent_loaded])
       (simp_all add: silent_context_def silent_active_def demo_launch_crates_def silent_crates_def)
  then obtain t r where "t \<in> set (sc_kafka_topics silent_config)" "r \<in> set (smash_routes silent_config)"
    "destinations r = [\<lparr>dest_adapter_id = ''openclaw-output'', dest_required = True\<rparr>]"
    by (metis list.set_intros(1) neq_Nil_conv)
  then show ?thesis by blast
qed

end
