(* ===== verification/Receiver_Launch.thy ===== *)
theory Receiver_Launch
  imports Serve_Machine Launch
begin

section \<open>From the contract to the running receiver\<close>

text \<open>
  The tool and the receiver together: what \<open>commands/serve.rs\<close> puts into the environment, read back by
  \<open>Config::from_env\<close> of \<open>src/config.rs\<close>.
\<close>

text \<open>The receiver trims the text before it reads it: what \<open>serde\<close> writes has no surrounding white space.\<close>

definition json_survives_trim :: "('a list \<Rightarrow> string result) \<Rightarrow> (string \<Rightarrow> 'a list option) \<Rightarrow> 'a list \<Rightarrow> bool" where
  "json_survives_trim ser de xs = (case ser xs of Inl _ \<Rightarrow> False | Inr t \<Rightarrow> \<not> blank t \<and> de (trim t) = Some xs)"

lemma json_survives_trim_iff:
  "json_survives_trim ser de xs \<longleftrightarrow> (\<exists>t. ser xs = Inr t \<and> \<not> blank t \<and> de (trim t) = Some xs)"
  by (auto simp: json_survives_trim_def split: sum.splits)

lemma serve_flag_overrides_none:
  "map_of (rev (serve_flag_overrides args)) ''RELAY_SERVE_ROUTES_JSON'' = None"
  "map_of (rev (serve_flag_overrides args)) ''RELAY_INGRESS_ADAPTERS_JSON'' = None"
  "va_enabled_sources args = None \<Longrightarrow> map_of (rev (serve_flag_overrides args)) ''RELAY_ENABLED_SOURCES'' = None"
  "va_bind args = None \<Longrightarrow> map_of (rev (serve_flag_overrides args)) ''RELAY_BIND'' = None"
  by (simp_all add: map_of_eq_None_iff serve_flag_overrides_def image_Un flag_override_key)
     (simp_all add: flag_override_def)

lemma serve_overrides_lookup:
  assumes "serve_contract_overrides lc active = Inr ov"
  shows "av_routes active \<noteq> [] \<Longrightarrow> ser_serve_routes lc (av_routes active) = Inr tr \<Longrightarrow>
      map_of (rev ov) ''RELAY_SERVE_ROUTES_JSON'' = Some tr"
    and "av_ingress_adapters active \<noteq> [] \<Longrightarrow> ser_ingress_adapters lc (av_ingress_adapters active) = Inr ta \<Longrightarrow>
      map_of (rev ov) ''RELAY_INGRESS_ADAPTERS_JSON'' = Some ta"
    and "av_enabled_sources active \<noteq> [] \<Longrightarrow>
      map_of (rev ov) ''RELAY_ENABLED_SOURCES'' = Some (join '','' (av_enabled_sources active))"
    and "av_bind active = Some b \<Longrightarrow> map_of (rev ov) ''RELAY_BIND'' = Some b"
  using assms
  by (auto simp: serve_contract_overrides_def and_then_Inr_iff flag_override_def split: if_splits option.splits)

lemma serve_launch_vars:
  assumes "serve_launch h lc ctx args = Inr (spec, vars)" "ctx_contract ctx = Some contract"
    and "resolve_active_serve_contract lc ctx contract = Inr active"
  obtains ov where "serve_contract_overrides lc active = Inr ov"
    "vars = merged_env_for_command h ctx (ov @ serve_flag_overrides args)"
  using assms by (auto simp: serve_launch_def Let_def and_then_Inr_iff split: if_splits)

lemma override_reaches:
  assumes "map_of (rev ov) k = Some v" "map_of (rev flags) k = None" "\<not> reserved_key k"
  shows "map_of (merged_env_for_command h ctx (ov @ flags)) k = Some v"
  by (rule merged_env_override [OF _ assms(3)]) (simp only: map_of_rev_append [OF assms(2)] assms(1))

lemma read_config_lists:
  assumes "read_config cc e sources topic_prefix topics = Inr c"
  shows "parse_serve_routes_from_env cc e = Inr (serve_routes c)"
    "parse_ingress_adapters_from_env cc e = Inr (ingress_adapters c)"
    "enabled_sources c = sources" "bind_addr c = unwrap_or ''0.0.0.0:8080'' (e ''RELAY_BIND'')"
proof -
  from assms obtain routes adapters where "parse_serve_routes_from_env cc e = Inr routes"
    "parse_ingress_adapters_from_env cc e = Inr adapters" "serve_routes c = routes" "ingress_adapters c = adapters"
    "enabled_sources c = sources" "bind_addr c = unwrap_or ''0.0.0.0:8080'' (e ''RELAY_BIND'')"
    unfolding read_config_def and_then_Inr_iff by (elim exE conjE) (rule that, assumption, assumption, (drule sum.inject(2) [THEN iffD1], erule subst, simp only: config.simps)+)
  then show "parse_serve_routes_from_env cc e = Inr (serve_routes c)"
    "parse_ingress_adapters_from_env cc e = Inr (ingress_adapters c)"
    "enabled_sources c = sources" "bind_addr c = unwrap_or ''0.0.0.0:8080'' (e ''RELAY_BIND'')" by simp_all
qed

lemma from_env_lists:
  assumes "from_env cc e = Inr c"
  shows "parse_serve_routes_from_env cc e = Inr (serve_routes c)"
    "parse_ingress_adapters_from_env cc e = Inr (ingress_adapters c)"
    "env_csv_lower e ''RELAY_ENABLED_SOURCES'' ''github,linear'' = Inr (enabled_sources c)"
    "bind_addr c = unwrap_or ''0.0.0.0:8080'' (e ''RELAY_BIND'')"
proof -
  from assms obtain sources topic_prefix topics where
    s: "env_csv_lower e ''RELAY_ENABLED_SOURCES'' ''github,linear'' = Inr sources"
    and r: "read_config cc e sources topic_prefix topics = Inr c"
    unfolding from_env_def and_then_Inr_iff by (auto simp only: and_then_Inr_iff split: if_splits)
  from read_config_lists [OF r] s show "parse_serve_routes_from_env cc e = Inr (serve_routes c)"
    "parse_ingress_adapters_from_env cc e = Inr (ingress_adapters c)"
    "env_csv_lower e ''RELAY_ENABLED_SOURCES'' ''github,linear'' = Inr (enabled_sources c)"
    "bind_addr c = unwrap_or ''0.0.0.0:8080'' (e ''RELAY_BIND'')" by simp_all
qed

text \<open>C10. The receiver runs the contract: when the tool starts the receiver for a profile with routes and ingress
  adapters, and the JSON lists it passes on survive, then a receiver that comes up in that environment
  has exactly the routes and ingress adapters of the contract and, unless a flag says otherwise, its
  address, whatever else is in the environment.\<close>

theorem launched_receiver_runs_contract:
  assumes "serve_launch h lc ctx args = Inr (spec, vars)" "ctx_contract ctx = Some contract"
    and "resolve_active_serve_contract lc ctx contract = Inr active"
    and "av_routes active \<noteq> []" "av_ingress_adapters active \<noteq> []"
    and "json_survives_trim (ser_serve_routes lc) (de_serve_routes cc) (av_routes active)"
    and "json_survives_trim (ser_ingress_adapters lc) (de_ingress_adapters cc) (av_ingress_adapters active)"
    and "from_env cc (map_of vars) = Inr c"
  shows "serve_routes c = av_routes active \<and> ingress_adapters c = av_ingress_adapters active
     \<and> (va_bind args = None \<longrightarrow> av_bind active \<noteq> None \<longrightarrow> av_bind active = Some (bind_addr c))"
proof -
  obtain tr ta where
    tr: "ser_serve_routes lc (av_routes active) = Inr tr" "\<not> blank tr" "de_serve_routes cc (trim tr) = Some (av_routes active)"
    and ta: "ser_ingress_adapters lc (av_ingress_adapters active) = Inr ta" "\<not> blank ta"
      "de_ingress_adapters cc (trim ta) = Some (av_ingress_adapters active)"
    using assms(6,7) unfolding json_survives_trim_iff by blast
  obtain ov where ov: "serve_contract_overrides lc active = Inr ov"
    and vars: "vars = merged_env_for_command h ctx (ov @ serve_flag_overrides args)"
    by (rule serve_launch_vars [OF assms(1-3)])
  have keys: "\<not> reserved_key ''RELAY_SERVE_ROUTES_JSON''" "\<not> reserved_key ''RELAY_INGRESS_ADAPTERS_JSON''"
    "\<not> reserved_key ''RELAY_BIND''" by (simp_all add: reserved_key_def)
  have r: "map_of vars ''RELAY_SERVE_ROUTES_JSON'' = Some tr"
    unfolding vars by (rule override_reaches [OF serve_overrides_lookup(1) [OF ov assms(4) tr(1)] serve_flag_overrides_none(1) keys(1)])
  have a: "map_of vars ''RELAY_INGRESS_ADAPTERS_JSON'' = Some ta"
    unfolding vars by (rule override_reaches [OF serve_overrides_lookup(2) [OF ov assms(5) ta(1)] serve_flag_overrides_none(2) keys(2)])
  note lists = from_env_lists [OF assms(8)]
  have "serve_routes c = av_routes active"
    using lists(1) r tr(2,3) by (simp add: parse_serve_routes_from_env_def blank_def Let_def)
  moreover have "ingress_adapters c = av_ingress_adapters active"
    using lists(2) a ta(2,3) by (simp add: parse_ingress_adapters_from_env_def blank_def Let_def)
  moreover have "b = bind_addr c" if "va_bind args = None" "av_bind active = Some b" for b
  proof -
    have "map_of vars ''RELAY_BIND'' = Some b"
      unfolding vars by (rule override_reaches [OF serve_overrides_lookup(4) [OF ov that(2)] serve_flag_overrides_none(4) [OF that(1)] keys(3)])
    with lists(4) show ?thesis by simp
  qed
  ultimately show ?thesis by auto
qed

text \<open>A contract with a literal and a wildcard route.\<close>

definition github_first_contract :: app_contract where
  "github_first_contract = embedded_default_contract
     \<lparr>con_serve := (con_serve embedded_default_contract)
        \<lparr>serve_route_defs :=
          [\<lparr>svr_id = ''github'', svr_source_match = ''github'', svr_event_type_pattern = ''*'', svr_target_topic = ''webhooks.github''\<rparr>,
           \<lparr>svr_id = ''all-to-core'', svr_source_match = ''*'', svr_event_type_pattern = ''*'', svr_target_topic = ''webhooks.core''\<rparr>]\<rparr>,
      con_profiles := [(''default-openclaw'',
          \<lparr>prof_label = ''GitHub first'', prof_serve_adapters = [''http-ingress''],
           prof_smash_adapters = [''openclaw-output''], prof_serve_routes = [''github'', ''all-to-core''],
           prof_smash_routes = [''core-to-openclaw''], prof_env = []\<rparr>)]\<rparr>"

definition github_first_context :: app_context where
  "github_first_context = demo_context\<lparr>ctx_contract := Some github_first_contract\<rparr>"

definition demo_receiver_host :: host where
  "demo_receiver_host = demo_host
     \<lparr>host_vars := host_vars demo_host @ [(''KAFKA_SECURITY_PROTOCOL'', ''plaintext''), (''KAFKA_ALLOW_PLAINTEXT'', ''true'')]\<rparr>"

definition github_first_active :: active_serve_contract where
  "github_first_active = projr (resolve_active_serve_contract demo_launch_crates github_first_context github_first_contract)"

definition github_first_vars :: "(string \<times> string) list" where
  "github_first_vars = snd (projr (serve_launch demo_receiver_host demo_launch_crates github_first_context no_serve_args))"

definition github_first_crates :: config_crates where
  "github_first_crates = \<lparr>parse_ipnet = \<lambda>s. Some (IpNet (V4 [127, 0, 0, 1]) 32),
     de_serve_routes = \<lambda>_. Some (av_routes github_first_active),
     de_ingress_adapters = \<lambda>_. Some (av_ingress_adapters github_first_active)\<rparr>"

definition github_first_config :: config where
  "github_first_config = projr (from_env github_first_crates (map_of github_first_vars))"

lemma github_first_resolved:
  "resolve_active_serve_contract demo_launch_crates github_first_context github_first_contract = Inr github_first_active"
proof -
  have "\<not> isl (resolve_active_serve_contract demo_launch_crates github_first_context github_first_contract)" by code_simp
  then show ?thesis unfolding github_first_active_def by (rule projr_eq)
qed

lemma github_first_launched:
  "serve_launch demo_receiver_host demo_launch_crates github_first_context no_serve_args =
     Inr (fst (projr (serve_launch demo_receiver_host demo_launch_crates github_first_context no_serve_args)), github_first_vars)"
proof -
  have "\<not> isl (serve_launch demo_receiver_host demo_launch_crates github_first_context no_serve_args)" by code_simp
  from projr_eq [OF this] show ?thesis by (simp add: github_first_vars_def)
qed

lemma github_first_loaded: "from_env github_first_crates (map_of github_first_vars) = Inr github_first_config"
proof -
  have "\<not> isl (from_env github_first_crates (map_of github_first_vars))" by code_simp
  then show ?thesis unfolding github_first_config_def by (rule projr_eq)
qed

lemma github_first_fields:
  "ctx_contract github_first_context = Some github_first_contract"
  "av_routes github_first_active \<noteq> []" "av_ingress_adapters github_first_active \<noteq> []"
  "av_enabled_sources github_first_active = [''github'']" "av_bind github_first_active = Some ''0.0.0.0:8080''"
  by (simp add: github_first_context_def) code_simp+

theorem launched_receiver_runs_contract_witness:
  "serve_routes github_first_config = av_routes github_first_active \<and> bind_addr github_first_config = ''0.0.0.0:8080''"
proof -
  have "\<not> blank ''[]''" by code_simp
  then have "json_survives_trim (ser_serve_routes demo_launch_crates) (de_serve_routes github_first_crates) (av_routes github_first_active)"
    "json_survives_trim (ser_ingress_adapters demo_launch_crates) (de_ingress_adapters github_first_crates)
       (av_ingress_adapters github_first_active)"
    by (simp_all add: json_survives_trim_def demo_launch_crates_def github_first_crates_def)
  from launched_receiver_runs_contract [OF github_first_launched github_first_fields(1) github_first_resolved
      github_first_fields(2,3) this github_first_loaded]
  show ?thesis by (simp add: github_first_fields(5) no_serve_args_def)
qed

lemma split_on_join: "xs \<noteq> [] \<Longrightarrow> \<forall>x \<in> set xs. c \<notin> set x \<Longrightarrow> split_on c (join [c] xs) = xs"
  by (induction "[c]" xs rule: join.induct) (auto simp: split_on_none split_on_append)

lemma enabled_are_literal:
  assumes "resolve_active_serve_contract lc ctx contract = Inr active"
  shows "set (av_enabled_sources active) = {s. \<exists>r \<in> set (av_routes active). literal_source r = Some s}"
  using assms
  by (auto simp: resolve_active_serve_contract_def and_then_Inr_iff Let_def set_map_filter split: option.splits) blast

text \<open>C39. A wildcard route enables nothing beside a literal one: when the tool starts the receiver without
  \<open>--enabled-sources\<close> and some active route of the contract names its source literally (no literal source
  has a comma), then a receiver that comes up answers only the literal sources. A webhook of any other
  source gets 404 and changes nothing, although a wildcard route of the contract may match it.\<close>

theorem wildcard_route_disabled:
  assumes "serve_launch h lc ctx args = Inr (spec, vars)" "ctx_contract ctx = Some contract"
    and "resolve_active_serve_contract lc ctx contract = Inr active" "va_enabled_sources args = None"
    and "r \<in> set (av_routes active)" "literal_source r = Some s"
    and "\<forall>r \<in> set (av_routes active). \<forall>s. literal_source r = Some s \<longrightarrow> CHR '','' \<notin> set s"
    and "from_env cc (map_of vars) = Inr c" "app_config st = c"
    and "normalize_source path = Some source" "\<forall>r \<in> set (av_routes active). literal_source r \<noteq> Some source"
  shows "webhook_handler cr ch now st path hs body = (error_response 404 ''not found'', st)"
proof -
  note lits = enabled_are_literal [OF assms(3)]
  have some: "av_enabled_sources active \<noteq> []" using lits assms(5,6) by force
  have commas: "\<forall>s \<in> set (av_enabled_sources active). CHR '','' \<notin> set s" using lits assms(7) by auto
  obtain ov where ov: "serve_contract_overrides lc active = Inr ov"
    and vars: "vars = merged_env_for_command h ctx (ov @ serve_flag_overrides args)"
    by (rule serve_launch_vars [OF assms(1-3)])
  have key: "\<not> reserved_key ''RELAY_ENABLED_SOURCES''" by (simp add: reserved_key_def)
  have "map_of vars ''RELAY_ENABLED_SOURCES'' = Some (join '','' (av_enabled_sources active))"
    unfolding vars
    by (rule override_reaches [OF serve_overrides_lookup(3) [OF ov some] serve_flag_overrides_none(3) [OF assms(4)] key])
  with from_env_lists(3) [OF assms(8)] split_on_join [OF some commas]
  have "enabled_sources c = map to_ascii_lowercase (filter (\<lambda>v. v \<noteq> []) (map trim (av_enabled_sources active)))"
    by (simp add: env_csv_lower_def parse_csv_def split_trimmed_def Let_def split: if_splits)
  moreover have "to_ascii_lowercase (trim s) = s" if "s \<in> set (av_enabled_sources active)" for s
    using that lits by (auto simp: literal_source_def Let_def trim_lower split: if_splits)
  ultimately have "set (enabled_sources c) \<subseteq> set (av_enabled_sources active)" by auto
  moreover have "to_ascii_lowercase (trim source) = source"
    using assms(10) by (auto simp: normalize_source_def Let_def trim_lower split: if_splits)
  moreover have "source \<notin> set (av_enabled_sources active)" using lits assms(11) by auto
  ultimately have "\<not> is_source_enabled c source" by (auto simp: is_source_enabled_def Let_def)
  with assms(9,10) show ?thesis by (simp add: webhook_handler_def)
qed

theorem wildcard_route_disabled_witness:
  "\<forall>cr ch now hs body. webhook_handler cr ch now (demo_state\<lparr>app_config := github_first_config\<rparr>) ''linear'' hs body =
     (error_response 404 ''not found'', demo_state\<lparr>app_config := github_first_config\<rparr>)"
proof (intro allI)
  fix cr ch now hs body
  have n: "normalize_source ''linear'' = Some ''linear''" by code_simp
  have lits: "map literal_source (av_routes github_first_active) = [Some ''github'', None]" by code_simp
  then obtain r1 r2 where routes: "av_routes github_first_active = [r1, r2]" "literal_source r1 = Some ''github''" "literal_source r2 = None"
    by (auto simp: map_eq_Cons_conv)
  show "webhook_handler cr ch now (demo_state\<lparr>app_config := github_first_config\<rparr>) ''linear'' hs body =
     (error_response 404 ''not found'', demo_state\<lparr>app_config := github_first_config\<rparr>)"
    by (rule wildcard_route_disabled [OF github_first_launched github_first_fields(1) github_first_resolved _ _ _ _
          github_first_loaded _ n, of r1 "''github''"]) (simp_all add: routes no_serve_args_def)
qed

end
