(* ===== verification/Egress.thy ===== *)
theory Egress
  imports Smash Sources Backoff
begin

section \<open>Output adapters\<close>

text \<open>
  \<open>crates/hook-runtime/src/adapters/egress\<close>: the five outputs of the consumer and how they are
  built from its configuration. What the outside answers is the record \<open>egress_io\<close>: the process
  environment, the HTTP client, the Kafka producer, the websocket connection, the child process.
  Its answers take the number of the attempt, so a failing peer may recover.
\<close>

datatype http_answer =
    HttpStatus nat string
  | HttpError bool string

record http_request =
  req_url :: string
  req_authorization :: "string option"
  req_body :: json

text \<open>A spawned process: whether its standard input is there, which writes to it succeed (given what
  was written before) and how waiting for it ends, given all it has read.\<close>

datatype wait_outcome =
    WaitTimeout
  | WaitError string
  | Exited bool string

record child_process =
  ch_stdin :: bool
  ch_write :: "string \<Rightarrow> string \<Rightarrow> bool"
  ch_wait :: "string \<Rightarrow> wait_outcome"

record egress_io =
  io_env :: env
  io_build_client :: bool
  io_create_producer :: "(string \<times> string) list \<Rightarrow> bool"
  io_create_consumer :: "(string \<times> string) list \<Rightarrow> bool"
  io_subscribe :: "string list \<Rightarrow> bool"
  io_bind :: "string \<Rightarrow> bool"
  io_route_ok :: "string \<Rightarrow> bool"
  io_http :: "nat \<Rightarrow> http_request \<Rightarrow> http_answer"
  io_ser_envelope :: "event_envelope \<Rightarrow> string option"
  io_envelope_json :: "event_envelope \<Rightarrow> json"
  io_kafka_send :: "string \<Rightarrow> string option \<Rightarrow> string \<Rightarrow> unit result"
  io_request :: "string \<Rightarrow> string option \<Rightarrow> unit result"
  io_ws_send :: "nat \<Rightarrow> string \<Rightarrow> string option \<Rightarrow> string \<Rightarrow> unit result"
  io_broadcast :: "string \<Rightarrow> string \<Rightarrow> unit result"
  io_spawn :: "string \<Rightarrow> string list \<Rightarrow> (string \<times> string) list \<Rightarrow> child_process option"

subsection \<open>OpenClaw\<close>

record openclaw_target =
  oct_adapter_id :: string
  oct_webhook_url :: string
  oct_webhook_token :: string
  oct_message_max_bytes :: usize
  oct_http_timeout_seconds :: u64
  oct_max_retries :: u32
  oct_backoff_base_seconds :: u64
  oct_backoff_max_seconds :: u64

datatype forward_error_kind = Retryable string | Permanent string

text \<open>The loop over the characters of the serialized payload, with the text written so far.\<close>

fun take_chars :: "nat \<Rightarrow> string list \<Rightarrow> string \<Rightarrow> string" where
  "take_chars limit [] output = output"
| "take_chars limit (character # rest) output =
     (if length output + length character > limit then output
      else take_chars limit rest (output @ character))"

definition summarize_payload :: "crates \<Rightarrow> json \<Rightarrow> usize \<Rightarrow> string" where
  "summarize_payload cr payload limit_bytes =
     (let serialized = json_to_string cr payload
      in if length serialized \<le> unat limit_bytes then serialized
         else take_chars (unat (saturating_sub limit_bytes 3)) (chars serialized) [] @ ''...'')"

definition truncate_chars :: "string \<Rightarrow> usize \<Rightarrow> string" where
  "truncate_chars v max_chars =
     (if length (chars v) \<le> unat max_chars then v
      else concat (take (unat (saturating_sub max_chars 3)) (chars v)) @ ''...'')"

definition mapped_hook_payload :: "crates \<Rightarrow> openclaw_target \<Rightarrow> event_envelope \<Rightarrow> json" where
  "mapped_hook_payload cr target envelope =
     obj [(''source'', JString (ev_source envelope)), (''eventType'', JString (ev_type envelope)),
          (''id'', JString (ev_id envelope)), (''receivedAt'', JString (ev_received_at envelope)),
          (''payload'', JString (summarize_payload cr (ev_payload envelope) (oct_message_max_bytes target)))]"

definition forward_once ::
  "crates \<Rightarrow> egress_io \<Rightarrow> openclaw_target \<Rightarrow> event_envelope \<Rightarrow> nat \<Rightarrow> forward_error_kind + unit" where
  "forward_once cr io target envelope attempt =
     (case io_http io attempt
             \<lparr>req_url = oct_webhook_url target, req_authorization = Some (''Bearer '' @ oct_webhook_token target),
              req_body = mapped_hook_payload cr target envelope\<rparr> of
        HttpError retryable error \<Rightarrow> Inl (if retryable then Retryable error else Permanent error)
      | HttpStatus code display \<Rightarrow>
          if 200 \<le> code \<and> code < 300 then Inr ()
          else if 500 \<le> code \<and> code < 600 \<or> code = 429 then Inl (Retryable (''OpenClaw returned '' @ display))
          else Inl (Permanent (''OpenClaw returned '' @ display)))"

datatype forward_event = Post nat | Pause u64

fun forward_loop ::
  "(nat \<Rightarrow> forward_error_kind + unit) \<Rightarrow> openclaw_target \<Rightarrow> nat list \<Rightarrow> unit result \<times> forward_event list" where
  "forward_loop once target [] = (Inl ''retry loop terminated unexpectedly'', [])"
| "forward_loop once target (attempt # attempts) =
     (case once attempt of
        Inr _ \<Rightarrow> (Inr (), [Post attempt])
      | Inl (Permanent message) \<Rightarrow> (Inl (''forward failed permanently: '' @ message), [Post attempt])
      | Inl (Retryable message) \<Rightarrow>
          if unat (oct_max_retries target) \<le> attempt
          then (Inl (''forward failed after '' @ show_nat attempt @ '' attempts: '' @ message), [Post attempt])
          else
            let backoff_seconds = retry_backoff_seconds (oct_backoff_base_seconds target)
                  (oct_backoff_max_seconds target) (saturating_sub (of_nat attempt) 1);
                (r, trace) = forward_loop once target attempts
            in (r, Post attempt # Pause backoff_seconds # trace))"

definition forward_with_retry ::
  "crates \<Rightarrow> egress_io \<Rightarrow> openclaw_target \<Rightarrow> event_envelope \<Rightarrow> unit result \<times> forward_event list" where
  "forward_with_retry cr io target envelope =
     forward_loop (forward_once cr io target envelope) target [1..<Suc (unat (oct_max_retries target))]"

subsection \<open>Kafka\<close>

record kafka_output =
  kout_topic :: string
  kout_key_mode :: string

definition sasl_settings :: "smash_config \<Rightarrow> (string \<times> string) list" where
  "sasl_settings c =
     (case sc_kafka_sasl_mechanism c of None \<Rightarrow> [] | Some v \<Rightarrow> [(''sasl.mechanism'', v)])
     @ (case sc_kafka_sasl_username c of None \<Rightarrow> [] | Some v \<Rightarrow> [(''sasl.username'', v)])
     @ (case sc_kafka_sasl_password c of None \<Rightarrow> [] | Some v \<Rightarrow> [(''sasl.password'', v)])"

definition output_client_settings :: "smash_config \<Rightarrow> (string \<times> string) list" where
  "output_client_settings c =
     [(''bootstrap.servers'', sc_kafka_brokers c), (''security.protocol'', sc_kafka_security_protocol c),
      (''message.timeout.ms'', ''5000''), (''queue.buffering.max.ms'', ''5'')] @ sasl_settings c"

definition kafka_publish :: "egress_io \<Rightarrow> kafka_output \<Rightarrow> event_envelope \<Rightarrow> unit result" where
  "kafka_publish io out envelope =
     and_then (ok_or ''serialize envelope for kafka_output'' (io_ser_envelope io envelope)) (\<lambda>payload.
     and_then
       (if kout_key_mode out = ''event_id'' then Inr (Some (ev_id envelope))
        else if kout_key_mode out = ''source'' then Inr (Some (ev_source envelope))
        else if kout_key_mode out = ''none'' then Inr None
        else Inl (''unsupported kafka_output key_mode '' @ quoted (kout_key_mode out))) (\<lambda>key.
     (case io_kafka_send io (kout_topic out) key payload of
        Inl error \<Rightarrow> Inl (''kafka_output send failed: '' @ error)
      | Inr _ \<Rightarrow> Inr ())))"

subsection \<open>Websocket client\<close>

record websocket_client =
  wcl_url :: string
  wcl_auth_mode :: string
  wcl_auth_token :: "string option"
  wcl_send_timeout_ms :: u64
  wcl_retry_max_retries :: u32
  wcl_retry_backoff_ms :: u64

text \<open>The \<open>Authorization\<close> header of the request; \<open>io_request\<close> is the check of its parts by the
  HTTP library, \<open>io_ws_send\<close> connects and sends within the timeout.\<close>

definition build_websocket_request :: "egress_io \<Rightarrow> string \<Rightarrow> string \<Rightarrow> string option \<Rightarrow> string option result" where
  "build_websocket_request io url auth_mode auth_token =
     and_then
       (if auth_mode \<noteq> ''none''
        then and_then (ok_or ''websocket auth token missing'' auth_token) (\<lambda>token. Inr (Some (''Bearer '' @ token)))
        else Inr None) (\<lambda>authorization.
     (case io_request io url authorization of
        Inl error \<Rightarrow> Inl (''build websocket request failed: '' @ error)
      | Inr _ \<Rightarrow> Inr authorization))"

definition send_once :: "egress_io \<Rightarrow> websocket_client \<Rightarrow> string \<Rightarrow> nat \<Rightarrow> unit result" where
  "send_once io client payload attempt =
     and_then (build_websocket_request io (wcl_url client) (wcl_auth_mode client) (wcl_auth_token client))
       (\<lambda>authorization. io_ws_send io attempt (wcl_url client) authorization payload)"

fun send_loop ::
  "(nat \<Rightarrow> unit result) \<Rightarrow> websocket_client \<Rightarrow> nat \<Rightarrow> nat list \<Rightarrow> unit result \<times> forward_event list" where
  "send_loop once client limit [] = (Inl ''websocket_client_output retry loop terminated unexpectedly'', [])"
| "send_loop once client limit (attempt # attempts) =
     (case once attempt of
        Inr _ \<Rightarrow> (Inr (), [Post attempt])
      | Inl error \<Rightarrow>
          if attempt < limit
          then let (r, trace) = send_loop once client limit attempts
               in (r, Post attempt # Pause (wcl_retry_backoff_ms client) # trace)
          else (Inl error, [Post attempt]))"

definition websocket_send :: "egress_io \<Rightarrow> websocket_client \<Rightarrow> event_envelope \<Rightarrow> unit result \<times> forward_event list" where
  "websocket_send io client envelope =
     (case io_ser_envelope io envelope of
        None \<Rightarrow> (Inl ''serialize websocket payload'', [])
      | Some payload \<Rightarrow>
          let limit = unat (max (wcl_retry_max_retries client) 1)
          in send_loop (send_once io client payload) client limit [1..<Suc limit])"

subsection \<open>Websocket server\<close>

text \<open>\<open>parse_bearer\<close> and \<open>authorize_request\<close> of the server output.\<close>

definition parse_bearer :: "string \<Rightarrow> string option" where
  "parse_bearer raw =
     (let trimmed = trim raw; bearer = ''bearer ''
      in if length trimmed < length bearer \<or> \<not> eq_ignore_ascii_case (take (length bearer) trimmed) bearer then None
         else let token = trim (drop (length bearer) trimmed)
              in if token = [] then None else Some token)"

definition authorize_request :: "headers \<Rightarrow> string \<Rightarrow> string option \<Rightarrow> bool" where
  "authorize_request headers auth_mode expected_token =
     (let mode = to_ascii_lowercase (trim auth_mode)
      in if mode = ''none'' then True
         else if mode = ''bearer'' \<or> mode = ''hmac'' then
           (case expected_token of
              None \<Rightarrow> False
            | Some expected \<Rightarrow>
                (case or_else (Option.bind (header_get headers ''authorization'') parse_bearer)
                        (map_option trim (header_get headers ''x-adapter-token'')) of
                   None \<Rightarrow> False
                 | Some provided \<Rightarrow> provided = expected))
         else False)"

definition broadcast :: "egress_io \<Rightarrow> string \<Rightarrow> event_envelope \<Rightarrow> unit result" where
  "broadcast io aid envelope =
     and_then (ok_or ''serialize websocket server payload'' (io_ser_envelope io envelope)) (\<lambda>payload.
     (case io_broadcast io aid payload of
        Inl error \<Rightarrow> Inl (''websocket server broadcast failed: '' @ error)
      | Inr _ \<Rightarrow> Inr ()))"

subsection \<open>MCP tools\<close>

datatype mcp_runtime_transport =
    StdioTransport string "string list" "(string \<times> string) list"
  | SseTransport string string "string option"

record mcp_tool_output =
  mcpo_tool_name :: string
  mcpo_transport :: mcp_runtime_transport

definition mcp_call :: "crates \<Rightarrow> egress_io \<Rightarrow> mcp_tool_output \<Rightarrow> event_envelope \<Rightarrow> unit result" where
  "mcp_call cr io out envelope =
     (let arguments = obj [(''envelope'', io_envelope_json io envelope)]
      in case mcpo_transport out of
           SseTransport url auth_mode auth_token \<Rightarrow>
             if \<not> io_build_client io then Inl ''build mcp http_sse client''
             else and_then
               (if auth_mode \<noteq> ''none''
                then and_then (ok_or ''mcp http_sse auth token missing'' auth_token) (\<lambda>token. Inr (Some (''Bearer '' @ token)))
                else Inr None) (\<lambda>authorization.
               (case io_http io 1 \<lparr>req_url = url, req_authorization = authorization,
                       req_body = obj [(''tool'', JString (mcpo_tool_name out)), (''arguments'', arguments)]\<rparr> of
                  HttpError _ _ \<Rightarrow> Inl ''call mcp http_sse endpoint''
                | HttpStatus code display \<Rightarrow>
                    ensure (200 \<le> code \<and> code < 300) (''mcp http_sse returned status '' @ display)))
         | StdioTransport command args e \<Rightarrow>
             (case io_spawn io command args e of
                None \<Rightarrow> Inl (''spawn mcp stdio_jsonrpc command '' @ quoted (command @ '' '' @ join '' '' args))
              | Some child \<Rightarrow>
                  let payload = json_to_string cr (obj [(''jsonrpc'', JString ''2.0''), (''id'', JString ''hook-smash''),
                        (''method'', JString ''tools/call''),
                        (''params'', obj [(''name'', JString (mcpo_tool_name out)), (''arguments'', arguments)])])
                  in checks
                       [ensure (ch_stdin child) ''mcp stdio_jsonrpc child stdin unavailable'',
                        ensure (ch_write child [] payload) ''write mcp stdio_jsonrpc payload'',
                        ensure (ch_write child payload [CHR 0x0A]) ''write mcp stdio_jsonrpc newline'',
                        (case ch_wait child (payload @ [CHR 0x0A]) of
                           WaitTimeout \<Rightarrow> Inl ''mcp stdio_jsonrpc process timeout''
                         | WaitError error \<Rightarrow> Inl error
                         | Exited success display \<Rightarrow>
                             ensure success (''mcp stdio_jsonrpc process exited with '' @ display))]))"

subsection \<open>The adapters of a configuration\<close>

datatype runtime_adapter =
    RtOpenclaw openclaw_target
  | RtKafkaOutput kafka_output
  | RtWebsocketClient websocket_client
  | RtWebsocketServer string "string option" usize usize u64
  | RtMcpTool mcp_tool_output

definition egress_required_env :: "egress_io \<Rightarrow> string \<Rightarrow> string result" where
  "egress_required_env io name =
     and_then (ok_or (''missing env var: '' @ name) (io_env io name)) (\<lambda>v.
       if blank v then Inl (''env var '' @ name @ '' cannot be empty'') else Inr v)"

definition resolve_optional_auth_token :: "egress_io \<Rightarrow> string \<Rightarrow> string option \<Rightarrow> string option result" where
  "resolve_optional_auth_token io auth_mode token_env =
     (let mode = to_ascii_lowercase (trim auth_mode)
      in if mode = ''none'' then Inr None
         else if mode = ''bearer'' \<or> mode = ''hmac'' then
           and_then (ok_or (''auth_mode '' @ quoted auth_mode @ '' requires token_env'') token_env) (\<lambda>name.
           and_then (egress_required_env io name) (\<lambda>token. Inr (Some token)))
         else Inl (''unsupported auth_mode '' @ quoted mode))"

text \<open>The constructors of the outputs. Starting the websocket server panics where its libraries do: a
  broadcast channel holds between one and \<open>usize::MAX / 2\<close> messages, and a route must be one the
  router takes (\<open>io_route_ok\<close>).\<close>

definition openclaw_output_new :: "egress_io \<Rightarrow> openclaw_target \<Rightarrow> runtime_adapter result" where [simp]:
  "openclaw_output_new io target = and_then (ensure (io_build_client io) ''build reqwest client'') (\<lambda>_. Inr (RtOpenclaw target))"

definition kafka_output_from_config :: "egress_io \<Rightarrow> smash_config \<Rightarrow> string \<Rightarrow> string \<Rightarrow> runtime_adapter result" where [simp]:
  "kafka_output_from_config io c topic key_mode =
     and_then (ensure (io_create_producer io (output_client_settings c)) ''create kafka output producer'') (\<lambda>_.
       Inr (RtKafkaOutput \<lparr>kout_topic = topic, kout_key_mode = key_mode\<rparr>))"

definition websocket_client_new ::
  "string \<Rightarrow> string \<Rightarrow> string option \<Rightarrow> u64 \<Rightarrow> u32 \<Rightarrow> u64 \<Rightarrow> runtime_adapter" where [simp]:
  "websocket_client_new url auth_mode auth_token send_timeout_ms max_retries backoff_ms =
     RtWebsocketClient \<lparr>wcl_url = url, wcl_auth_mode = auth_mode, wcl_auth_token = auth_token,
       wcl_send_timeout_ms = send_timeout_ms, wcl_retry_max_retries = max_retries,
       wcl_retry_backoff_ms = backoff_ms\<rparr>"

definition mcp_tool_output_new :: "string \<Rightarrow> mcp_runtime_transport \<Rightarrow> runtime_adapter" where [simp]:
  "mcp_tool_output_new tool_name transport = RtMcpTool \<lparr>mcpo_tool_name = tool_name, mcpo_transport = transport\<rparr>"

definition websocket_server_panics :: "egress_io \<Rightarrow> string \<Rightarrow> usize \<Rightarrow> bool" where
  "websocket_server_panics io path queue_depth_per_client \<longleftrightarrow>
     queue_depth_per_client = 0 \<or> 0x7FFFFFFFFFFFFFFF < queue_depth_per_client \<or> \<not> io_route_ok io path"

definition websocket_server_start ::
  "egress_io \<Rightarrow> string \<Rightarrow> string \<Rightarrow> string option \<Rightarrow> usize \<Rightarrow> usize \<Rightarrow> u64 \<Rightarrow> runtime_adapter result" where [simp]:
  "websocket_server_start io bind auth_mode auth_token max_clients queue_depth_per_client send_timeout_ms =
     and_then (ensure (io_bind io bind) (''bind websocket_server_output '' @ bind)) (\<lambda>_.
       Inr (RtWebsocketServer auth_mode auth_token max_clients queue_depth_per_client send_timeout_ms))"

definition build_runtime_adapter :: "egress_io \<Rightarrow> smash_config \<Rightarrow> smash_adapter \<Rightarrow> runtime_adapter result" where
  "build_runtime_adapter io c adapter =
     (case adapter of
        OpenclawHttpOutput i url token_env timeout_seconds max_retries _ \<Rightarrow>
          and_then (egress_required_env io token_env) (\<lambda>token.
            with_context (''initialize openclaw output adapter '' @ quoted i)
              (openclaw_output_new io \<lparr>oct_adapter_id = i, oct_webhook_url = url, oct_webhook_token = token,
                   oct_message_max_bytes = openclaw_message_max_bytes c, oct_http_timeout_seconds = timeout_seconds,
                   oct_max_retries = max_retries, oct_backoff_base_seconds = backoff_base_seconds c,
                   oct_backoff_max_seconds = backoff_max_seconds c\<rparr>))
      | KafkaOutput i topic key_mode _ \<Rightarrow>
          with_context (''initialize kafka_output adapter '' @ quoted i) (kafka_output_from_config io c topic key_mode)
      | WebsocketClientOutput i url auth_mode token_env send_timeout_ms retries backoff _ \<Rightarrow>
          and_then (resolve_optional_auth_token io auth_mode token_env) (\<lambda>token.
            Inr (websocket_client_new url auth_mode token send_timeout_ms retries backoff))
      | WebsocketServerOutput i bind path auth_mode token_env max_clients queue_depth send_timeout_ms _ \<Rightarrow>
          and_then (resolve_optional_auth_token io auth_mode token_env) (\<lambda>token.
          and_then (ensure (\<not> websocket_server_panics io path queue_depth) ''panic: websocket_server_output'') (\<lambda>_.
            with_context (''initialize websocket_server_output adapter '' @ quoted i)
              (websocket_server_start io bind auth_mode token max_clients queue_depth send_timeout_ms)))
      | McpToolOutput i tool_name transport_ref _ \<Rightarrow>
          (case map_of (btree_collect (map (\<lambda>t. (transport_name t, t)) (smash_transports c))) transport_ref of
             None \<Rightarrow> Inl (''mcp_tool_output adapter '' @ quoted i @ '' references missing transport '' @ quoted transport_ref)
           | Some (StdioJsonrpc _ command args e) \<Rightarrow>
               Inr (mcp_tool_output_new tool_name (StdioTransport command args e))
           | Some (HttpSse _ url auth_mode token_env) \<Rightarrow>
               and_then (resolve_optional_auth_token io auth_mode token_env) (\<lambda>token.
                 Inr (mcp_tool_output_new tool_name (SseTransport url auth_mode token)))))"

fun build_runtime_loop ::
  "egress_io \<Rightarrow> smash_config \<Rightarrow> smash_adapter list \<Rightarrow> (string \<times> runtime_adapter) list \<Rightarrow> (string \<times> runtime_adapter) list result" where
  "build_runtime_loop io c [] by_id = Inr by_id"
| "build_runtime_loop io c (adapter # adapters) by_id =
     and_then (build_runtime_adapter io c adapter) (\<lambda>runtime_adapter.
       if map_of by_id (adapter_id adapter) \<noteq> None
       then Inl (''duplicate runtime adapter id '' @ quoted (adapter_id adapter))
       else build_runtime_loop io c adapters (btree_insert (adapter_id adapter) runtime_adapter by_id))"

definition build_runtime_adapters :: "egress_io \<Rightarrow> smash_config \<Rightarrow> (string \<times> runtime_adapter) list result" where
  "build_runtime_adapters io c = build_runtime_loop io c (smash_adapters c) []"

definition runtime_deliver :: "crates \<Rightarrow> egress_io \<Rightarrow> runtime_adapter \<Rightarrow> string \<Rightarrow> event_envelope \<Rightarrow> unit result" where
  "runtime_deliver cr io adapter aid envelope =
     (case adapter of
        RtOpenclaw target \<Rightarrow> with_context (''forward via adapter '' @ quoted aid) (fst (forward_with_retry cr io target envelope))
      | RtKafkaOutput out \<Rightarrow> with_context (''kafka_output adapter '' @ quoted aid) (kafka_publish io out envelope)
      | RtWebsocketClient client \<Rightarrow>
          with_context (''websocket_client_output adapter '' @ quoted aid) (fst (websocket_send io client envelope))
      | RtWebsocketServer _ _ _ _ _ \<Rightarrow>
          with_context (''websocket_server_output adapter '' @ quoted aid) (broadcast io aid envelope)
      | RtMcpTool out \<Rightarrow> with_context (''mcp_tool_output adapter '' @ quoted aid) (mcp_call cr io out envelope))"

subsection \<open>Summaries\<close>

lemma concat_chars: "concat (chars s) = s"
  by (induction s rule: chars.induct) auto

lemma take_chars_prefix:
  "\<exists>k \<le> length cs. take_chars limit cs out = out @ concat (take k cs)
     \<and> (length out \<le> limit \<longrightarrow> length (out @ concat (take k cs)) \<le> limit)
     \<and> (k < length cs \<longrightarrow> limit < length (out @ concat (take (Suc k) cs)))"
proof (induction limit cs out rule: take_chars.induct)
  case (2 limit c cs out)
  show ?case
  proof (cases "length out + length c > limit")
    case True
    then show ?thesis by (intro exI [of _ 0]) simp
  next
    case False
    then obtain k where "k \<le> length cs" "take_chars limit cs (out @ c) = (out @ c) @ concat (take k cs)"
      "length ((out @ c) @ concat (take k cs)) \<le> limit"
      "k < length cs \<longrightarrow> limit < length ((out @ c) @ concat (take (Suc k) cs))"
      using 2 by auto
    with False show ?thesis by (intro exI [of _ "Suc k"]) auto
  qed
qed simp

text \<open>The payload text OpenClaw gets: the whole serialized payload when it fits the limit; otherwise
  its longest prefix of whole characters that leaves room for three dots, followed by the dots. So
  with the limit of a loaded configuration (at least 128) the text never exceeds the limit, and no
  character is cut in the middle.\<close>

theorem summary_is_longest_prefix:
  fixes cr :: crates and payload :: json and limit :: usize
  defines "s \<equiv> json_to_string cr payload"
  shows "(length s \<le> unat limit \<longrightarrow> summarize_payload cr payload limit = s)
     \<and> (unat limit < length s \<longrightarrow>
          (\<exists>k < length (chars s). summarize_payload cr payload limit = concat (take k (chars s)) @ ''...''
             \<and> length (concat (take k (chars s))) \<le> unat limit - 3
             \<and> unat limit - 3 < length (concat (take (Suc k) (chars s)))))
     \<and> (3 \<le> unat limit \<longrightarrow> length (summarize_payload cr payload limit) \<le> unat limit)"
proof -
  have long: "\<exists>k < length (chars s). summarize_payload cr payload limit = concat (take k (chars s)) @ ''...''
             \<and> length (concat (take k (chars s))) \<le> unat limit - 3
             \<and> unat limit - 3 < length (concat (take (Suc k) (chars s)))" if "unat limit < length s"
  proof -
    obtain k where k: "k \<le> length (chars s)"
      "take_chars (unat limit - 3) (chars s) [] = concat (take k (chars s))"
      "length (concat (take k (chars s))) \<le> unat limit - 3"
      "k < length (chars s) \<longrightarrow> unat limit - 3 < length (concat (take (Suc k) (chars s)))"
      using take_chars_prefix [of "chars s" "unat limit - 3" "[]"] by auto
    have "k \<noteq> length (chars s)"
    proof
      assume "k = length (chars s)"
      then have "length s \<le> unat limit - 3" using k(3) concat_chars [of s] by simp
      then show False using that by linarith
    qed
    with k(1) have "k < length (chars s)" by simp
    moreover have "summarize_payload cr payload limit = concat (take k (chars s)) @ ''...''"
      using that k(2) by (simp add: summarize_payload_def Let_def s_def [symmetric] unat_saturating_sub)
    ultimately show ?thesis using k(3,4) by blast
  qed
  have short: "summarize_payload cr payload limit = s" if "length s \<le> unat limit"
    using that by (simp add: summarize_payload_def Let_def s_def)
  have "length (summarize_payload cr payload limit) \<le> unat limit" if "3 \<le> unat limit"
  proof (cases "length s \<le> unat limit")
    case False
    with long obtain k where "summarize_payload cr payload limit = concat (take k (chars s)) @ ''...''"
      "length (concat (take k (chars s))) \<le> unat limit - 3" by auto
    then show ?thesis using that by simp
  qed (use short in simp)
  with long short show ?thesis by blast
qed

theorem summary_is_longest_prefix_witness:
  "summarize_payload (demo_crates\<lparr>json_to_string := \<lambda>_. ''abc'' @ [CHR 0xC3, CHR 0xA9] @ ''defgh''\<rparr>) JNull 7 = ''abc...''
   \<and> length (summarize_payload (demo_crates\<lparr>json_to_string := \<lambda>_. ''abc'' @ [CHR 0xC3, CHR 0xA9] @ ''defgh''\<rparr>) JNull 7) \<le> 7"
proof -
  have "3 \<le> unat (7 :: usize)" by simp
  with summary_is_longest_prefix [of "demo_crates\<lparr>json_to_string := \<lambda>_. ''abc'' @ [CHR 0xC3, CHR 0xA9] @ ''defgh''\<rparr>" JNull 7]
  have "length (summarize_payload (demo_crates\<lparr>json_to_string := \<lambda>_. ''abc'' @ [CHR 0xC3, CHR 0xA9] @ ''defgh''\<rparr>) JNull 7) \<le> 7"
    by simp
  moreover have "summarize_payload (demo_crates\<lparr>json_to_string := \<lambda>_. ''abc'' @ [CHR 0xC3, CHR 0xA9] @ ''defgh''\<rparr>) JNull 7 = ''abc...''"
    by code_simp
  ultimately show ?thesis by blast
qed

subsection \<open>Retries\<close>

text \<open>
  What both retry loops share: an attempt is accepted, given up, or tried again after a pause, and
  the last attempt is never tried again.
\<close>

datatype verdict = Accepted | GiveUp string | Again

fun answer :: "verdict \<Rightarrow> unit result" where
  "answer Accepted = Inr ()"
| "answer (GiveUp e) = Inl e"
| "answer Again = Inl []"

text \<open>The calls of a loop that starts at attempt \<open>i\<close> and stops at attempt \<open>k\<close>.\<close>

definition retry_trace :: "(nat \<Rightarrow> u64) \<Rightarrow> nat \<Rightarrow> nat \<Rightarrow> forward_event list" where
  "retry_trace pause i k = concat (map (\<lambda>j. [Post j, Pause (pause j)]) [i..<k]) @ [Post k]"

locale retry_loop =
  fixes run :: "nat list \<Rightarrow> unit result \<times> forward_event list"
    and verdict :: "nat \<Rightarrow> verdict" and pause :: "nat \<Rightarrow> u64" and last_attempt :: nat
  assumes step: "run (a # as) = (case verdict a of
      Again \<Rightarrow> (fst (run as), Post a # Pause (pause a) # snd (run as))
    | v \<Rightarrow> (answer v, [Post a]))"
    and bounded: "verdict last_attempt \<noteq> Again"
begin

lemma stops:
  assumes "i \<le> last_attempt"
  shows "\<exists>k. i \<le> k \<and> k \<le> last_attempt \<and> (\<forall>j. i \<le> j \<and> j < k \<longrightarrow> verdict j = Again) \<and> verdict k \<noteq> Again
     \<and> run [i..<Suc last_attempt] = (answer (verdict k), retry_trace pause i k)"
  using assms
proof (induction "last_attempt - i" arbitrary: i)
  case 0
  then have "i = last_attempt" by simp
  with bounded show ?case
    by (intro exI [of _ i]) (auto simp: step retry_trace_def split: verdict.splits)
next
  case (Suc d)
  then have lt: "i < last_attempt" by simp
  then have unfold: "[i..<Suc last_attempt] = i # [Suc i..<Suc last_attempt]" by (simp add: upt_rec)
  show ?case
  proof (cases "verdict i = Again")
    case True
    obtain k where k: "Suc i \<le> k" "k \<le> last_attempt" "\<forall>j. Suc i \<le> j \<and> j < k \<longrightarrow> verdict j = Again"
      "verdict k \<noteq> Again" "run [Suc i..<Suc last_attempt] = (answer (verdict k), retry_trace pause (Suc i) k)"
      using Suc.hyps(1) [of "Suc i"] Suc.hyps(2) lt by (metis Suc_leI diff_Suc_Suc Suc_diff_Suc nat.inject)
    have "verdict j = Again" if "i \<le> j \<and> j < k" for j
      using that True k(3) by (cases "j = i") auto
    moreover have "run [i..<Suc last_attempt] = (answer (verdict k), retry_trace pause i k)"
      unfolding unfold step using True k(1,5) by (simp add: retry_trace_def upt_rec [of i])
    ultimately show ?thesis using k by (intro exI [of _ k]) auto
  next
    case False
    then show ?thesis
      unfolding unfold step using lt
      by (intro exI [of _ i]) (auto simp: retry_trace_def split: verdict.splits)
  qed
qed

end

definition openclaw_verdict :: "(nat \<Rightarrow> forward_error_kind + unit) \<Rightarrow> openclaw_target \<Rightarrow> nat \<Rightarrow> verdict" where
  "openclaw_verdict once target attempt =
     (case once attempt of
        Inr _ \<Rightarrow> Accepted
      | Inl (Permanent message) \<Rightarrow> GiveUp (''forward failed permanently: '' @ message)
      | Inl (Retryable message) \<Rightarrow>
          if unat (oct_max_retries target) \<le> attempt
          then GiveUp (''forward failed after '' @ show_nat attempt @ '' attempts: '' @ message) else Again)"

definition openclaw_pause :: "openclaw_target \<Rightarrow> nat \<Rightarrow> u64" where
  "openclaw_pause target attempt = retry_backoff_seconds (oct_backoff_base_seconds target)
     (oct_backoff_max_seconds target) (saturating_sub (of_nat attempt) 1)"

interpretation openclaw: retry_loop "forward_loop once target" "openclaw_verdict once target"
  "openclaw_pause target" "unat (oct_max_retries target)" for once target
  by unfold_locales
     (auto simp: openclaw_verdict_def openclaw_pause_def Let_def split: sum.splits forward_error_kind.splits prod.splits)

definition client_verdict :: "(nat \<Rightarrow> unit result) \<Rightarrow> nat \<Rightarrow> nat \<Rightarrow> verdict" where
  "client_verdict once limit attempt =
     (case once attempt of Inr _ \<Rightarrow> Accepted | Inl error \<Rightarrow> if attempt < limit then Again else GiveUp error)"

interpretation client: retry_loop "send_loop once client limit" "client_verdict once limit"
  "\<lambda>_. wcl_retry_backoff_ms client" limit for once client limit
  by unfold_locales (auto simp: client_verdict_def Let_def split: sum.splits prod.splits)

lemma openclaw_pause_le: "unat (openclaw_pause target j) \<le> unat (oct_backoff_max_seconds target)"
  by (simp add: openclaw_pause_def backoff_copies unat_retry_backoff_ms)

text \<open>C21. Forwarding to OpenClaw is a bounded retry: with at least one attempt allowed there is an attempt
  \<open>k\<close> within the limit such that every earlier one failed in a retryable way and was followed by
  its capped back-off, nothing is posted after \<open>k\<close>, and the forward succeeds exactly when
  attempt \<open>k\<close> got a success; it stops short of the limit only on a success or a permanent failure.\<close>

theorem openclaw_forward_exact:
  assumes "0 < oct_max_retries target"
  shows "\<exists>k. 1 \<le> k \<and> k \<le> unat (oct_max_retries target)
     \<and> (\<forall>j. 1 \<le> j \<and> j < k \<longrightarrow> (\<exists>m. forward_once cr io target envelope j = Inl (Retryable m)))
     \<and> snd (forward_with_retry cr io target envelope) = retry_trace (openclaw_pause target) 1 k
     \<and> (\<forall>j. unat (openclaw_pause target j) \<le> unat (oct_backoff_max_seconds target))
     \<and> (fst (forward_with_retry cr io target envelope) = Inr () \<longleftrightarrow> forward_once cr io target envelope k = Inr ())
     \<and> (k < unat (oct_max_retries target) \<longrightarrow> (\<nexists>m. forward_once cr io target envelope k = Inl (Retryable m)))"
proof -
  let ?once = "forward_once cr io target envelope"
  have "1 \<le> unat (oct_max_retries target)" using assms by (simp add: word_less_nat_alt)
  then obtain k where k: "1 \<le> k" "k \<le> unat (oct_max_retries target)"
    "\<forall>j. 1 \<le> j \<and> j < k \<longrightarrow> openclaw_verdict ?once target j = Again" "openclaw_verdict ?once target k \<noteq> Again"
    "forward_with_retry cr io target envelope =
       (answer (openclaw_verdict ?once target k), retry_trace (openclaw_pause target) 1 k)"
    using openclaw.stops [of 1 target ?once] by (auto simp: forward_with_retry_def)
  have again: "\<exists>m. ?once j = Inl (Retryable m)" if "openclaw_verdict ?once target j = Again" for j
    using that by (auto simp: openclaw_verdict_def split: sum.splits forward_error_kind.splits if_splits)
  have result: "answer (openclaw_verdict ?once target k) = Inr () \<longleftrightarrow> ?once k = Inr ()"
    using k(4) by (auto simp: openclaw_verdict_def split: sum.splits forward_error_kind.splits if_splits)
  have "\<nexists>m. ?once k = Inl (Retryable m)" if "k < unat (oct_max_retries target)"
    using k(4) that by (auto simp: openclaw_verdict_def)
  with k again result openclaw_pause_le show ?thesis by (intro exI [of _ k]) simp
qed

definition demo_target :: openclaw_target where
  "demo_target = \<lparr>oct_adapter_id = ''openclaw-output'', oct_webhook_url = ''http://openclaw/hook'',
     oct_webhook_token = ''t'', oct_message_max_bytes = 4000, oct_http_timeout_seconds = 20, oct_max_retries = 5,
     oct_backoff_base_seconds = 1, oct_backoff_max_seconds = 30\<rparr>"

definition demo_io :: egress_io where
  "demo_io = \<lparr>io_env = (\<lambda>_. Some ''token''), io_build_client = True, io_create_producer = (\<lambda>_. True), io_create_consumer = (\<lambda>_. True),
     io_subscribe = (\<lambda>_. True), io_bind = (\<lambda>_. True), io_route_ok = starts_with ''/'',
     io_http = (\<lambda>attempt _. if attempt < 3 then HttpStatus 503 ''503'' else HttpStatus 200 ''200''),
     io_ser_envelope = (\<lambda>envelope. Some (ev_id envelope)), io_envelope_json = (\<lambda>_. JNull),
     io_kafka_send = (\<lambda>_ _ _. Inr ()), io_request = (\<lambda>_ _. Inr ()),
     io_ws_send = (\<lambda>attempt _ _ _. if attempt < 2 then Inl ''refused'' else Inr ()),
     io_broadcast = (\<lambda>_ _. Inl ''no receivers''), io_spawn = (\<lambda>_ _ _. None)\<rparr>"

lemma demo_forward_once:
  "forward_once cr demo_io target envelope j =
     (if j < 3 then Inl (Retryable ''OpenClaw returned 503'') else Inr ())"
  by (simp add: forward_once_def demo_io_def)

theorem openclaw_forward_exact_witness:
  "fst (forward_with_retry demo_crates demo_io demo_target (demo_event ''good'')) = Inr ()
   \<and> snd (forward_with_retry demo_crates demo_io demo_target (demo_event ''good'')) = [Post 1, Pause 1, Post 2, Pause 2, Post 3]"
proof -
  have pos: "0 < oct_max_retries demo_target" and five: "unat (oct_max_retries demo_target) = 5"
    by (simp_all add: demo_target_def)
  let ?run = "forward_with_retry demo_crates demo_io demo_target (demo_event ''good'')"
  let ?once = "forward_once demo_crates demo_io demo_target (demo_event ''good'')"
  obtain k where k: "\<forall>j. 1 \<le> j \<and> j < k \<longrightarrow> (\<exists>m. ?once j = Inl (Retryable m))"
    "snd ?run = retry_trace (openclaw_pause demo_target) 1 k" "fst ?run = Inr () \<longleftrightarrow> ?once k = Inr ()"
    "k < unat (oct_max_retries demo_target) \<longrightarrow> (\<nexists>m. ?once k = Inl (Retryable m))"
    using openclaw_forward_exact [OF pos, of demo_crates demo_io "demo_event ''good''"] by blast
  have "\<not> 3 < k" using spec [OF k(1), of 3] by (simp add: demo_forward_once)
  moreover have "\<not> k < 3" using k(4) by (auto simp: five demo_forward_once)
  ultimately have "k = 3" by simp
  moreover have "retry_trace (openclaw_pause demo_target) 1 3 = [Post 1, Pause 1, Post 2, Pause 2, Post 3]" by code_simp
  ultimately show ?thesis using k(2,3) by (simp add: demo_forward_once)
qed

subsection \<open>Building the adapters\<close>

lemma build_runtime_loop_ok:
  assumes "build_runtime_loop io c as by_id = Inr rt" "btree_wf by_id"
  shows "btree_wf rt \<and> set (map fst rt) = set (map fst by_id) \<union> adapter_id ` set as
     \<and> (\<forall>k v. map_of by_id k = Some v \<longrightarrow> map_of rt k = Some v)
     \<and> (\<forall>a \<in> set as. \<exists>r. build_runtime_adapter io c a = Inr r \<and> map_of rt (adapter_id a) = Some r)"
  using assms
proof (induction io c as by_id rule: build_runtime_loop.induct)
  case (2 io c a as by_id)
  from 2(2) obtain r where r: "build_runtime_adapter io c a = Inr r" "map_of by_id (adapter_id a) = None"
    and rest: "build_runtime_loop io c as (btree_insert (adapter_id a) r by_id) = Inr rt"
    by (auto simp: and_then_Inr_iff split: if_splits)
  have wf: "btree_wf (btree_insert (adapter_id a) r by_id)" using 2(3) by (rule btree_wf_insert)
  have "\<not> map_of by_id (adapter_id a) \<noteq> None" using r(2) by simp
  note IH = 2(1) [OF this rest wf]
  have keep: "map_of rt k = Some v" if "map_of by_id k = Some v" for k v
  proof -
    have "k \<noteq> adapter_id a" using that r(2) by auto
    then show ?thesis using IH that by (simp add: map_of_btree_insert)
  qed
  have "map_of rt (adapter_id a) = Some r" using IH by (simp add: map_of_btree_insert)
  with IH keep r(1) keys_btree_insert [of "adapter_id a" r by_id] show ?case by auto
qed auto

text \<open>
  What a loaded configuration leaves to the environment of the process: the tokens of the outputs,
  the modes of the websocket servers and of the HTTP transports, the clients and the ports.
\<close>

definition token_ready :: "egress_io \<Rightarrow> string \<Rightarrow> string option \<Rightarrow> bool" where
  "token_ready io auth_mode token_env \<longleftrightarrow>
     (let mode = to_ascii_lowercase (trim auth_mode)
      in mode = ''none''
         \<or> (mode = ''bearer'' \<or> mode = ''hmac'')
           \<and> (case token_env of None \<Rightarrow> False | Some name \<Rightarrow> (case io_env io name of None \<Rightarrow> False | Some t \<Rightarrow> \<not> blank t)))"

fun adapter_ready :: "egress_io \<Rightarrow> smash_config \<Rightarrow> smash_adapter \<Rightarrow> bool" where
  "adapter_ready io c (OpenclawHttpOutput i url token_env timeout_seconds max_retries plugins) =
     (io_build_client io \<and> (case io_env io token_env of None \<Rightarrow> False | Some t \<Rightarrow> \<not> blank t))"
| "adapter_ready io c (KafkaOutput i topic key_mode plugins) = io_create_producer io (output_client_settings c)"
| "adapter_ready io c (WebsocketClientOutput i url auth_mode token_env send_timeout retries backoff plugins) =
     token_ready io auth_mode token_env"
| "adapter_ready io c (WebsocketServerOutput i bind path auth_mode token_env max_clients depth send_timeout plugins) =
     (token_ready io auth_mode token_env \<and> \<not> websocket_server_panics io path depth \<and> io_bind io bind)"
| "adapter_ready io c (McpToolOutput i tool transport_ref plugins) =
     (\<forall>t \<in> set (smash_transports c). case t of
        HttpSse name url auth_mode token_env \<Rightarrow> name = transport_ref \<longrightarrow> token_ready io auth_mode token_env
      | StdioJsonrpc name command args env \<Rightarrow> True)"

lemma resolve_ready: "token_ready io auth_mode token_env \<longleftrightarrow> (\<exists>t. resolve_optional_auth_token io auth_mode token_env = Inr t)"
  by (auto simp: token_ready_def resolve_optional_auth_token_def egress_required_env_def Let_def ok_or_def
      split: option.splits if_splits)

lemma map_of_collect_self:
  "t \<in> set ts \<Longrightarrow> \<exists>t' \<in> set ts. map_of (btree_collect (map (\<lambda>t. (f t, t)) ts)) (f t) = Some t' \<and> f t' = f t"
proof -
  assume "t \<in> set ts"
  then have "map_of (rev (map (\<lambda>t. (f t, t)) ts)) (f t) \<noteq> None" by (simp add: map_of_eq_None_iff image_image)
  then obtain t' where t': "map_of (rev (map (\<lambda>t. (f t, t)) ts)) (f t) = Some t'" by blast
  from map_of_SomeD [OF this] have "t' \<in> set ts" "f t' = f t" by auto
  with t' show ?thesis by (auto simp: map_of_btree_collect)
qed

lemma build_ready:
  assumes "validate_smash_adapter (smash_transports c) a = Inr ()" "adapter_ready io c a"
  shows "\<exists>r. build_runtime_adapter io c a = Inr r"
proof (cases a)
  case (McpToolOutput i tool ref plugins)
  with assms(1) obtain t where t: "t \<in> set (smash_transports c)" "transport_name t = ref"
    by (auto simp: validate_smash_adapter_def Let_def result_iffs)
  with map_of_collect_self [of t "smash_transports c" transport_name] obtain t' where
    t': "t' \<in> set (smash_transports c)" "transport_name t' = ref"
    "map_of (btree_collect (map (\<lambda>t. (transport_name t, t)) (smash_transports c))) ref = Some t'" by auto
  show ?thesis
  proof (cases t')
    case (HttpSse name url mode tok)
    with t' assms(2) McpToolOutput have "token_ready io mode tok" by auto
    then obtain x where "resolve_optional_auth_token io mode tok = Inr x" unfolding resolve_ready by blast
    with HttpSse t' McpToolOutput show ?thesis by (simp add: build_runtime_adapter_def)
  qed (use t' McpToolOutput in \<open>simp add: build_runtime_adapter_def\<close>)
qed (use assms(2) in \<open>auto simp: build_runtime_adapter_def resolve_ready ensure_def egress_required_env_def ok_or_def
       split: option.splits\<close>)

lemma build_loop_ready:
  assumes "\<forall>a \<in> set as. \<exists>r. build_runtime_adapter io c a = Inr r" "distinct (map adapter_id as)"
    "set (map fst by_id) \<inter> adapter_id ` set as = {}"
  shows "\<exists>rt. build_runtime_loop io c as by_id = Inr rt"
  using assms
proof (induction as arbitrary: by_id)
  case (Cons a as)
  from Cons.prems(1) obtain r where r: "build_runtime_adapter io c a = Inr r" by auto
  have none: "map_of by_id (adapter_id a) = None" using Cons.prems(3) by (auto simp: map_of_eq_None_iff)
  have "set (map fst (btree_insert (adapter_id a) r by_id)) \<inter> adapter_id ` set as = {}"
    using Cons.prems(2,3) unfolding keys_btree_insert by auto
  with Cons.IH [of "btree_insert (adapter_id a) r by_id"] Cons.prems r none show ?case by simp
qed simp

text \<open>The adapters of the running consumer are exactly those of its configuration: when they are built,
  there is one per configured adapter, under its id and built from its own settings, and no other,
  so a route destination finds an output exactly when the configuration names it. With a loaded
  configuration they are all built whenever the environment is ready.\<close>

theorem runtime_adapters_exact:
  assumes "smash_from_env sc e = Inr c"
  shows "(\<forall>rt. build_runtime_adapters io c = Inr rt \<longrightarrow>
            btree_wf rt \<and> set (map fst rt) = set (con_adapters (consumer_from_config c))
            \<and> (\<forall>a \<in> set (smash_adapters c).
                 \<exists>r. build_runtime_adapter io c a = Inr r \<and> map_of rt (adapter_id a) = Some r))
     \<and> ((\<forall>a \<in> set (smash_adapters c). adapter_ready io c a) \<longrightarrow> (\<exists>rt. build_runtime_adapters io c = Inr rt))"
proof -
  note wf = smash_from_env_wf [OF assms]
  have "\<exists>rt. build_runtime_adapters io c = Inr rt" if "\<forall>a \<in> set (smash_adapters c). adapter_ready io c a"
    unfolding build_runtime_adapters_def
    by (rule build_loop_ready) (use wf that build_ready in \<open>auto simp: smash_config_wf_def\<close>)
  moreover have "btree_wf ([] :: (string \<times> runtime_adapter) list)" by (simp add: btree_wf_def)
  ultimately show ?thesis
    using build_runtime_loop_ok [of io c "smash_adapters c" "[]"]
    by (auto simp: build_runtime_adapters_def consumer_from_config_def)
qed

lemma demo_io_fields:
  "io_env demo_io name = Some ''token''" "io_build_client demo_io" "io_create_producer demo_io settings"
  by (simp_all add: demo_io_def)

theorem runtime_adapters_exact_witness:
  "\<exists>rt. build_runtime_adapters demo_io demo_smash_config = Inr rt \<and> fst ` set rt = {''openclaw-output''}"
proof -
  have adapters: "smash_adapters demo_smash_config =
      [OpenclawHttpOutput ''openclaw-output'' ''http://openclaw/hook'' ''OPENCLAW_WEBHOOK_TOKEN'' 20 5 []]" by code_simp
  have "\<not> blank ''token''" by code_simp
  then have "\<forall>a \<in> set (smash_adapters demo_smash_config). adapter_ready demo_io demo_smash_config a"
    by (simp add: adapters demo_io_fields)
  with runtime_adapters_exact [OF demo_smash_loaded, of demo_io] show ?thesis
    by (force simp: consumer_from_config_def adapters)
qed

text \<open>Two outputs pass every check and never deliver. A \<open>kafka_output\<close> whose key mode has white space
  around it is validated by its trimmed form, but publishing compares the untrimmed one; a websocket
  client with a padded \<open>none\<close> is built without a token, but connecting then asks for one. Every
  delivery through them is an error.\<close>

theorem padded_modes_never_deliver:
  assumes "trim key_mode \<in> {''event_id'', ''source'', ''none''}" "trim key_mode \<noteq> key_mode" "\<not> blank topic"
    and "trim auth_mode = ''none''" "auth_mode \<noteq> ''none''" "\<not> blank url" "send_timeout \<noteq> 0"
  shows "validate_smash_adapter ts (KafkaOutput i topic key_mode []) = Inr ()
    \<and> validate_smash_adapter ts (WebsocketClientOutput j url auth_mode token_env send_timeout retries backoff []) = Inr ()
    \<and> (\<forall>r. build_runtime_adapter io c (KafkaOutput i topic key_mode []) = Inr r \<longrightarrow>
           isl (runtime_deliver cr io r i envelope))
    \<and> (\<forall>r. build_runtime_adapter io c (WebsocketClientOutput j url auth_mode token_env send_timeout retries backoff []) = Inr r \<longrightarrow>
           isl (runtime_deliver cr io r j envelope))"
proof (intro conjI allI impI)
  have t: "trim ''event_id'' = ''event_id''" "trim ''source'' = ''source''" "trim ''none'' = ''none''"
    "to_ascii_lowercase ''none'' = ''none''" "''none'' \<noteq> []" by code_simp+
  show "validate_smash_adapter ts (KafkaOutput i topic key_mode []) = Inr ()"
    using assms(1,3) by (simp add: validate_smash_adapter_def Let_def result_iffs nonblank_field_def validate_smash_plugins_def)
  have "\<not> blank auth_mode" using assms(4) t(5) by (simp add: blank_def)
  then show "validate_smash_adapter ts (WebsocketClientOutput j url auth_mode token_env send_timeout retries backoff []) = Inr ()"
    using assms(4,6,7)
    by (simp add: validate_smash_adapter_def Let_def result_iffs nonblank_field_def validate_smash_plugins_def token_env_present_def)
  fix r
  have "key_mode \<noteq> ''event_id''" "key_mode \<noteq> ''source''" "key_mode \<noteq> ''none''" using assms(2) t by metis+
  then have "isl (kafka_publish io \<lparr>kout_topic = topic, kout_key_mode = key_mode\<rparr> envelope)"
    by (cases "io_ser_envelope io envelope") (simp_all add: kafka_publish_def)
  moreover assume "build_runtime_adapter io c (KafkaOutput i topic key_mode []) = Inr r"
  ultimately show "isl (runtime_deliver cr io r i envelope)"
    by (auto simp: build_runtime_adapter_def result_iffs runtime_deliver_def isl_def)
next
  have t: "to_ascii_lowercase ''none'' = ''none''" by code_simp
  fix r
  let ?client = "\<lparr>wcl_url = url, wcl_auth_mode = auth_mode, wcl_auth_token = None, wcl_send_timeout_ms = send_timeout,
    wcl_retry_max_retries = retries, wcl_retry_backoff_ms = backoff\<rparr>"
  assume "build_runtime_adapter io c (WebsocketClientOutput j url auth_mode token_env send_timeout retries backoff []) = Inr r"
  then have r: "r = RtWebsocketClient ?client"
    using assms(4) t by (simp add: build_runtime_adapter_def resolve_optional_auth_token_def Let_def)
  have fail: "isl (fst (send_loop (send_once io ?client payload) ?client n as))" for payload n as
    using assms(5) by (induction as) (auto simp: send_once_def build_websocket_request_def split: prod.splits)
  have "isl (fst (websocket_send io ?client envelope))"
    using fail by (auto simp: websocket_send_def Let_def split: option.splits)
  then show "isl (runtime_deliver cr io r j envelope)"
    by (auto simp: r runtime_deliver_def isl_def)
qed

theorem padded_modes_never_deliver_witness:
  "isl (runtime_deliver demo_crates demo_io (RtKafkaOutput \<lparr>kout_topic = ''out'', kout_key_mode = '' source''\<rparr>) ''k'' (demo_event ''e1''))"
proof -
  have "trim '' source'' \<in> {''event_id'', ''source'', ''none''}" "trim '' source'' \<noteq> '' source''" "\<not> blank ''out''"
    "trim '' none'' = ''none''" "'' none'' \<noteq> ''none''" "\<not> blank ''ws://x''" "(1000 :: u64) \<noteq> 0" by code_simp+
  from padded_modes_never_deliver [OF this, of "[]" "''k''" "''w''" None 3 100 demo_io demo_smash_config demo_crates "demo_event ''e1''"]
  show ?thesis by (simp add: build_runtime_adapter_def demo_io_fields ensure_def)
qed

end
