(* ===== verification/Smash_Run.thy ===== *)
theory Smash_Run
  imports Egress
begin

section \<open>The running consumer\<close>

text \<open>
  \<open>run_from_env\<close> of \<open>crates/hook-runtime/src/smash/mod.rs\<close> and the set-up of the consumer in
  \<open>consumer.rs\<close> and \<open>dlq.rs\<close>: the configuration, the dead-letter producer, the subscription, the
  output adapters, then the loop over the received messages with those adapters as its outputs.
  What the outside answers may change with every call, so it is given by the trace so far.
\<close>

definition consumer_client_settings :: "smash_config \<Rightarrow> (string \<times> string) list" where
  "consumer_client_settings c =
     [(''bootstrap.servers'', sc_kafka_brokers c), (''group.id'', sc_kafka_group_id c),
      (''enable.auto.commit'', ''false''), (''auto.offset.reset'', ''latest''),
      (''security.protocol'', sc_kafka_security_protocol c)] @ sasl_settings c"

definition kafka_consumer_from_config :: "egress_io \<Rightarrow> smash_config \<Rightarrow> (string \<times> runtime_adapter) list result" where
  "kafka_consumer_from_config io c =
     and_then (ensure (io_create_consumer io (consumer_client_settings c)) ''create kafka stream consumer'') (\<lambda>_.
     and_then (ensure (io_subscribe io (sc_kafka_topics c)) (''subscribe to topics: '' @ join '','' (sc_kafka_topics c))) (\<lambda>_.
       build_runtime_adapters io c))"

definition dlq_from_config :: "egress_io \<Rightarrow> smash_config \<Rightarrow> string result" where
  "dlq_from_config io c =
     and_then (ensure (io_create_producer io (output_client_settings c)) ''create dlq producer'') (\<lambda>_. Inr (dlq_topic c))"

definition runtime_world ::
  "crates \<Rightarrow> (trace \<Rightarrow> egress_io) \<Rightarrow> (string \<times> runtime_adapter) list \<Rightarrow> world \<Rightarrow> world" where
  "runtime_world cr io adapters w =
     w\<lparr>w_deliver := \<lambda>tr aid envelope.
         (case map_of adapters aid of
            None \<Rightarrow> Inl (''no adapter configured for '' @ quoted aid)
          | Some adapter \<Rightarrow> runtime_deliver cr (io tr) adapter aid envelope)\<rparr>"

text \<open>The loop never returns; \<open>received\<close> is any finite part of what it receives.\<close>

definition run_from_env ::
  "crates \<Rightarrow> smash_crates \<Rightarrow> (string \<Rightarrow> event_envelope option) \<Rightarrow> (trace \<Rightarrow> egress_io) \<Rightarrow> world \<Rightarrow>
     kafka_message option list \<Rightarrow> (smash_config \<times> (string \<times> runtime_adapter) list \<times> trace) result" where
  "run_from_env cr sc de io w received =
     and_then (with_context ''load smash config'' (smash_from_env sc (io_env (io [])))) (\<lambda>config.
     and_then (with_context ''initialize dlq producer'' (dlq_from_config (io []) config)) (\<lambda>_.
     and_then (with_context ''initialize smash consumer'' (kafka_consumer_from_config (io []) config)) (\<lambda>adapters.
       Inr (config, adapters,
            consumer_run cr de (runtime_world cr io adapters w) (consumer_from_config config) received []))))"

subsection \<open>What a delivery means for the peer\<close>

definition success_status :: "http_answer \<Rightarrow> bool" where
  "success_status response = (case response of HttpStatus code _ \<Rightarrow> 200 \<le> code \<and> code < 300 | HttpError _ _ \<Rightarrow> False)"

text \<open>The answer of the peer that makes a delivery count.\<close>

definition bearer_header :: "string \<Rightarrow> string option \<Rightarrow> string option" where
  "bearer_header auth_mode token = (if auth_mode = ''none'' then None else map_option (\<lambda>t. ''Bearer '' @ t) token)"

definition mcp_arguments :: "egress_io \<Rightarrow> mcp_tool_output \<Rightarrow> event_envelope \<Rightarrow> json" where
  "mcp_arguments io out envelope = obj [(''envelope'', io_envelope_json io envelope)]"

text \<open>The peer accepted the envelope itself: in each clause the request, record, frame or line is the one
  built from it, with the credentials of the output.\<close>

fun peer_accepts :: "crates \<Rightarrow> egress_io \<Rightarrow> runtime_adapter \<Rightarrow> string \<Rightarrow> event_envelope \<Rightarrow> bool" where
  "peer_accepts cr io (RtOpenclaw target) aid envelope =
     (\<exists>k. 1 \<le> k \<and> k \<le> unat (oct_max_retries target) \<and>
        success_status (io_http io k
          \<lparr>req_url = oct_webhook_url target, req_authorization = Some (''Bearer '' @ oct_webhook_token target),
           req_body = mapped_hook_payload cr target envelope\<rparr>))"
| "peer_accepts cr io (RtKafkaOutput out) aid envelope =
     (\<exists>payload. io_ser_envelope io envelope = Some payload
        \<and> io_kafka_send io (kout_topic out)
            (if kout_key_mode out = ''event_id'' then Some (ev_id envelope)
             else if kout_key_mode out = ''source'' then Some (ev_source envelope) else None) payload = Inr ())"
| "peer_accepts cr io (RtWebsocketClient client) aid envelope =
     (\<exists>payload k. io_ser_envelope io envelope = Some payload
        \<and> io_ws_send io k (wcl_url client) (bearer_header (wcl_auth_mode client) (wcl_auth_token client)) payload = Inr ())"
| "peer_accepts cr io (RtWebsocketServer mode token max_clients depth timeout) aid envelope =
     (\<exists>payload. io_ser_envelope io envelope = Some payload \<and> io_broadcast io aid payload = Inr ())"
| "peer_accepts cr io (RtMcpTool out) aid envelope =
     (case mcpo_transport out of
        SseTransport url auth_mode token \<Rightarrow>
          success_status (io_http io 1
            \<lparr>req_url = url, req_authorization = bearer_header auth_mode token,
             req_body = obj [(''tool'', JString (mcpo_tool_name out)), (''arguments'', mcp_arguments io out envelope)]\<rparr>)
      | StdioTransport command args e \<Rightarrow>
          (\<exists>child display. io_spawn io command args e = Some child
             \<and> ch_wait child (json_to_string cr (obj [(''jsonrpc'', JString ''2.0''), (''id'', JString ''hook-smash''),
                   (''method'', JString ''tools/call''),
                   (''params'', obj [(''name'', JString (mcpo_tool_name out)), (''arguments'', mcp_arguments io out envelope)])])
                 @ [CHR 0x0A]) = Exited True display))"

lemma map_err_Inr_iff: "(case r of Inl e \<Rightarrow> Inl (f e) | Inr u \<Rightarrow> Inr ()) = Inr () \<longleftrightarrow> r = Inr ()"
  by (cases r) auto

lemma unit_result: "\<not> isl r \<longleftrightarrow> r = Inr ()"
  by (cases r) auto

lemma bearer_authorization:
  "(if auth_mode \<noteq> ''none'' then and_then (ok_or m token) (\<lambda>t. Inr (Some (''Bearer '' @ t))) else Inr None) = Inr a \<Longrightarrow>
     a = bearer_header auth_mode token"
  by (auto simp: result_iffs bearer_header_def split: if_splits)

lemma forward_once_accepts:
  "forward_once cr io target envelope k = Inr () \<longleftrightarrow>
     success_status (io_http io k
       \<lparr>req_url = oct_webhook_url target, req_authorization = Some (''Bearer '' @ oct_webhook_token target),
        req_body = mapped_hook_payload cr target envelope\<rparr>)"
  by (auto simp: forward_once_def success_status_def split: http_answer.splits if_splits)

lemma forward_loop_accepts:
  "fst (forward_loop once target ks) = Inr () \<Longrightarrow> \<exists>k \<in> set ks. once k = Inr ()"
  by (induction ks) (auto simp: Let_def split: sum.splits forward_error_kind.splits if_splits prod.splits)

lemma send_loop_accepts:
  "fst (send_loop once client n ks) = Inr () \<Longrightarrow> \<exists>k \<in> set ks. once k = Inr ()"
  by (induction ks) (auto simp: Let_def split: sum.splits if_splits prod.splits)

lemma send_once_accepts:
  "send_once io client payload k = Inr () \<Longrightarrow>
     io_ws_send io k (wcl_url client) (bearer_header (wcl_auth_mode client) (wcl_auth_token client)) payload = Inr ()"
proof -
  assume "send_once io client payload k = Inr ()"
  then obtain a where a: "build_websocket_request io (wcl_url client) (wcl_auth_mode client) (wcl_auth_token client) = Inr a"
    "io_ws_send io k (wcl_url client) a payload = Inr ()" by (auto simp: send_once_def result_iffs)
  from a(1) have "a = bearer_header (wcl_auth_mode client) (wcl_auth_token client)"
    unfolding build_websocket_request_def and_then_Inr_iff using bearer_authorization by (fastforce split: sum.splits)
  with a(2) show ?thesis by simp
qed

lemma kafka_publish_accepts:
  "kafka_publish io out envelope = Inr () \<Longrightarrow> peer_accepts cr io (RtKafkaOutput out) aid envelope"
  by (auto simp: kafka_publish_def result_iffs map_err_Inr_iff split: if_splits)

lemma mcp_status_iff:
  "(case response of HttpError r e \<Rightarrow> Inl m | HttpStatus code display \<Rightarrow>
      ensure (200 \<le> code \<and> code < 300) (''mcp http_sse returned status '' @ display)) = Inr ()
    \<longleftrightarrow> success_status response"
  by (simp add: success_status_def ensure_Inr_iff split: http_answer.splits)

lemma mcp_call_accepts:
  "mcp_call cr io out envelope = Inr () \<Longrightarrow> peer_accepts cr io (RtMcpTool out) aid envelope"
proof -
  assume ok: "mcp_call cr io out envelope = Inr ()"
  show ?thesis
  proof (cases "mcpo_transport out")
    case (SseTransport url mode token)
    show ?thesis
    proof (cases "mode = ''none''")
      case True
      with ok SseTransport show ?thesis
        by (simp add: mcp_call_def mcp_arguments_def Let_def mcp_status_iff bearer_header_def split: if_splits)
    next
      case False
      with ok SseTransport show ?thesis
        by (auto simp: mcp_call_def mcp_arguments_def Let_def mcp_status_iff bearer_header_def and_then_Inr_iff ok_or_Inr_iff
            split: if_splits)
    qed
  qed (use ok in \<open>auto simp: mcp_call_def mcp_arguments_def Let_def result_iffs split: option.splits wait_outcome.splits\<close>)
qed

lemma deliver_accepts:
  assumes "runtime_deliver cr io a aid envelope = Inr ()"
  shows "peer_accepts cr io a aid envelope"
proof (cases a)
  case (RtOpenclaw target)
  with assms have "fst (forward_with_retry cr io target envelope) = Inr ()"
    by (simp add: runtime_deliver_def with_context_Inr_iff)
  then obtain k where "k \<in> set [1..<Suc (unat (oct_max_retries target))]" "forward_once cr io target envelope k = Inr ()"
    unfolding forward_with_retry_def using forward_loop_accepts by blast
  then show ?thesis unfolding RtOpenclaw peer_accepts.simps forward_once_accepts by (intro exI [of _ k]) auto
next
  case (RtKafkaOutput out)
  with assms kafka_publish_accepts show ?thesis by (simp add: runtime_deliver_def with_context_Inr_iff)
next
  case (RtWebsocketClient client)
  with assms have "fst (websocket_send io client envelope) = Inr ()"
    by (simp add: runtime_deliver_def with_context_Inr_iff)
  then show ?thesis unfolding RtWebsocketClient
    by (auto simp: websocket_send_def Let_def dest!: send_loop_accepts send_once_accepts split: option.splits)
next
  case (RtWebsocketServer mode token max_clients depth timeout)
  with assms show ?thesis
    by (auto simp: runtime_deliver_def result_iffs broadcast_def map_err_Inr_iff)
next
  case (RtMcpTool out)
  with assms mcp_call_accepts show ?thesis by (simp add: runtime_deliver_def with_context_Inr_iff)
qed

subsection \<open>Traces tell the truth\<close>

text \<open>Each delivery of a trace carries the answer of the output at that moment.\<close>

definition honest :: "world \<Rightarrow> trace \<Rightarrow> bool" where
  "honest w tr \<longleftrightarrow> (\<forall>i < length tr. case tr ! i of
     Deliver aid env b \<Rightarrow> b = (w_deliver w (take i tr) aid env = Inr ()) | _ \<Rightarrow> True)"

lemma honest_Nil [simp]: "honest w []"
  by (simp add: honest_def)

lemma honest_snoc [simp]:
  "honest w (tr @ [x]) \<longleftrightarrow>
     honest w tr \<and> (case x of Deliver aid env b \<Rightarrow> b = (w_deliver w tr aid env = Inr ()) | _ \<Rightarrow> True)"
  by (simp add: honest_def All_less_Suc nth_append conj_commute cong: effect.case_cong)

lemma deliver_destination_honest:
  "honest w tr \<Longrightarrow> honest w (snd (deliver_destination cr w con aid env tr))"
  by (auto simp: deliver_destination_def Let_def unit_result split: sum.splits)

lemma publish_failed_honest: "honest w tr \<Longrightarrow> honest w (snd (publish_failed w con env reason tr))"
  by (auto simp: publish_failed_def Let_def split: option.splits sum.splits)

lemma handle_no_output_honest: "honest w tr \<Longrightarrow> honest w (snd (handle_no_output w con env reason tr))"
  using publish_failed_honest [of w tr con env reason]
  by (auto simp: handle_no_output_def split: option.splits no_output_sink.splits prod.splits sum.splits)

lemma deliver_required_honest: "honest w tr \<Longrightarrow> honest w (snd (deliver_required cr w con rid env ds tr))"
proof (induction ds arbitrary: tr)
  case (Cons d ds)
  obtain r1 tr1 where one: "deliver_destination cr w con (dest_adapter_id d) env tr = (r1, tr1)" by force
  then have "honest w tr1" using deliver_destination_honest [OF Cons.prems, of cr con "dest_adapter_id d" env] by simp
  with one Cons.IH [OF this] publish_failed_honest [OF this] show ?case
    by (auto simp: Let_def split: sum.splits prod.splits) (metis snd_conv)+
qed simp

lemma deliver_optional_honest: "honest w tr \<Longrightarrow> honest w (deliver_optional cr w con env ds tr)"
  by (induction ds arbitrary: tr) (simp_all add: deliver_destination_honest)

lemma deliver_routes_honest: "honest w tr \<Longrightarrow> honest w (snd (deliver_routes cr w con env rs n tr))"
proof (induction rs arbitrary: n tr)
  case (Cons r rs)
  let ?req = "filter dest_required (destinations r)"
  obtain r1 tr1 where one: "deliver_required cr w con (sroute_id r) env ?req tr = (r1, tr1)" by force
  then have "honest w tr1" using deliver_required_honest [OF Cons.prems, of cr con "sroute_id r" env ?req] by simp
  with one Cons.IH [OF deliver_optional_honest [OF this]] show ?case
    by (auto simp: Let_def split: sum.splits bool.splits)
qed simp

lemma deliver_to_routes_honest: "honest w tr \<Longrightarrow> honest w (snd (deliver_to_routes cr w con topic env tr))"
  using deliver_routes_honest [of w tr cr con env "filter (\<lambda>route. route_matches route topic (ev_type env)) (con_routes con)" 0]
  by (auto simp: deliver_to_routes_def Let_def handle_no_output_honest split: prod.splits sum.splits option.splits)

lemma process_message_honest: "honest w tr \<Longrightarrow> honest w (snd (process_message cr de w con m tr))"
proof (cases "Option.bind (msg_payload m) de")
  case None
  assume "honest w tr"
  with None show ?thesis by (auto simp: process_message_def bind_eq_None_conv split: option.splits)
next
  case (Some env)
  assume h: "honest w tr"
  obtain q tr1 where run: "deliver_to_routes cr w con (msg_topic m) env tr = (q, tr1)" by force
  with deliver_to_routes_honest [OF h, of cr con "msg_topic m" env] have "honest w tr1" by simp
  with Some run show ?thesis
    by (auto simp: process_message_def bind_eq_Some_conv split: sum.splits delivery_outcome.splits)
qed

lemma consumer_run_honest: "honest w tr \<Longrightarrow> honest w (consumer_run cr de w con received tr)"
  by (induction cr de w con received tr rule: consumer_run.induct) (simp_all add: process_message_honest)

subsection \<open>Properties\<close>

text \<open>C6. From the environment to the peer: in a run of the consumer program, a committed offset belongs to
  a received message whose envelope, as transformed by the plugins of the output, was accepted before
  the commit by the peer of every required destination of every matching route: an HTTP success from
  OpenClaw or the MCP endpoint for the request built from that envelope, an acknowledged Kafka record,
  a sent or broadcast frame with that envelope serialized, a tool process that was given the call with
  that envelope and exited with success.\<close>

theorem commits_reach_peers:
  assumes "run_from_env cr sc de io w received = Inr (c, adapters, tr)"
    and "i < length tr" "tr ! i = CommitOffset t p n"
  shows "\<exists>m env. Some m \<in> set received \<and> msg_topic m = t \<and> msg_partition m = p \<and> msg_offset m = n
     \<and> Option.bind (msg_payload m) de = Some env
     \<and> (\<forall>r \<in> set (smash_routes c). route_matches r t (ev_type env) \<longrightarrow>
          (\<forall>d \<in> set (destinations r). dest_required d \<longrightarrow>
             (\<exists>a env' j. j < i \<and> map_of adapters (dest_adapter_id d) = Some a
                \<and> apply_smash_plugins cr (dest_adapter_id d)
                     (unwrap_or [] (con_adapter_plugins (consumer_from_config c) (dest_adapter_id d))) env = Inr env'
                \<and> peer_accepts cr (io (take j tr)) a (dest_adapter_id d) env')))"
proof -
  let ?con = "consumer_from_config c" and ?w = "runtime_world cr io adapters w"
  have tr: "tr = consumer_run cr de ?w ?con received []"
    using assms(1) by (auto simp: run_from_env_def result_iffs)
  have "commits_justified cr de ?con {m. Some m \<in> set received} tr"
    unfolding tr by (rule consumer_run_justified) (auto simp: commits_justified_def)
  with assms(2,3) obtain m env where m: "Some m \<in> set received" "msg_topic m = t" "msg_partition m = p"
    "msg_offset m = n" "Option.bind (msg_payload m) de = Some env"
    and served: "required_served cr ?con (matched_routes ?con t env) env (take i tr)"
    unfolding commits_justified_def by blast
  have honest: "honest ?w tr" unfolding tr by (rule consumer_run_honest) simp
  have "\<exists>a env' j. j < i \<and> map_of adapters (dest_adapter_id d) = Some a
      \<and> apply_smash_plugins cr (dest_adapter_id d) (unwrap_or [] (con_adapter_plugins ?con (dest_adapter_id d))) env = Inr env'
      \<and> peer_accepts cr (io (take j tr)) a (dest_adapter_id d) env'"
    if r: "r \<in> set (smash_routes c)" "route_matches r t (ev_type env)" "d \<in> set (destinations r)" "dest_required d" for r d
  proof -
    let ?aid = "dest_adapter_id d"
    have "r \<in> set (matched_routes ?con t env)" using r(1,2) by (simp add: consumer_from_config_def)
    with served r(3,4) have "delivered cr ?con ?aid env (take i tr)" by (auto simp: required_served_def)
    then obtain env' where env': "apply_smash_plugins cr ?aid (unwrap_or [] (con_adapter_plugins ?con ?aid)) env = Inr env'"
      "Deliver ?aid env' True \<in> set (take i tr)" by (auto simp: delivered_def)
    then obtain j where j: "j < length tr" "j < i" "tr ! j = Deliver ?aid env' True" by (auto simp: in_set_conv_nth)
    with honest have "w_deliver ?w (take j tr) ?aid env' = Inr ()" by (force simp: honest_def)
    then obtain a where "map_of adapters ?aid = Some a" "runtime_deliver cr (io (take j tr)) a ?aid env' = Inr ()"
      by (auto simp: runtime_world_def split: option.splits)
    with j env' deliver_accepts show ?thesis by blast
  qed
  with m show ?thesis by (intro exI [of _ m] exI [of _ env]) blast
qed

definition demo_run_io :: egress_io where
  "demo_run_io = demo_io\<lparr>io_env := demo_smash_env(''OPENCLAW_WEBHOOK_TOKEN'' \<mapsto> ''t'')\<rparr>"

definition demo_run :: "(smash_config \<times> (string \<times> runtime_adapter) list \<times> trace) result" where
  "demo_run = run_from_env demo_crates demo_smash_crates (\<lambda>raw. Some (demo_event raw)) (\<lambda>_. demo_run_io) demo_world
     [None, Some (demo_message ''good'' 3)]"

lemma demo_run_trace:
  "\<exists>c adapters. demo_run = Inr (c, adapters, [Deliver ''openclaw-output'' (demo_event ''good'') True,
      CommitOffset ''webhooks.github'' 0 3]) \<and> legacy_route ''webhooks.github'' \<in> set (smash_routes c)"
proof -
  have "(case demo_run of Inl _ \<Rightarrow> False | Inr (c, _, tr) \<Rightarrow> tr = [Deliver ''openclaw-output'' (demo_event ''good'') True,
      CommitOffset ''webhooks.github'' 0 3] \<and> legacy_route ''webhooks.github'' \<in> set (smash_routes c))" by code_simp
  then show ?thesis by (auto split: sum.splits prod.splits)
qed

theorem commits_reach_peers_witness:
  "\<exists>a env. ev_id env = ''good'' \<and> peer_accepts demo_crates demo_run_io a ''openclaw-output'' env"
proof -
  let ?tr = "[Deliver ''openclaw-output'' (demo_event ''good'') True, CommitOffset ''webhooks.github'' 0 3]"
  let ?d = "\<lparr>dest_adapter_id = ''openclaw-output'', dest_required = True\<rparr>"
  obtain c adapters where run: "demo_run = Inr (c, adapters, ?tr)"
    and route: "legacy_route ''webhooks.github'' \<in> set (smash_routes c)"
    using demo_run_trace by blast
  have match: "route_matches (legacy_route ''webhooks.github'') ''webhooks.github'' (ev_type (demo_event raw))" for raw
    using demo_matched [of raw] by (auto simp: demo_consumer_eq split: if_splits)
  have i: "1 < length ?tr" "?tr ! 1 = CommitOffset ''webhooks.github'' 0 3" by simp_all
  obtain m env where m: "Some m \<in> set [None, Some (demo_message ''good'' 3)]"
    "Option.bind (msg_payload m) (\<lambda>raw. Some (demo_event raw)) = Some env"
    and all: "\<forall>r \<in> set (smash_routes c). route_matches r ''webhooks.github'' (ev_type env) \<longrightarrow>
      (\<forall>d \<in> set (destinations r). dest_required d \<longrightarrow> (\<exists>a env' j. j < (1 :: nat) \<and> map_of adapters (dest_adapter_id d) = Some a
         \<and> apply_smash_plugins demo_crates (dest_adapter_id d)
             (unwrap_or [] (con_adapter_plugins (consumer_from_config c) (dest_adapter_id d))) env = Inr env'
         \<and> peer_accepts demo_crates demo_run_io a (dest_adapter_id d) env'))"
    using commits_reach_peers [OF run [unfolded demo_run_def] i] by (elim exE conjE) (rule that)
  from m have env: "env = demo_event ''good''" by auto
  have "?d \<in> set (destinations (legacy_route ''webhooks.github''))" "dest_required ?d" by (simp_all add: legacy_destinations)
  with all route match [of "''good''"] obtain a env' where
    "apply_smash_plugins demo_crates (dest_adapter_id ?d)
       (unwrap_or [] (con_adapter_plugins (consumer_from_config c) (dest_adapter_id ?d))) env = Inr env'"
    "peer_accepts demo_crates demo_run_io a (dest_adapter_id ?d) env'" unfolding env by blast
  with apply_smash_plugins_frame [OF this(1)] show ?thesis by (auto simp: env)
qed

end
