(* ===== verification/Websocket_Server.thy ===== *)
theory Websocket_Server
  imports Egress Ingress
begin

section \<open>The websocket server output\<close>

text \<open>
  \<open>adapters/egress/websocket_server.rs\<close>: who may connect, how many clients are admitted, and what a
  client session sends. The admission is a check of a shared counter in the request handler; the
  counter is raised later, by the task that runs the session, so the server is a step relation in
  which these two moments are separate.
\<close>

record ws_server =
  wss_auth_mode :: string
  wss_auth_token :: "string option"
  wss_max_clients :: usize

text \<open>The shared counter (an \<open>AtomicUsize\<close>, which wraps), the connections admitted whose session has
  not started yet, and the sessions that run.\<close>

record server_state =
  active_clients :: usize
  upgrading :: nat
  sessions :: nat

definition server_start :: server_state where
  "server_start = \<lparr>active_clients = 0, upgrading = 0, sessions = 0\<rparr>"

text \<open>\<open>websocket_server_connect_handler\<close>: the refusal, or the upgrade.\<close>

definition connect_handler :: "ws_server \<Rightarrow> server_state \<Rightarrow> headers \<Rightarrow> response + unit" where
  "connect_handler server s headers =
     (if \<not> authorize_request headers (wss_auth_mode server) (wss_auth_token server)
      then Inl (error_response 401 ''unauthorized'')
      else if wss_max_clients server \<le> active_clients s
      then Inl (error_response 503 ''max websocket clients reached'')
      else Inr ())"

definition session_begin :: "server_state \<Rightarrow> server_state" where
  "session_begin s = s\<lparr>active_clients := active_clients s + 1, upgrading := upgrading s - 1, sessions := sessions s + 1\<rparr>"

definition session_finish :: "server_state \<Rightarrow> server_state" where
  "session_finish s = s\<lparr>active_clients := active_clients s - 1, sessions := sessions s - 1\<rparr>"

inductive server_step :: "ws_server \<Rightarrow> server_state \<Rightarrow> server_state \<Rightarrow> bool" for server where
  refuse: "connect_handler server s headers = Inl refusal \<Longrightarrow> server_step server s s"
| admit: "connect_handler server s headers = Inr () \<Longrightarrow> server_step server s (s\<lparr>upgrading := upgrading s + 1\<rparr>)"
| abandon: "0 < upgrading s \<Longrightarrow> server_step server s (s\<lparr>upgrading := upgrading s - 1\<rparr>)"
| begin_session: "0 < upgrading s \<Longrightarrow> server_step server s (session_begin s)"
| finish_session: "0 < sessions s \<Longrightarrow> server_step server s (session_finish s)"

inductive_cases server_stepE: "server_step server s s'"

text \<open>The states reached with at most \<open>window\<close> upgrades under way at any moment.\<close>

inductive reached :: "ws_server \<Rightarrow> nat \<Rightarrow> server_state \<Rightarrow> bool" for server window where
  start: "reached server window server_start"
| step: "reached server window s \<Longrightarrow> server_step server s s' \<Longrightarrow> upgrading s' \<le> window \<Longrightarrow> reached server window s'"

subsection \<open>A client session\<close>

text \<open>What \<open>select!\<close> delivers: a broadcast message with the outcome of sending it in time, a lagging or
  closed receiver, a frame of the client.\<close>

datatype session_event =
    Broadcast string bool
  | Lagged
  | ChannelClosed
  | FrameClose
  | FrameEnd
  | FrameError
  | FrameOther

fun client_session :: "session_event list \<Rightarrow> string list \<times> bool" where
  "client_session [] = ([], False)"
| "client_session (event # events) =
     (case event of
        Broadcast message sent \<Rightarrow>
          if sent then (let (messages, ended) = client_session events in (message # messages, ended)) else ([], True)
      | Lagged \<Rightarrow> client_session events
      | FrameOther \<Rightarrow> client_session events
      | _ \<Rightarrow> ([], True))"

text \<open>The events that end a session; a lagging receiver loses messages but keeps its session.\<close>

fun ends_session :: "session_event \<Rightarrow> bool" where
  "ends_session (Broadcast message sent) = (\<not> sent)"
| "ends_session Lagged = False"
| "ends_session FrameOther = False"
| "ends_session _ = True"

fun sent_message :: "session_event \<Rightarrow> string list" where
  "sent_message (Broadcast message sent) = [message]"
| "sent_message _ = []"

lemma client_session_sends:
  "client_session events =
     (concat (map sent_message (takeWhile (\<lambda>e. \<not> ends_session e) events)), \<exists>e \<in> set events. ends_session e)"
  by (induction events) (auto split: session_event.splits)

subsection \<open>The counter\<close>

lemma active_counts_sessions: "reached server window s \<Longrightarrow> active_clients s = of_nat (sessions s)"
proof (induction rule: reached.induct)
  case (step s s')
  from step.hyps(2) show ?case
    by (rule server_stepE)
       (use step.IH in \<open>auto simp: session_begin_def session_finish_def of_nat_diff gr0_conv_Suc\<close>)
qed (simp add: server_start_def)

lemma admitted_below: "connect_handler server s headers = Inr () \<Longrightarrow> active_clients s < wss_max_clients server"
  by (auto simp: connect_handler_def not_le split: if_splits)

lemma clients_in_window:
  assumes "reached server window s" "0 < wss_max_clients server" "unat (wss_max_clients server) + window \<le> 2 ^ 64"
  shows "sessions s + upgrading s < unat (wss_max_clients server) + window \<and> upgrading s \<le> window"
  using assms(1)
proof (induction rule: reached.induct)
  case start
  then show ?case using assms(2) by (simp add: server_start_def word_less_nat_alt)
next
  case (step s s')
  from step.hyps(2) show ?case
  proof (rule server_stepE)
    fix headers
    assume ok: "connect_handler server s headers = Inr ()" and s': "s' = s\<lparr>upgrading := Suc (upgrading s)\<rparr>"
    have "sessions s < 2 ^ LENGTH(64)" using step.IH assms(3) by simp
    then have "unat (active_clients s) = sessions s"
      unfolding active_counts_sessions [OF step.hyps(1)] by (simp only: unat_of_nat mod_less)
    with admitted_below [OF ok] have "sessions s < unat (wss_max_clients server)" by (simp add: word_less_nat_alt)
    with s' step.hyps(3) show ?thesis by simp
  qed (use step.IH step.hyps(3) in \<open>auto simp: session_begin_def session_finish_def\<close>)
qed

lemma server_reaches_upgrades:
  assumes "0 < wss_max_clients server" "authorize_request headers (wss_auth_mode server) (wss_auth_token server)" "n \<le> window"
  shows "reached server window \<lparr>active_clients = 0, upgrading = n, sessions = 0\<rparr>"
  using assms(3)
proof (induction n)
  case 0
  show ?case using reached.start [of server window] by (simp add: server_start_def)
next
  case (Suc n)
  let ?s = "\<lparr>active_clients = 0, upgrading = n, sessions = 0\<rparr>"
  have "reached server window ?s" using Suc by simp
  moreover have "connect_handler server ?s headers = Inr ()"
    using assms(1,2) by (simp add: connect_handler_def not_le)
  then have "server_step server ?s (?s\<lparr>upgrading := upgrading ?s + 1\<rparr>)" by (rule server_step.admit)
  ultimately have "reached server window (?s\<lparr>upgrading := upgrading ?s + 1\<rparr>)"
    by (rule reached.step) (use Suc.prems in simp)
  then show ?case by simp
qed

lemma server_reaches_sessions:
  assumes "reached server window \<lparr>active_clients = of_nat k, upgrading = n, sessions = k\<rparr>" "n \<le> window"
  shows "reached server window \<lparr>active_clients = of_nat (k + n), upgrading = 0, sessions = k + n\<rparr>"
  using assms
proof (induction n arbitrary: k)
  case (Suc n)
  let ?s = "\<lparr>active_clients = of_nat k, upgrading = Suc n, sessions = k\<rparr>"
  have "server_step server ?s (session_begin ?s)" by (rule server_step.begin_session) simp
  with Suc.prems have "reached server window (session_begin ?s)"
    by (rule_tac reached.step) (auto simp: session_begin_def)
  then have "reached server window \<lparr>active_clients = of_nat (Suc k), upgrading = n, sessions = Suc k\<rparr>"
    by (simp add: session_begin_def add.commute)
  from Suc.IH [OF this] Suc.prems(2) show ?case by (simp add: add_ac)
qed simp

subsection \<open>Properties\<close>

text \<open>C19. The client counter is right and the limit holds when upgrades do not overlap: in every reached
  state the counter is the number of running sessions (modulo its width); and if at most one upgrade
  is under way at a time, there are never more than \<open>max_clients\<close> sessions. In general the
  excess is less than the number of overlapping upgrades.\<close>

theorem sessions_bounded_by_window:
  assumes "reached server window s" "0 < wss_max_clients server" "unat (wss_max_clients server) + window \<le> 2 ^ 64"
  shows "active_clients s = of_nat (sessions s) \<and> sessions s < unat (wss_max_clients server) + window"
  using clients_in_window [OF assms] active_counts_sessions [OF assms(1)] by simp

definition demo_server :: ws_server where
  "demo_server = \<lparr>wss_auth_mode = ''none'', wss_auth_token = None, wss_max_clients = 1\<rparr>"

lemma demo_server_open: "authorize_request headers (wss_auth_mode demo_server) (wss_auth_token demo_server)"
proof -
  have "to_ascii_lowercase (trim ''none'') = ''none''" by code_simp
  then show ?thesis by (simp add: authorize_request_def demo_server_def)
qed

theorem sessions_bounded_by_window_witness:
  "reached demo_server 1 \<lparr>active_clients = 1, upgrading = 0, sessions = 1\<rparr> \<and> (1 :: nat) < unat (wss_max_clients demo_server) + 1"
proof -
  have pos: "0 < wss_max_clients demo_server" and small: "unat (wss_max_clients demo_server) + 1 \<le> 2 ^ 64"
    by (simp_all add: demo_server_def)
  have r: "reached demo_server 1 \<lparr>active_clients = 1, upgrading = 0, sessions = 1\<rparr>"
    using server_reaches_sessions [of demo_server 1 0 1]
      server_reaches_upgrades [OF pos demo_server_open [of "\<lambda>_. None"], of 1 1] by simp
  from sessions_bounded_by_window [OF this pos small] r show ?thesis by simp
qed

text \<open>The limit of the websocket server is not a limit: the handler checks the counter and the session
  raises it, so clients that connect together all pass the check. However small \<open>max_clients\<close> is,
  a state with any number of sessions is reached.\<close>

theorem max_clients_overrun:
  assumes "0 < wss_max_clients server" "authorize_request headers (wss_auth_mode server) (wss_auth_token server)"
  shows "\<exists>s. reached server n s \<and> sessions s = n"
  using server_reaches_sessions [of server n 0 n] server_reaches_upgrades [OF assms, of n n] by auto

theorem max_clients_overrun_witness:
  "wss_max_clients demo_server = 1 \<and> (\<exists>s. reached demo_server 100 s \<and> sessions s = 100)"
proof -
  have "0 < wss_max_clients demo_server" by (simp add: demo_server_def)
  from max_clients_overrun [OF this demo_server_open [of "\<lambda>_. None"], of 100] show ?thesis by (simp add: demo_server_def)
qed

text \<open>The websocket server output and the adapters of the receiver authorize alike: for a token the
  start-up accepted, the two separately written checks decide the same on every request.\<close>

theorem output_auth_same_as_ingress:
  assumes "resolve_optional_auth_token io mode token_env = Inr tok"
  shows "authorize_request headers mode tok \<longleftrightarrow> authorize_adapter_request headers mode tok"
proof -
  have nonempty: "t \<noteq> []" if "tok = Some t" for t
    using assms that
    by (auto simp: resolve_optional_auth_token_def egress_required_env_def Let_def result_iffs blank_def split: if_splits)
  have bearer: "Option.bind (header_get headers ''authorization'') parse_bearer = extract_bearer_token headers"
    by (simp add: extract_bearer_token_def parse_bearer_def [abs_def])
  show ?thesis
    using nonempty
    by (auto simp: authorize_request_def authorize_adapter_request_def Let_def bearer main_header_value_def or_else_def
        unwrap_or_def opt_filter_def split: option.splits)
qed

theorem output_auth_same_as_ingress_witness:
  "authorize_request (map_of [(''x-adapter-token'', '' token '')]) ''bearer'' (Some ''token'')
   \<and> authorize_adapter_request (map_of [(''x-adapter-token'', '' token '')]) ''bearer'' (Some ''token'')"
proof -
  have "resolve_optional_auth_token demo_io ''bearer'' (Some ''T'') = Inr (Some ''token'')"
    "authorize_request (map_of [(''x-adapter-token'', '' token '')]) ''bearer'' (Some ''token'')" by code_simp+
  with output_auth_same_as_ingress [OF this(1), of "map_of [(''x-adapter-token'', '' token '')]"] show ?thesis by simp
qed

end
