(* ===== verification/Kafka_Core.thy ===== *)
theory Kafka_Core
  imports Smash_Config
begin

section \<open>The shared Kafka configuration\<close>

text \<open>
  \<open>crates/relay-core/src/kafka_config.rs\<close>: the \<open>kafka_core\<close> table, read from a TOML file or from
  the environment, and its checks. The TOML reader is generated code and a parameter.
\<close>

record producer_defaults =
  pd_publish_queue_capacity :: usize
  pd_publish_max_retries :: u32
  pd_publish_backoff_base_ms :: u64
  pd_publish_backoff_max_ms :: u64

record consumer_defaults =
  cd_commit_mode :: string
  cd_auto_offset_reset :: string

record tls_config =
  tls_cert_path :: string
  tls_key_path :: string
  tls_ca_path :: string

record sasl_config =
  sasl_mechanism_name :: string
  sasl_user :: "string option"
  sasl_secret :: "string option"

record kafka_core_config =
  kc_brokers :: "string list"
  kc_security_protocol :: string
  kc_topic_prefix_core :: string
  kc_dlq_topic :: string
  kc_producer_defaults :: producer_defaults
  kc_consumer_defaults :: consumer_defaults
  kc_auto_create_topics :: "bool option"
  kc_topic_partitions :: "i32 option"
  kc_topic_replication_factor :: "i32 option"
  kc_allow_plaintext :: "bool option"
  kc_tls :: "tls_config option"
  kc_sasl :: "sasl_config option"

definition core_required_env :: "env \<Rightarrow> string \<Rightarrow> string result" where
  "core_required_env e name =
     and_then (ok_or (''missing required env var: '' @ name) (e name)) (\<lambda>v.
       if blank v then Inl (name @ '' cannot be empty'') else Inr v)"

definition env_tls_config :: "env \<Rightarrow> tls_config option" where
  "env_tls_config e =
     Option.bind (e ''KAFKA_TLS_CERT'') (\<lambda>cert.
     Option.bind (e ''KAFKA_TLS_KEY'') (\<lambda>key.
     Option.bind (e ''KAFKA_TLS_CA'') (\<lambda>ca.
       Some \<lparr>tls_cert_path = cert, tls_key_path = key, tls_ca_path = ca\<rparr>)))"

definition env_sasl_config :: "env \<Rightarrow> sasl_config option" where
  "env_sasl_config e =
     Option.bind (e ''KAFKA_SASL_MECHANISM'') (\<lambda>mechanism.
       Some \<lparr>sasl_mechanism_name = mechanism, sasl_user = e ''KAFKA_SASL_USERNAME'', sasl_secret = e ''KAFKA_SASL_PASSWORD''\<rparr>)"

definition core_env_bool :: "env \<Rightarrow> string \<Rightarrow> bool \<Rightarrow> bool" where
  "core_env_bool e name dflt =
     (case e name of
        Some v \<Rightarrow> to_ascii_lowercase (trim v) \<in> {''1'', ''true'', ''yes'', ''on''}
      | None \<Rightarrow> dflt)"

definition core_env_i32 :: "env \<Rightarrow> string \<Rightarrow> i32 \<Rightarrow> i32 result" where
  "core_env_i32 = env_number parse_i32 ''i32''"

definition core_env_u32 :: "env \<Rightarrow> string \<Rightarrow> u32 \<Rightarrow> u32 result" where
  "core_env_u32 = env_number parse_u32 ''u32''"

definition core_env_u64 :: "env \<Rightarrow> string \<Rightarrow> u64 \<Rightarrow> u64 result" where
  "core_env_u64 = env_number parse_u64 ''u64''"

definition core_env_usize :: "env \<Rightarrow> string \<Rightarrow> usize \<Rightarrow> usize result" where
  "core_env_usize = env_number parse_u64 ''usize''"

definition kafka_core_validate :: "kafka_core_config \<Rightarrow> unit result" where
  "kafka_core_validate c =
     (let protocol = to_ascii_lowercase (trim (kc_security_protocol c))
      in checks
        [ensure (\<not> blank (kc_topic_prefix_core c)) ''kafka_core.topic_prefix_core cannot be empty'',
         ensure (\<not> blank (kc_dlq_topic c)) ''kafka_core.dlq_topic cannot be empty'',
         ensure (\<not> (protocol = ''plaintext'' \<and> \<not> unwrap_or False (kc_allow_plaintext c)))
           ''kafka_core.security_protocol=plaintext requires kafka_core.allow_plaintext=true'',
         ensure (\<not> (protocol = ''ssl'' \<and> kc_tls c = None))
           ''kafka_core.tls is required when kafka_core.security_protocol=ssl''])"

definition kafka_core_load ::
  "(string \<Rightarrow> string option) \<Rightarrow> (string \<Rightarrow> kafka_core_config option) \<Rightarrow> string \<Rightarrow> kafka_core_config result" where
  "kafka_core_load read_file de path =
     and_then (ok_or (''read kafka core config: '' @ path) (read_file path)) (\<lambda>raw.
     and_then (ok_or (''parse kafka core config: '' @ path) (de raw)) (\<lambda>parsed.
     and_then (kafka_core_validate parsed) (\<lambda>_. Inr parsed)))"

definition kafka_core_from_env :: "env \<Rightarrow> kafka_core_config result" where
  "kafka_core_from_env e =
     and_then (core_required_env e ''KAFKA_BROKERS'') (\<lambda>raw.
     let brokers = split_trimmed (CHR '','') raw
     in if brokers = [] then Inl ''KAFKA_BROKERS cannot be empty'' else
     and_then (core_env_usize e ''RELAY_PUBLISH_QUEUE_CAPACITY'' 4096) (\<lambda>capacity.
     and_then (core_env_u32 e ''RELAY_PUBLISH_MAX_RETRIES'' 5) (\<lambda>retries.
     and_then (core_env_u64 e ''RELAY_PUBLISH_BACKOFF_BASE_MS'' 200) (\<lambda>base.
     and_then (core_env_u64 e ''RELAY_PUBLISH_BACKOFF_MAX_MS'' 5000) (\<lambda>cap.
     and_then (core_env_i32 e ''KAFKA_TOPIC_PARTITIONS'' 3) (\<lambda>partitions.
     and_then (core_env_i32 e ''KAFKA_TOPIC_REPLICATION_FACTOR'' 1) (\<lambda>replication.
     let config = \<lparr>kc_brokers = brokers,
           kc_security_protocol = to_ascii_lowercase (unwrap_or ''ssl'' (e ''KAFKA_SECURITY_PROTOCOL'')),
           kc_topic_prefix_core = unwrap_or ''webhooks'' (e ''RELAY_SOURCE_TOPIC_PREFIX''),
           kc_dlq_topic = unwrap_or ''webhooks.dlq'' (e ''KAFKA_DLQ_TOPIC''),
           kc_producer_defaults = \<lparr>pd_publish_queue_capacity = capacity, pd_publish_max_retries = retries,
             pd_publish_backoff_base_ms = base, pd_publish_backoff_max_ms = cap\<rparr>,
           kc_consumer_defaults = \<lparr>cd_commit_mode = ''async'', cd_auto_offset_reset = ''latest''\<rparr>,
           kc_auto_create_topics = Some (core_env_bool e ''KAFKA_AUTO_CREATE_TOPICS'' True),
           kc_topic_partitions = Some partitions, kc_topic_replication_factor = Some replication,
           kc_allow_plaintext = Some (core_env_bool e ''KAFKA_ALLOW_PLAINTEXT'' False),
           kc_tls = env_tls_config e, kc_sasl = env_sasl_config e\<rparr>
     in and_then (kafka_core_validate config) (\<lambda>_. Inr config))))))))"

subsection \<open>Properties\<close>

lemma kafka_core_validate_iff:
  "kafka_core_validate c = Inr () \<longleftrightarrow>
     \<not> blank (kc_topic_prefix_core c) \<and> \<not> blank (kc_dlq_topic c)
     \<and> (to_ascii_lowercase (trim (kc_security_protocol c)) = ''plaintext'' \<longrightarrow> kc_allow_plaintext c = Some True)
     \<and> (to_ascii_lowercase (trim (kc_security_protocol c)) = ''ssl'' \<longrightarrow> kc_tls c \<noteq> None)"
  by (auto simp: kafka_core_validate_def Let_def result_iffs unwrap_or_def split: option.splits)

text \<open>No Kafka configuration is used unprotected by accident: read from a file or from the
  environment, a \<open>kafka_core\<close> table with the protocol \<open>plaintext\<close> has the explicit opt-in and one with
  \<open>ssl\<close> names its key material; topic prefix and dead-letter topic are not blank.\<close>

theorem kafka_core_checked:
  assumes "kafka_core_load read_file de path = Inr c \<or> kafka_core_from_env e = Inr c"
  shows "\<not> blank (kc_topic_prefix_core c) \<and> \<not> blank (kc_dlq_topic c)
     \<and> (to_ascii_lowercase (trim (kc_security_protocol c)) = ''plaintext'' \<longrightarrow> kc_allow_plaintext c = Some True)
     \<and> (to_ascii_lowercase (trim (kc_security_protocol c)) = ''ssl'' \<longrightarrow> kc_tls c \<noteq> None)"
proof -
  have "kafka_core_validate c = Inr ()"
    using assms
    by (auto simp: kafka_core_load_def kafka_core_from_env_def Let_def and_then_Inr_iff split: if_splits)
  then show ?thesis by (rule iffD1 [OF kafka_core_validate_iff])
qed

definition demo_core_env :: env where
  "demo_core_env = map_of [(''KAFKA_BROKERS'', ''a:1, b:2''), (''KAFKA_SECURITY_PROTOCOL'', ''PLAINTEXT''),
     (''KAFKA_ALLOW_PLAINTEXT'', ''yes'')]"

theorem kafka_core_checked_witness:
  "\<exists>c. kafka_core_from_env demo_core_env = Inr c \<and> kc_allow_plaintext c = Some True"
proof -
  have "(case kafka_core_from_env demo_core_env of Inl _ \<Rightarrow> False
      | Inr c \<Rightarrow> to_ascii_lowercase (trim (kc_security_protocol c)) = ''plaintext'')" by code_simp
  then obtain c where c: "kafka_core_from_env demo_core_env = Inr c"
    "to_ascii_lowercase (trim (kc_security_protocol c)) = ''plaintext''" by (auto split: sum.splits)
  with kafka_core_checked [OF disjI2 [OF c(1)]] show ?thesis by blast
qed

text \<open>The file reader accepts what the environment reader refuses: a table whose list of brokers is
  empty passes the checks of a file, while no configuration from the environment is without one.\<close>

theorem core_file_may_lack_brokers:
  assumes "read_file path = Some raw" "de raw = Some c" "kafka_core_validate c = Inr ()" "kc_brokers c = []"
  shows "kafka_core_load read_file de path = Inr c \<and> kafka_core_from_env e \<noteq> Inr c"
  using assms by (auto simp: kafka_core_load_def kafka_core_from_env_def Let_def and_then_Inr_iff split: if_splits)

theorem core_file_may_lack_brokers_witness:
  "\<exists>c. kc_brokers c = [] \<and> kafka_core_load (\<lambda>_. Some []) (\<lambda>_. Some c) ''kafka.toml'' = Inr c"
proof -
  let ?c = "(projr (kafka_core_from_env demo_core_env))\<lparr>kc_brokers := []\<rparr>"
  have "kafka_core_validate ?c = Inr ()" by code_simp
  from core_file_may_lack_brokers [of "\<lambda>_. Some []" "''kafka.toml''" "[]" "\<lambda>_. Some ?c" ?c, OF refl refl this]
  show ?thesis by (intro exI [of _ ?c]) simp
qed

end
