(* ===== verification/Relay.thy ===== *)
theory Relay
  imports Cli_Config Producer
begin

section \<open>The relay command\<close>

text \<open>
  \<open>tools/hook/src/commands/relay.rs\<close>: \<open>hook relay\<close> copies messages from Kafka topics to an output
  topic. The values come from the flags, the profile and the environment (\<open>resolve_value\<close>); a
  message is published with retries and its offset is committed afterwards. The broker is the
  record \<open>relay_world\<close>, whose answers may depend on all that happened before.
\<close>

subsection \<open>Configuration\<close>

datatype relay_mode = EnvelopeMode | RawMode

record relay_args =
  ra_topics :: "string option"
  ra_output_topic :: "string option"
  ra_group_id :: "string option"
  ra_brokers :: "string option"
  ra_instance_id :: "string option"
  ra_mode :: relay_mode
  ra_max_retries :: "u32 option"
  ra_backoff_base_ms :: "u64 option"
  ra_backoff_max_ms :: "u64 option"

record relay_runtime =
  rr_brokers :: string
  rr_topics :: "string list"
  rr_output_topic :: string
  rr_group_id :: string
  rr_mode :: relay_mode
  rr_max_retries :: u32
  rr_backoff_base_ms :: u64
  rr_backoff_max_ms :: u64
  rr_security_protocol :: string
  rr_tls_cert :: "string option"
  rr_tls_key :: "string option"
  rr_tls_ca :: "string option"
  rr_sasl_mechanism :: "string option"
  rr_sasl_username :: "string option"
  rr_sasl_password :: "string option"
  rr_instance_id :: "string option"

definition parse_topics :: "string \<Rightarrow> string list" where
  "parse_topics raw = split_trimmed (CHR '','') raw"

definition load_runtime_config :: "host \<Rightarrow> app_context \<Rightarrow> relay_args \<Rightarrow> relay_runtime result" where
  "load_runtime_config h ctx args =
     and_then (ok_or ''missing KAFKA_BROKERS'' (resolve_value h ctx (ra_brokers args) ''KAFKA_BROKERS'')) (\<lambda>brokers.
     and_then (ok_or ''missing KAFKA_TOPICS or --topics'' (resolve_value h ctx (ra_topics args) ''KAFKA_TOPICS'')) (\<lambda>topics_raw.
     let topics = parse_topics topics_raw
     in if topics = [] then Inl ''resolved KAFKA_TOPICS is empty''
        else
     and_then (ok_or ''missing HOOK_RELAY_OUTPUT_TOPIC or --output-topic''
                (resolve_value h ctx (ra_output_topic args) ''HOOK_RELAY_OUTPUT_TOPIC'')) (\<lambda>output_topic.
       Inr \<lparr>rr_brokers = brokers, rr_topics = topics, rr_output_topic = output_topic,
            rr_group_id = unwrap_or ''hook-relay'' (resolve_value h ctx (ra_group_id args) ''KAFKA_GROUP_ID''),
            rr_mode = ra_mode args,
            rr_max_retries = unwrap_or (unwrap_or 5
                (Option.bind (resolve_value h ctx None ''HOOK_RELAY_MAX_RETRIES'') parse_u32)) (ra_max_retries args),
            rr_backoff_base_ms = unwrap_or (unwrap_or 200
                (Option.bind (resolve_value h ctx None ''HOOK_RELAY_BACKOFF_BASE_MS'') parse_u64)) (ra_backoff_base_ms args),
            rr_backoff_max_ms = unwrap_or (unwrap_or 5000
                (Option.bind (resolve_value h ctx None ''HOOK_RELAY_BACKOFF_MAX_MS'') parse_u64)) (ra_backoff_max_ms args),
            rr_security_protocol =
              to_ascii_lowercase (unwrap_or ''plaintext'' (resolve_value h ctx None ''KAFKA_SECURITY_PROTOCOL'')),
            rr_tls_cert = resolve_value h ctx None ''KAFKA_TLS_CERT'',
            rr_tls_key = resolve_value h ctx None ''KAFKA_TLS_KEY'',
            rr_tls_ca = resolve_value h ctx None ''KAFKA_TLS_CA'',
            rr_sasl_mechanism = resolve_value h ctx None ''KAFKA_SASL_MECHANISM'',
            rr_sasl_username = resolve_value h ctx None ''KAFKA_SASL_USERNAME'',
            rr_sasl_password = resolve_value h ctx None ''KAFKA_SASL_PASSWORD'',
            rr_instance_id = resolve_value h ctx (ra_instance_id args) ''HOOK_INSTANCE_ID''\<rparr>)))"

definition relay_reasons :: "relay_runtime \<Rightarrow> string list" where
  "relay_reasons rt =
     (if rr_security_protocol rt = ''ssl''
      then (if rr_tls_cert rt = None then [''missing KAFKA_TLS_CERT for ssl mode''] else [])
           @ (if rr_tls_key rt = None then [''missing KAFKA_TLS_KEY for ssl mode''] else [])
           @ (if rr_tls_ca rt = None then [''missing KAFKA_TLS_CA for ssl mode''] else [])
      else [])
     @ (if rr_max_retries rt = 0 then [''max retries must be >= 1''] else [])"

definition ensure_preconditions :: "app_context \<Rightarrow> relay_runtime \<Rightarrow> unit result" where
  "ensure_preconditions ctx rt =
     ensure (\<not> (relay_reasons rt \<noteq> [] \<and> \<not> ga_force (ctx_global ctx)))
       (''relay unavailable: '' @ join ''; '' (relay_reasons rt) @ ''. use --force to bypass'')"

definition setting :: "string \<Rightarrow> string option \<Rightarrow> (string \<times> string) list" where
  "setting key v = (case v of None \<Rightarrow> [] | Some x \<Rightarrow> [(key, x)])"

definition apply_security_settings :: "relay_runtime \<Rightarrow> (string \<times> string) list" where
  "apply_security_settings rt =
     [(''security.protocol'', rr_security_protocol rt)]
     @ (if rr_security_protocol rt = ''ssl''
        then setting ''ssl.certificate.location'' (rr_tls_cert rt) @ setting ''ssl.key.location'' (rr_tls_key rt)
             @ setting ''ssl.ca.location'' (rr_tls_ca rt)
        else [])
     @ setting ''sasl.mechanism'' (rr_sasl_mechanism rt) @ setting ''sasl.username'' (rr_sasl_username rt)
     @ setting ''sasl.password'' (rr_sasl_password rt)"

definition build_consumer :: "relay_runtime \<Rightarrow> (string \<times> string) list" where
  "build_consumer rt =
     [(''bootstrap.servers'', rr_brokers rt), (''group.id'', rr_group_id rt), (''enable.auto.commit'', ''false''),
      (''auto.offset.reset'', ''latest'')]
     @ apply_security_settings rt @ setting ''client.id'' (rr_instance_id rt)"

definition build_producer :: "relay_runtime \<Rightarrow> (string \<times> string) list" where
  "build_producer rt =
     [(''bootstrap.servers'', rr_brokers rt), (''message.timeout.ms'', show_nat (5 * 1000))]
     @ apply_security_settings rt @ setting ''client.id'' (rr_instance_id rt)"

subsection \<open>Messages\<close>

record relay_message =
  rm_topic :: string
  rm_partition :: nat
  rm_offset :: nat
  rm_key :: "string option"
  rm_payload :: "string option"

text \<open>A send carries whether the broker accepted it.\<close>

datatype relay_effect =
    RelaySend string "string option" string bool
  | RelaySleep u64
  | RelayCommit string nat nat

record relay_world =
  rw_create_consumer :: "(string \<times> string) list \<Rightarrow> bool"
  rw_create_producer :: "(string \<times> string) list \<Rightarrow> bool"
  rw_subscribe :: "string list \<Rightarrow> bool"
  rw_send :: "relay_effect list \<Rightarrow> string \<Rightarrow> string option \<Rightarrow> string \<Rightarrow> string option"
  rw_commit :: "relay_effect list \<Rightarrow> bool"
  rw_is_envelope :: "string \<Rightarrow> bool"

definition relay_retry_backoff_ms :: "u64 \<Rightarrow> u64 \<Rightarrow> u32 \<Rightarrow> u64" where
  "relay_retry_backoff_ms base_ms max_ms attempt_index =
     (let exponent = min attempt_index 31; scaled = saturating_mul base_ms (push_bit (unat exponent) 1)
      in min scaled max_ms)"

function relay_publish_loop ::
  "relay_world \<Rightarrow> relay_runtime \<Rightarrow> string option \<Rightarrow> string \<Rightarrow> relay_message \<Rightarrow> u32 \<Rightarrow> relay_effect list \<Rightarrow>
     unit result \<times> relay_effect list" where
  "relay_publish_loop w rt key payload m attempt tr =
     (case rw_send w tr (rr_output_topic rt) key payload of
        None \<Rightarrow> (Inr (), tr @ [RelaySend (rr_output_topic rt) key payload True])
      | Some error \<Rightarrow>
          let attempt' = saturating_add attempt 1; tr' = tr @ [RelaySend (rr_output_topic rt) key payload False]
          in if rr_max_retries rt \<le> attempt'
             then (Inl (''relay publish failed source='' @ rm_topic m @ '':'' @ show_nat (rm_partition m) @ '':''
                     @ show_nat (rm_offset m) @ '' attempts='' @ show_nat (unat attempt') @ '' error='' @ error), tr')
             else
               let backoff = relay_retry_backoff_ms (rr_backoff_base_ms rt) (rr_backoff_max_ms rt) (saturating_sub attempt' 1)
               in relay_publish_loop w rt key payload m attempt' (tr' @ [RelaySleep backoff]))"
  by pat_completeness auto

termination relay_publish_loop
  by (relation "measure (\<lambda>(w, rt, key, payload, m, attempt, tr). unat (rr_max_retries rt) - unat attempt)")
     (auto dest!: attempt_grows)

declare relay_publish_loop.simps [simp del]

text \<open>The outcome of a message: committed, or left uncommitted.\<close>

definition relay_process_message ::
  "relay_world \<Rightarrow> relay_runtime \<Rightarrow> relay_message \<Rightarrow> relay_effect list \<Rightarrow> bool result \<times> relay_effect list" where
  "relay_process_message w rt m tr =
     (case rm_payload m of
        None \<Rightarrow> (Inr False, tr)
      | Some payload \<Rightarrow>
          if rr_mode rt = EnvelopeMode \<and> \<not> rw_is_envelope w payload then (Inr False, tr)
          else
            (case relay_publish_loop w rt (rm_key m) payload m 0 tr of
               (Inl error, tr') \<Rightarrow> (Inl error, tr')
             | (Inr _, tr') \<Rightarrow>
                 if rw_commit w tr' then (Inr True, tr' @ [RelayCommit (rm_topic m) (rm_partition m) (rm_offset m)])
                 else (Inl ''commit relay offset'', tr')))"

fun relay_loop ::
  "relay_world \<Rightarrow> relay_runtime \<Rightarrow> relay_message option list \<Rightarrow> relay_effect list \<Rightarrow> relay_effect list" where
  "relay_loop w rt [] tr = tr"
| "relay_loop w rt (None # received) tr = relay_loop w rt received tr"
| "relay_loop w rt (Some m # received) tr = relay_loop w rt received (snd (relay_process_message w rt m tr))"

definition relay_run ::
  "host \<Rightarrow> relay_world \<Rightarrow> app_context \<Rightarrow> relay_args \<Rightarrow> relay_message option list \<Rightarrow> (relay_runtime \<times> relay_effect list) result" where
  "relay_run h w ctx args received =
     and_then (load_runtime_config h ctx args) (\<lambda>rt.
     and_then (ensure_preconditions ctx rt) (\<lambda>_.
     and_then (ensure (rw_create_consumer w (build_consumer rt)) ''create relay stream consumer'') (\<lambda>_.
     and_then (ensure (rw_create_producer w (build_producer rt)) ''create relay future producer'') (\<lambda>_.
     and_then (ensure (rw_subscribe w (rr_topics rt)) (''subscribe to topics: '' @ join '','' (rr_topics rt))) (\<lambda>_.
       Inr (rt, relay_loop w rt received []))))))"

subsection \<open>The publish loop\<close>

lemma relay_backoff_copy: "relay_retry_backoff_ms = retry_backoff_ms"
  by (simp add: fun_eq_iff relay_retry_backoff_ms_def retry_backoff_ms_def)

definition relay_attempts :: "relay_runtime \<Rightarrow> nat" where
  "relay_attempts rt = max 1 (unat (rr_max_retries rt))"

text \<open>What one message may add to the trace before its commit: refused attempts, each followed by a
  capped pause, then the last attempt.\<close>

definition sends :: "relay_effect list \<Rightarrow> nat" where
  "sends es = length (filter (\<lambda>e. case e of RelaySend _ _ _ _ \<Rightarrow> True | _ \<Rightarrow> False) es)"

definition copies :: "relay_runtime \<Rightarrow> string option \<Rightarrow> string \<Rightarrow> relay_effect list \<Rightarrow> bool" where
  "copies rt key payload es \<longleftrightarrow> (\<forall>e \<in> set es. case e of
     RelaySend topic k p accepted \<Rightarrow> topic = rr_output_topic rt \<and> k = key \<and> p = payload
   | RelaySleep d \<Rightarrow> unat d \<le> unat (rr_backoff_max_ms rt)
   | RelayCommit _ _ _ \<Rightarrow> False)"

lemma copies_append [simp]: "copies rt key payload (es @ es') \<longleftrightarrow> copies rt key payload es \<and> copies rt key payload es'"
  "copies rt key payload []" "copies rt key payload [RelaySend topic k p b] \<longleftrightarrow> topic = rr_output_topic rt \<and> k = key \<and> p = payload"
  "copies rt key payload [RelaySleep d] \<longleftrightarrow> unat d \<le> unat (rr_backoff_max_ms rt)"
  by (auto simp: copies_def)

lemma copies_message:
  assumes "copies rt (rm_key m) payload es" "rm_payload m = Some payload" "e \<in> set es"
  shows "case e of
      RelaySend topic key p accepted \<Rightarrow> topic = rr_output_topic rt \<and> key = rm_key m \<and> Some p = rm_payload m
    | RelaySleep d \<Rightarrow> unat d \<le> unat (rr_backoff_max_ms rt)
    | RelayCommit t p n \<Rightarrow> t = rm_topic m \<and> p = rm_partition m \<and> n = rm_offset m"
  using assms(2) bspec [OF assms(1) [unfolded copies_def] assms(3)] by (cases e) simp_all

lemma sends_simps [simp]: "sends [] = 0" "sends (es @ es') = sends es + sends es'"
  "sends [RelaySend t k p b] = 1" "sends [RelaySleep d] = 0" "sends [RelayCommit t i n] = 0"
  by (simp_all add: sends_def)

lemma relay_publish_loop_trace:
  assumes "relay_publish_loop w rt key payload m a tr = (r, tr')"
  shows "\<exists>es. tr' = tr @ es \<and> copies rt key payload es \<and> sends es \<le> max 1 (unat (rr_max_retries rt) - unat a)
     \<and> (r = Inr () \<longleftrightarrow> RelaySend (rr_output_topic rt) key payload True \<in> set es)"
  using assms
proof (induction w rt key payload m a tr arbitrary: r tr' rule: relay_publish_loop.induct)
  case (1 w rt key payload m a tr)
  let ?send = "RelaySend (rr_output_topic rt) key payload" and ?a = "saturating_add a 1"
  show ?case
  proof (cases "rw_send w tr (rr_output_topic rt) key payload")
    case None
    with 1(2) show ?thesis by (intro exI [of _ "[?send True]"]) (auto simp: relay_publish_loop.simps [of w rt key payload m a])
  next
    case (Some error)
    show ?thesis
    proof (cases "rr_max_retries rt \<le> ?a")
      case True
      with 1(2) Some show ?thesis
        by (intro exI [of _ "[?send False]"]) (auto simp: relay_publish_loop.simps [of w rt key payload m a] Let_def)
    next
      case False
      note grow = attempt_grows [OF False]
      let ?d = "relay_retry_backoff_ms (rr_backoff_base_ms rt) (rr_backoff_max_ms rt) (saturating_sub ?a 1)"
      have run: "relay_publish_loop w rt key payload m ?a ((tr @ [?send False]) @ [RelaySleep ?d]) = (r, tr')"
        using 1(2) Some False by (simp add: relay_publish_loop.simps [of w rt key payload m a] Let_def)
      from 1(1) [OF Some refl refl False refl run] obtain es where
        es: "tr' = ((tr @ [?send False]) @ [RelaySleep ?d]) @ es" "copies rt key payload es"
        "sends es \<le> max 1 (unat (rr_max_retries rt) - unat ?a)" "r = Inr () \<longleftrightarrow> ?send True \<in> set es" by blast
      have "unat ?d \<le> unat (rr_backoff_max_ms rt)" by (simp add: relay_backoff_copy unat_retry_backoff_ms)
      with es grow show ?thesis by (intro exI [of _ "[?send False, RelaySleep ?d] @ es"]) (auto simp: copies_def sends_def)
    qed
  qed
qed

lemma relay_process_trace:
  assumes "relay_process_message w rt m tr = (r, tr')"
  obtains (skipped) "r = Inr False" "tr' = tr"
      "rm_payload m = None \<or> rr_mode rt = EnvelopeMode \<and> (\<exists>p. rm_payload m = Some p \<and> \<not> rw_is_envelope w p)"
  | (failed) e es payload where "r = Inl e" "tr' = tr @ es" "rm_payload m = Some payload"
      "copies rt (rm_key m) payload es" "sends es \<le> relay_attempts rt"
  | (copied) es payload where "r = Inr True" "tr' = tr @ es @ [RelayCommit (rm_topic m) (rm_partition m) (rm_offset m)]"
      "rm_payload m = Some payload" "rr_mode rt = EnvelopeMode \<longrightarrow> rw_is_envelope w payload"
      "copies rt (rm_key m) payload es" "sends es \<le> relay_attempts rt"
      "RelaySend (rr_output_topic rt) (rm_key m) payload True \<in> set es"
proof (cases "rm_payload m")
  case None
  with assms skipped show ?thesis by (auto simp: relay_process_message_def)
next
  case (Some payload)
  show ?thesis
  proof (cases "rr_mode rt = EnvelopeMode \<and> \<not> rw_is_envelope w payload")
    case True
    with assms Some skipped show ?thesis by (auto simp: relay_process_message_def)
  next
    case False
    obtain q tr1 where run: "relay_publish_loop w rt (rm_key m) payload m 0 tr = (q, tr1)" by force
    from relay_publish_loop_trace [OF this] obtain es where es: "tr1 = tr @ es" "copies rt (rm_key m) payload es"
      "sends es \<le> relay_attempts rt" "q = Inr () \<longleftrightarrow> RelaySend (rr_output_topic rt) (rm_key m) payload True \<in> set es"
      by (auto simp: relay_attempts_def)
    show ?thesis
    proof (cases "q = Inr () \<and> rw_commit w tr1")
      case True
      with assms Some False run es show ?thesis
        by (intro copied [of es payload]) (auto simp: relay_process_message_def)
    next
      case F: False
      have "isl r \<and> tr' = tr1"
        using assms Some False run F unfolding relay_process_message_def
        by (cases q) (auto split: if_splits)
      then obtain e where "r = Inl e" "tr' = tr1" by (auto simp: isl_def)
      with es Some show ?thesis by (intro failed [of e es payload]) simp_all
    qed
  qed
qed

text \<open>Every commit of a trace comes after an accepted copy of its message.\<close>

definition relay_justified ::
  "relay_world \<Rightarrow> relay_runtime \<Rightarrow> relay_message set \<Rightarrow> relay_effect list \<Rightarrow> bool" where
  "relay_justified w rt ms tr \<longleftrightarrow>
     (\<forall>i t p n. i < length tr \<and> tr ! i = RelayCommit t p n \<longrightarrow>
        (\<exists>m payload. m \<in> ms \<and> rm_topic m = t \<and> rm_partition m = p \<and> rm_offset m = n \<and> rm_payload m = Some payload
           \<and> (rr_mode rt = EnvelopeMode \<longrightarrow> rw_is_envelope w payload)
           \<and> RelaySend (rr_output_topic rt) (rm_key m) payload True \<in> set (take i tr)))"

lemma relay_justified_copies:
  assumes "relay_justified w rt ms tr" "copies rt key payload es"
  shows "relay_justified w rt ms (tr @ es)"
proof -
  have "es ! k \<noteq> RelayCommit t p n" if "k < length es" for k t p n
    using assms(2) nth_mem [OF that] unfolding copies_def by (auto split: relay_effect.splits)
  then show ?thesis using assms(1) unfolding relay_justified_def by (auto simp: nth_append)
qed

lemma relay_justified_commit:
  assumes "relay_justified w rt ms tr" "m \<in> ms" "rm_payload m = Some payload"
    "rr_mode rt = EnvelopeMode \<longrightarrow> rw_is_envelope w payload" "RelaySend (rr_output_topic rt) (rm_key m) payload True \<in> set tr"
  shows "relay_justified w rt ms (tr @ [RelayCommit (rm_topic m) (rm_partition m) (rm_offset m)])"
  using assms unfolding relay_justified_def by (auto simp: nth_append less_Suc_eq split: if_splits)

lemma relay_process_justified:
  assumes "relay_justified w rt ms tr" "m \<in> ms"
  shows "relay_justified w rt ms (snd (relay_process_message w rt m tr))"
proof -
  obtain r tr' where run: "relay_process_message w rt m tr = (r, tr')" by force
  then show ?thesis
  proof (cases rule: relay_process_trace)
    case (copied es payload)
    have "relay_justified w rt ms (tr @ es)" using assms(1) copied(5) by (rule relay_justified_copies)
    from relay_justified_commit [OF this assms(2) copied(3,4)] copied(2,7) run show ?thesis by simp
  qed (use run assms relay_justified_copies in auto)
qed

lemma relay_loop_justified:
  "relay_justified w rt ms tr \<Longrightarrow> {m. Some m \<in> set received} \<subseteq> ms \<Longrightarrow> relay_justified w rt ms (relay_loop w rt received tr)"
proof (induction w rt received tr rule: relay_loop.induct)
  case (2 w rt received tr)
  then show ?case by (simp add: subset_iff)
next
  case (3 w rt m received tr)
  then show ?case using relay_process_justified [of w rt ms tr m] by (simp add: subset_iff)
qed simp

lemma resolve_value_nonblank: "resolve_value h ctx flag key = Some v \<Longrightarrow> trimmed v \<and> v \<noteq> []"
  by (auto simp: resolve_value_def opt_filter_Some_iff)

lemma parse_topics_trimmed: "topic \<in> set (parse_topics raw) \<Longrightarrow> trimmed topic \<and> topic \<noteq> []"
  by (auto simp: parse_topics_def split_trimmed_def)

subsection \<open>A run for the witnesses\<close>

definition demo_relay_args :: relay_args where
  "demo_relay_args = \<lparr>ra_topics = Some ''webhooks.github, webhooks.linear'', ra_output_topic = Some ''out'', ra_group_id = None,
     ra_brokers = None, ra_instance_id = None, ra_mode = EnvelopeMode, ra_max_retries = None, ra_backoff_base_ms = None,
     ra_backoff_max_ms = None\<rparr>"

definition demo_relay_world :: relay_world where
  "demo_relay_world = \<lparr>rw_create_consumer = \<lambda>_. True, rw_create_producer = \<lambda>_. True, rw_subscribe = \<lambda>_. True,
     rw_send = \<lambda>tr _ _ _. if tr = [] then Some ''timeout'' else None, rw_commit = \<lambda>_. True, rw_is_envelope = \<lambda>p. p = ''{}''\<rparr>"

definition demo_relay_message :: "string \<Rightarrow> relay_message" where
  "demo_relay_message payload = \<lparr>rm_topic = ''webhooks.github'', rm_partition = 0, rm_offset = 7, rm_key = Some ''k'',
     rm_payload = Some payload\<rparr>"

definition demo_relay_trace :: "relay_effect list" where
  "demo_relay_trace = [RelaySend ''out'' (Some ''k'') ''{}'' False, RelaySleep 200, RelaySend ''out'' (Some ''k'') ''{}'' True,
     RelayCommit ''webhooks.github'' 0 7]"

definition demo_relay_runtime :: relay_runtime where
  "demo_relay_runtime = projr (load_runtime_config demo_host demo_context demo_relay_args)"

lemma demo_relay_runtime_fields:
  "rr_output_topic demo_relay_runtime = ''out'' \<and> rr_max_retries demo_relay_runtime = 5
   \<and> rr_mode demo_relay_runtime = EnvelopeMode"
  "relay_retry_backoff_ms (rr_backoff_base_ms demo_relay_runtime) (rr_backoff_max_ms demo_relay_runtime) 0 = 200"
  by code_simp+

lemma demo_relay_loop:
  "relay_loop demo_relay_world demo_relay_runtime [None, Some (demo_relay_message ''{}'')] [] = demo_relay_trace"
proof -
  have "saturating_add 0 1 = (1 :: u32)" "saturating_sub 1 1 = (0 :: u32)" "\<not> (5 :: u32) \<le> 1" by code_simp+
  then show ?thesis
    by (simp add: demo_relay_world_def demo_relay_message_def demo_relay_trace_def relay_process_message_def
        demo_relay_runtime_fields relay_publish_loop.simps Let_def)
qed

lemma demo_relay_run:
  "relay_run demo_host demo_relay_world demo_context demo_relay_args [None, Some (demo_relay_message ''{}'')] =
     Inr (demo_relay_runtime, demo_relay_trace)"
proof -
  have "\<not> isl (load_runtime_config demo_host demo_context demo_relay_args)" by code_simp
  then have "load_runtime_config demo_host demo_context demo_relay_args = Inr demo_relay_runtime"
    unfolding demo_relay_runtime_def by (metis sum.collapse(2))
  moreover have "ensure_preconditions demo_context demo_relay_runtime = Inr ()" by code_simp
  moreover have "rw_create_consumer demo_relay_world settings" "rw_create_producer demo_relay_world settings"
    "rw_subscribe demo_relay_world topics" for settings topics
    by (simp_all add: demo_relay_world_def)
  ultimately show ?thesis
    using demo_relay_loop by (simp add: relay_run_def ensure_def)
qed

subsection \<open>Properties\<close>

text \<open>C16. The relay commits nothing it did not copy: in a run of the command over any sequence of messages
  and poll errors, each committed offset belongs to a received message whose key and payload were
  accepted, byte for byte, by the output topic before the commit; in envelope mode the payload is an
  envelope.\<close>

theorem relay_commits_only_copies:
  assumes "relay_run h w ctx args received = Inr (rt, tr)" "i < length tr" "tr ! i = RelayCommit t p n"
  shows "\<exists>m payload. Some m \<in> set received \<and> rm_topic m = t \<and> rm_partition m = p \<and> rm_offset m = n
     \<and> rm_payload m = Some payload \<and> (ra_mode args = EnvelopeMode \<longrightarrow> rw_is_envelope w payload)
     \<and> RelaySend (rr_output_topic rt) (rm_key m) payload True \<in> set (take i tr)"
proof -
  have tr: "tr = relay_loop w rt received []" and mode: "rr_mode rt = ra_mode args"
    using assms(1) by (auto simp: relay_run_def load_runtime_config_def Let_def result_iffs split: if_splits)
  have "relay_justified w rt {m. Some m \<in> set received} tr"
    unfolding tr by (rule relay_loop_justified) (auto simp: relay_justified_def)
  with assms(2,3) mode show ?thesis unfolding relay_justified_def by fastforce
qed

theorem relay_commits_only_copies_witness:
  "\<exists>payload. rw_is_envelope demo_relay_world payload
     \<and> RelaySend (rr_output_topic demo_relay_runtime) (Some ''k'') payload True \<in> set (take 3 demo_relay_trace)"
proof -
  have i: "3 < length demo_relay_trace" "demo_relay_trace ! 3 = RelayCommit ''webhooks.github'' 0 7"
    by (simp_all add: demo_relay_trace_def)
  have "ra_mode demo_relay_args = EnvelopeMode" by (simp add: demo_relay_args_def)
  with relay_commits_only_copies [OF demo_relay_run i] show ?thesis
    by (auto simp: demo_relay_message_def)
qed

text \<open>A message costs a bounded number of attempts: processing it sends its key and payload to the
  output topic at most \<open>max(1, max_retries)\<close> times, sleeps at most the cap between them, and
  writes nothing else; whatever happens the loop goes on.\<close>

theorem relay_message_bounded:
  "\<exists>es. snd (relay_process_message w rt m tr) = tr @ es \<and> sends es \<le> relay_attempts rt
     \<and> (\<forall>e \<in> set es. case e of
          RelaySend topic key payload accepted \<Rightarrow>
            topic = rr_output_topic rt \<and> key = rm_key m \<and> Some payload = rm_payload m
        | RelaySleep d \<Rightarrow> unat d \<le> unat (rr_backoff_max_ms rt)
        | RelayCommit t p n \<Rightarrow> t = rm_topic m \<and> p = rm_partition m \<and> n = rm_offset m)"
proof -
  obtain r tr' where run: "relay_process_message w rt m tr = (r, tr')" by force
  then show ?thesis
  proof (cases rule: relay_process_trace)
    case skipped
    with run show ?thesis by simp
  next
    case (failed e es payload)
    with run show ?thesis by (intro exI [of _ es]) (auto intro: copies_message)
  next
    case (copied es payload)
    let ?c = "RelayCommit (rm_topic m) (rm_partition m) (rm_offset m)"
    from copied run show ?thesis
      by (intro exI [of _ "es @ [?c]"]) (auto intro: copies_message)
  qed
qed

theorem relay_message_bounded_witness:
  "\<exists>es. snd (relay_process_message demo_relay_world demo_relay_runtime (demo_relay_message ''{}'') []) = es
     \<and> sends es \<le> relay_attempts demo_relay_runtime"
  using relay_message_bounded [of demo_relay_world demo_relay_runtime "demo_relay_message ''{}''" "[]"] by auto

text \<open>What the relay starts with: brokers, topics and output topic are there, trimmed and not empty;
  unless \<open>--force\<close> is given at least one attempt is allowed, and the protocol \<open>ssl\<close> comes
  with its certificate, key and authority, which the client settings then carry.\<close>

theorem relay_start_checked:
  assumes "relay_run h w ctx args received = Inr (rt, tr)"
  shows "rr_brokers rt \<noteq> [] \<and> rr_output_topic rt \<noteq> [] \<and> rr_topics rt \<noteq> []
     \<and> (\<forall>topic \<in> set (rr_topics rt). trimmed topic \<and> topic \<noteq> [])
     \<and> (\<not> ga_force (ctx_global ctx) \<longrightarrow> relay_attempts rt = unat (rr_max_retries rt)
          \<and> (rr_security_protocol rt = ''ssl'' \<longrightarrow>
               {''ssl.certificate.location'', ''ssl.key.location'', ''ssl.ca.location''} \<subseteq> fst ` set (build_producer rt)))"
proof -
  have load: "load_runtime_config h ctx args = Inr rt" and pre: "ensure_preconditions ctx rt = Inr ()"
    using assms by (auto simp: relay_run_def result_iffs)
  have "rr_brokers rt \<noteq> []" "rr_output_topic rt \<noteq> []" "rr_topics rt \<noteq> []"
    "\<forall>topic \<in> set (rr_topics rt). trimmed topic \<and> topic \<noteq> []"
    using load
    by (auto dest: resolve_value_nonblank parse_topics_trimmed simp: load_runtime_config_def Let_def result_iffs split: if_splits)
  moreover have "relay_reasons rt = []" if "\<not> ga_force (ctx_global ctx)"
    using pre that by (simp add: ensure_preconditions_def ensure_Inr_iff)
  then have "relay_attempts rt = unat (rr_max_retries rt)
      \<and> (rr_security_protocol rt = ''ssl'' \<longrightarrow> rr_tls_cert rt \<noteq> None \<and> rr_tls_key rt \<noteq> None \<and> rr_tls_ca rt \<noteq> None)"
    if "\<not> ga_force (ctx_global ctx)"
    using that by (auto simp: relay_reasons_def relay_attempts_def max_def unat_eq_0 not_le less_Suc0 split: if_splits)
  ultimately show ?thesis
    by (auto simp: build_producer_def apply_security_settings_def setting_def)
qed

theorem relay_start_checked_witness:
  "rr_topics demo_relay_runtime \<noteq> [] \<and> relay_attempts demo_relay_runtime = unat (rr_max_retries demo_relay_runtime)"
proof -
  have "\<not> ga_force (ctx_global demo_context)" by code_simp
  with relay_start_checked [OF demo_relay_run] show ?thesis by blast
qed

text \<open>A message that is no envelope is passed over, not retried: the relay leaves it uncommitted, goes
  on, and the commit of the next message of the partition moves the group past it.\<close>

theorem relay_passes_over_invalid:
  assumes "rr_mode rt = EnvelopeMode" "rm_payload bad = Some junk" "\<not> rw_is_envelope w junk"
    and "rm_payload good = Some payload" "rw_is_envelope w payload"
    and "\<forall>tr topic key p. rw_send w tr topic key p = None" "\<forall>tr. rw_commit w tr"
  shows "relay_loop w rt [Some bad, Some good] [] =
     [RelaySend (rr_output_topic rt) (rm_key good) payload True, RelayCommit (rm_topic good) (rm_partition good) (rm_offset good)]"
  using assms by (simp add: relay_process_message_def relay_publish_loop.simps)

theorem relay_passes_over_invalid_witness:
  "relay_loop (demo_relay_world\<lparr>rw_send := \<lambda>_ _ _ _. None\<rparr>) demo_relay_runtime
       [Some ((demo_relay_message ''junk'')\<lparr>rm_offset := 6\<rparr>), Some (demo_relay_message ''{}'')] [] =
     [RelaySend (rr_output_topic demo_relay_runtime) (Some ''k'') ''{}'' True, RelayCommit ''webhooks.github'' 0 7]"
proof -
  let ?w = "demo_relay_world\<lparr>rw_send := \<lambda>_ _ _ _. None\<rparr>"
  let ?bad = "(demo_relay_message ''junk'')\<lparr>rm_offset := 6\<rparr>"
  have "rr_mode demo_relay_runtime = EnvelopeMode" by code_simp
  moreover have "rm_payload ?bad = Some ''junk''" "\<not> rw_is_envelope ?w ''junk''"
    "rm_payload (demo_relay_message ''{}'') = Some ''{}''" "rw_is_envelope ?w ''{}''"
    "\<forall>tr topic key p. rw_send ?w tr topic key p = None" "\<forall>tr. rw_commit ?w tr"
    by (simp_all add: demo_relay_message_def demo_relay_world_def)
  ultimately show ?thesis
    using relay_passes_over_invalid [of demo_relay_runtime ?bad "''junk''" ?w "demo_relay_message ''{}''" "''{}''"]
    by (simp add: demo_relay_message_def)
qed

end
