(* ===== verification/Cli_Commands.thy ===== *)
theory Cli_Commands
  imports Launch Relay
begin

section \<open>The other commands of the command line tool\<close>

text \<open>
  \<open>tools/hook/src/commands\<close>: \<open>config import\<close> and \<open>config validate\<close>, \<open>introduce\<close>, the smoke
  tests, \<open>replay\<close> and \<open>debug env\<close>. What a command writes to the terminal is a list of lines, each a
  text or a JSON value; files, processes, the HTTP client and the Kafka producer are parameters.
\<close>

type_synonym printed = "(string + json) list"

subsection \<open>Writing a profile\<close>

text \<open>\<open>ser_profile\<close> is the TOML writer; \<open>parent_of\<close> is \<open>Path::parent\<close>, \<open>mkdirs\<close> and \<open>write_file\<close>
  tell whether the file system agreed.\<close>

record profile_writer =
  pw_parent :: "string \<Rightarrow> string option"
  pw_create_dir_all :: "string \<Rightarrow> bool"
  pw_serialize :: "hook_profile \<Rightarrow> string option"
  pw_write :: "string \<Rightarrow> string \<Rightarrow> bool"

definition write_profile :: "profile_writer \<Rightarrow> string \<Rightarrow> hook_profile \<Rightarrow> string result" where
  "write_profile pw path profile =
     and_then (ok_or (''profile path has no parent: '' @ path) (pw_parent pw path)) (\<lambda>parent.
     and_then (ensure (pw_create_dir_all pw parent) (''create profile directory: '' @ parent)) (\<lambda>_.
     and_then (ok_or ''serialize profile TOML'' (pw_serialize pw profile)) (\<lambda>payload.
     and_then (ensure (pw_write pw path payload) (''write profile file: '' @ path)) (\<lambda>_. Inr payload))))"

text \<open>The commands give the text written to the profile, if any, and their output.\<close>

definition import_profile ::
  "host \<Rightarrow> profile_writer \<Rightarrow> app_context \<Rightarrow> string option \<Rightarrow> string list \<Rightarrow> (string \<times> printed) result" where
  "import_profile h pw ctx toml_path env_files =
     and_then (imported_profile h ctx toml_path env_files) (\<lambda>profile.
     and_then (with_context (''write profile: '' @ ctx_profile_path ctx) (write_profile pw (ctx_profile_path ctx) profile))
       (\<lambda>written.
       Inr (written,
         [if ga_json (ctx_global ctx)
          then Inr (obj [(''profile'', JString (ctx_profile_path ctx)), (''status'', JString ''written'')])
          else Inl (''profile imported: '' @ ctx_profile_path ctx)])))"

text \<open>\<open>introduce.rs\<close> has its own copy of the merge, one assignment after the other.\<close>

definition introduce_merge_profile :: "hook_profile \<Rightarrow> hook_profile \<Rightarrow> hook_profile" where
  "introduce_merge_profile target source =
     (let target = target\<lparr>hp_env := fold (\<lambda>(k, v). btree_insert k v) (hp_env source) (hp_env target)\<rparr>;
          target = (if serve_cmd (hp_backends source) \<noteq> None
                    then target\<lparr>hp_backends := (hp_backends target)\<lparr>serve_cmd := serve_cmd (hp_backends source)\<rparr>\<rparr> else target);
          target = (if smash_cmd (hp_backends source) \<noteq> None
                    then target\<lparr>hp_backends := (hp_backends target)\<lparr>smash_cmd := smash_cmd (hp_backends source)\<rparr>\<rparr> else target)
      in if hp_roles source \<noteq> [] then target\<lparr>hp_roles := hp_roles source\<rparr> else target)"

lemma introduce_merge_profile_eq [simp]: "introduce_merge_profile target source = merge_profile target source"
proof -
  obtain e b r where t: "target = \<lparr>hp_env = e, hp_backends = b, hp_roles = r\<rparr>" by (cases target)
  obtain v m where b: "b = \<lparr>serve_cmd = v, smash_cmd = m\<rparr>" by (cases b)
  show ?thesis by (auto simp: introduce_merge_profile_def merge_profile_def or_else_def t b Let_def split: option.split)
qed

definition introduced_profile :: "host \<Rightarrow> app_context \<Rightarrow> string option \<Rightarrow> hook_profile result" where
  "introduced_profile h ctx toml_path =
     and_then (case toml_path of
                 Some path \<Rightarrow>
                   and_then (load_profile_from_path h path) (\<lambda>imported. Inr (introduce_merge_profile (ctx_profile ctx) imported))
               | None \<Rightarrow> Inr (ctx_profile ctx)) (\<lambda>profile.
     and_then (merge_env_files h (ga_env_files (ctx_global ctx))) (\<lambda>imported_env.
       Inr (profile\<lparr>hp_env := fold (\<lambda>(k, v). btree_insert k v) imported_env (hp_env profile)\<rparr>)))"

text \<open>What the commands print of a capability report; \<open>serde\<close> writes a structure field by field, in the
  order of the declaration.\<close>

definition json_optional :: "string option \<Rightarrow> json" where
  "json_optional path = (case path of None \<Rightarrow> JNull | Some p \<Rightarrow> JString p)"

definition report_json :: "capability_report \<Rightarrow> json" where
  "report_json report = JObject
     [(''repo_root'', json_optional (rep_repo_root report)),
      (''roles'', JArray (map (\<lambda>cap. JObject [(''role'', JString (role_name (cap_role cap))), (''available'', JBool (cap_available cap)),
         (''backend'', json_optional (cap_backend cap)), (''reasons'', JArray (map JString (cap_reasons cap)))]) (rep_roles report))),
      (''tools'', JObject (map (\<lambda>(tool, available). (tool, JBool available)) (rep_tools report)))]"

definition role_line :: "role_capability \<Rightarrow> string" where
  "role_line cap = ''role='' @ role_name (cap_role cap) @ '' available='' @ show_bool (cap_available cap) @ '' reasons=''
     @ (if cap_reasons cap = [] then ''none'' else join ''; '' (cap_reasons cap))"

definition introduce_report :: "bool \<Rightarrow> capability_report \<Rightarrow> printed" where
  "introduce_report json report =
     (if json then [Inr (report_json report)]
      else Inl ''capability matrix:'' # map (\<lambda>cap. Inl (''- '' @ role_line cap)) (rep_roles report))"

text \<open>\<open>introduce\<close>: the text written and the lines it prints.\<close>

definition introduce_run ::
  "host \<Rightarrow> profile_writer \<Rightarrow> app_context \<Rightarrow> string option \<Rightarrow> bool \<Rightarrow> (string option \<times> printed) result" where
  "introduce_run h pw ctx toml_path dry_run =
     and_then (introduced_profile h ctx toml_path) (\<lambda>profile.
     and_then (if dry_run then Inr (None, ''dry run: profile not written'')
               else and_then (with_context (''write profile: '' @ ctx_profile_path ctx)
                                (write_profile pw (ctx_profile_path ctx) profile))
                      (\<lambda>written. Inr (Some written, ''profile written to '' @ ctx_profile_path ctx)))
       (\<lambda>(written, line).
       Inr (written, Inl line # introduce_report (ga_json (ctx_global ctx)) (detect_capabilities h (ctx\<lparr>ctx_profile := profile\<rparr>)))))"

text \<open>\<open>test env\<close> and \<open>debug capabilities\<close>.\<close>

definition run_env_test :: "host \<Rightarrow> app_context \<Rightarrow> printed" where
  "run_env_test h ctx =
     (let report = detect_capabilities h ctx
      in if ga_json (ctx_global ctx) then [Inr (report_json report)]
         else map (\<lambda>cap. Inl (role_line cap)) (rep_roles report))"

definition debug_capabilities :: "host \<Rightarrow> app_context \<Rightarrow> printed" where
  "debug_capabilities h ctx =
     (let report = detect_capabilities h ctx
      in if ga_json (ctx_global ctx) then [Inr (report_json report)]
         else [Inl (''profile: '' @ ga_profile (ctx_global ctx)),
               Inl (''repo_root: '' @ unwrap_or ''not detected'' (rep_repo_root report))]
           @ map (\<lambda>cap. Inl (''role='' @ role_name (cap_role cap) @ '' available='' @ show_bool (cap_available cap)
               @ '' backend='' @ unwrap_or ''none'' (cap_backend cap)
               @ (if cap_reasons cap = [] then [] else '' reasons='' @ join ''; '' (cap_reasons cap)))) (rep_roles report)
           @ map (\<lambda>(tool, available). Inl (''tool='' @ tool @ '' available='' @ show_bool available)) (rep_tools report))"

subsection \<open>Validating a profile\<close>

definition config_validation_mode :: "string \<Rightarrow> validation_mode result" where
  "config_validation_mode raw =
     (let s = trim raw
      in if s = ''strict'' then Inr Strict
         else if s = ''debug'' then Inr Debug
         else Inl (''invalid --validation-mode '' @ quoted s @ ''; expected strict or debug''))"

fun check_env_files :: "host \<Rightarrow> string list \<Rightarrow> unit result" where
  "check_env_files h [] = Inr ()"
| "check_env_files h (path # paths) = and_then (parse_env_file h path) (\<lambda>_. check_env_files h paths)"

definition config_contract_errors :: "app_context \<Rightarrow> contract_error list result" where
  "config_contract_errors ctx =
     (case ctx_contract ctx of
        None \<Rightarrow> Inr []
      | Some contract \<Rightarrow>
          and_then (case ga_validation_mode (ctx_global ctx) of
                      None \<Rightarrow> Inr contract
                    | Some raw \<Rightarrow> and_then (config_validation_mode raw) (\<lambda>mode. Inr (in_mode mode contract)))
            (\<lambda>checked.
          (case validate_contract checked (ga_profile (ctx_global ctx)) of
             Inl errors \<Rightarrow> Inr errors
           | Inr _ \<Rightarrow> Inr [])))"

definition error_json :: "contract_error \<Rightarrow> json" where
  "error_json e = obj [(''code'', JString (err_code e)), (''message'', JString (err_message e)),
     (''security_critical'', JBool (security_critical e))]"

text \<open>The outcome and what was printed before it.\<close>

definition validate_profile :: "host \<Rightarrow> app_context \<Rightarrow> unit result \<times> printed" where
  "validate_profile h ctx =
     (let g = ctx_global ctx; contract_path = json_optional (ctx_contract_path ctx)
      in case and_then (load_profile_from_path h (ctx_profile_path ctx)) (\<lambda>_.
              and_then (check_env_files h (ga_env_files g)) (\<lambda>_. config_contract_errors ctx)) of
           Inl error \<Rightarrow> (Inl error, [])
         | Inr errors \<Rightarrow>
             if errors \<noteq> [] then
               if (\<exists>e \<in> set errors. security_critical e) \<or> \<not> ga_force g then
                 (Inl (''contract validation failed for profile '' @ ga_profile g @ '':'' @ [CHR 0x0A]
                       @ join [CHR 0x0A] (map render_error errors)),
                  if ga_json g
                  then [Inr (obj [(''profile'', JString (ga_profile g)), (''contract_path'', contract_path),
                          (''valid'', JBool False), (''errors'', JArray (map error_json errors))])]
                  else [])
               else
                 (Inr (),
                  if ga_json g
                  then [Inr (obj [(''profile'', JString (ga_profile g)), (''contract_path'', contract_path),
                          (''valid'', JBool True), (''warnings'', JArray (map error_json errors))])]
                  else [Inl (''profile validation passed with --force (non-security warnings):'' @ [CHR 0x0A]
                          @ join [CHR 0x0A] (map (\<lambda>e. ''- ['' @ err_code e @ ''] '' @ err_message e) errors))])
             else
               (Inr (),
                if ga_json g
                then [Inr (obj [(''profile'', JString (ga_profile g)), (''profile_path'', JString (ctx_profile_path ctx)),
                        (''contract_path'', contract_path), (''valid'', JBool True)])]
                else [Inl (''profile validation passed: '' @ ctx_profile_path ctx)]))"

subsection \<open>Smoke tests\<close>

record smoke_options =
  so_relay_url :: string
  so_insecure :: bool
  so_skip_unit_tests :: bool

fun smoke_options_loop :: "string list \<Rightarrow> smoke_options \<Rightarrow> smoke_options result" where
  "smoke_options_loop [] opts = Inr opts"
| "smoke_options_loop (argument # rest) opts =
     (if argument = ''--relay-url'' then
        (case rest of
           [] \<Rightarrow> Inl ''missing value for --relay-url''
         | next_value # rest' \<Rightarrow> smoke_options_loop rest' (opts\<lparr>so_relay_url := next_value\<rparr>))
      else if argument = ''--insecure'' then smoke_options_loop rest (opts\<lparr>so_insecure := True\<rparr>)
      else if argument = ''--skip-unit-tests'' then smoke_options_loop rest (opts\<lparr>so_skip_unit_tests := True\<rparr>)
      else Inl (''unsupported smoke serve arg '' @ quoted argument
                @ ''; supported: --relay-url, --insecure, --skip-unit-tests''))"

definition parse_serve_smoke_options :: "string list \<Rightarrow> smoke_options result" where
  "parse_serve_smoke_options arguments = smoke_options_loop arguments
     \<lparr>so_relay_url = ''http://127.0.0.1:8080'', so_insecure = False, so_skip_unit_tests = False\<rparr>"

text \<open>\<open>cargo test\<close> (\<open>None\<close> when it cannot be started), the client, and the statuses of the answers with
  their text.\<close>

record smoke_io =
  sm_cargo_test :: "string \<Rightarrow> bool option"
  sm_build_client :: "bool \<Rightarrow> bool"
  sm_get :: "string \<Rightarrow> nat option"
  sm_post :: "string \<Rightarrow> (string \<times> string) list \<Rightarrow> string \<Rightarrow> nat option"
  sm_show_status :: "nat \<Rightarrow> string"

definition smoke_headers :: "(string \<times> string) list" where
  "smoke_headers = [(''Content-Type'', ''application/json''), (''X-GitHub-Event'', ''pull_request''),
     (''X-GitHub-Delivery'', ''hook-smoke-unauthorized''), (''X-Hub-Signature-256'', ''sha256=deadbeef'')]"

definition smoke_body :: string where
  "smoke_body = [CHR 0x7B, CHR 0x22] @ ''action'' @ [CHR 0x22, CHR 0x3A, CHR 0x22] @ ''opened'' @ [CHR 0x22, CHR 0x7D]"

text \<open>What a command asked the outside to do, in order: a run of \<open>cargo test\<close> in a directory, and the requests
  handed to the HTTP client.\<close>

datatype web_effect =
    CargoTest string
  | HttpGet string
  | HttpPost string "(string \<times> string) list" string

definition quietly :: "'a result \<Rightarrow> 'a result \<times> web_effect list" where
  "quietly r = (r, [])"

definition noting :: "web_effect \<Rightarrow> 'a result \<Rightarrow> 'a result \<times> web_effect list" where
  "noting effect r = (r, [effect])"

definition then_do ::
  "'a result \<times> web_effect list \<Rightarrow> ('a \<Rightarrow> 'b result \<times> web_effect list) \<Rightarrow> 'b result \<times> web_effect list" where
  "then_do first rest =
     (case first of
        (Inl error, tr) \<Rightarrow> (Inl error, tr)
      | (Inr x, tr) \<Rightarrow> (case rest x of (r, tr') \<Rightarrow> (r, tr @ tr')))"

definition run_smoke_serve :: "smoke_io \<Rightarrow> app_context \<Rightarrow> string list \<Rightarrow> string result \<times> web_effect list" where
  "run_smoke_serve io ctx passthrough =
     then_do (quietly (parse_serve_smoke_options passthrough)) (\<lambda>opts.
     then_do (if so_skip_unit_tests opts then quietly (Inr ())
              else then_do (quietly (ok_or ''repo root not detected; cannot run workspace tests'' (ctx_repo_root ctx))) (\<lambda>root.
                   then_do (noting (CargoTest root) (ok_or ''run workspace tests for smoke serve'' (sm_cargo_test io root))) (\<lambda>success.
                     quietly (ensure success ''serve smoke failed: cargo test --workspace'')))) (\<lambda>_.
     then_do (quietly (ensure (sm_build_client io (so_insecure opts)) ''build smoke serve http client'')) (\<lambda>_.
     then_do (noting (HttpGet (so_relay_url opts @ ''/health''))
                (ok_or ''request relay /health'' (sm_get io (so_relay_url opts @ ''/health'')))) (\<lambda>health.
     then_do (quietly (ensure (200 \<le> health \<and> health < 300)
                         (''serve smoke failed: /health returned '' @ sm_show_status io health))) (\<lambda>_.
     then_do (noting (HttpPost (so_relay_url opts @ ''/webhook/github'') smoke_headers smoke_body)
                (ok_or ''request unauthorized github webhook''
                   (sm_post io (so_relay_url opts @ ''/webhook/github'') smoke_headers smoke_body))) (\<lambda>unauthorized.
     then_do (quietly (ensure (unauthorized = 401)
                (''serve smoke failed: unauthorized github webhook expected 401, got '' @ sm_show_status io unauthorized))) (\<lambda>_.
       quietly (Inr ''serve smoke check passed (/health + unauthorized github signature)''))))))))"

definition run_smoke_relay :: "host \<Rightarrow> app_context \<Rightarrow> string result" where
  "run_smoke_relay h ctx =
     (if resolve_value h ctx None ''KAFKA_BROKERS'' = None \<or> resolve_value h ctx None ''KAFKA_TOPICS'' = None
         \<or> resolve_value h ctx None ''HOOK_RELAY_OUTPUT_TOPIC'' = None
      then Inl ''relay smoke check missing required values: KAFKA_BROKERS, KAFKA_TOPICS, HOOK_RELAY_OUTPUT_TOPIC''
      else Inr ''relay smoke check passed (required config detected)'')"

definition run_smoke_smash :: "smoke_io \<Rightarrow> host \<Rightarrow> app_context \<Rightarrow> string result \<times> web_effect list" where
  "run_smoke_smash io h ctx =
     then_do (quietly (ok_or ''missing OPENCLAW_WEBHOOK_URL'' (resolve_value h ctx None ''OPENCLAW_WEBHOOK_URL''))) (\<lambda>url.
     then_do (quietly (ok_or ''missing OPENCLAW_WEBHOOK_TOKEN'' (resolve_value h ctx None ''OPENCLAW_WEBHOOK_TOKEN''))) (\<lambda>token.
     let headers = [(''Authorization'', ''Bearer '' @ token), (''Content-Type'', ''application/json'')];
         body = [CHR 0x7B, CHR 0x7D]
     in then_do (noting (HttpPost url headers body) (ok_or ''send smash smoke request'' (sm_post io url headers body))) (\<lambda>status.
          quietly (Inr (''smash smoke response status='' @ sm_show_status io status)))))"

subsection \<open>Replay\<close>

definition replay_url :: "string \<Rightarrow> string option \<Rightarrow> string" where
  "replay_url url source =
     (case source of
        None \<Rightarrow> url
      | Some s \<Rightarrow> url @ (if CHR 0x3F \<in> set url then [CHR 0x26] else [CHR 0x3F]) @ ''source='' @ s)"

definition replay_header :: "string \<Rightarrow> (string \<times> string) result" where
  "replay_header header =
     and_then (ok_or (''invalid header (expected Name:Value): '' @ header) (split_once (CHR '':'') header))
       (\<lambda>(name, v). Inr (trim name, trim v))"

text \<open>\<open>post\<close> is the HTTP request: its status and body text, \<open>None\<close> when it could not be sent.\<close>

definition replay_webhook ::
  "host \<Rightarrow> (string \<Rightarrow> (string \<times> string) list \<Rightarrow> string \<Rightarrow> (string \<times> string) option) \<Rightarrow>
     string \<Rightarrow> string \<Rightarrow> string option \<Rightarrow> string list \<Rightarrow> printed result \<times> web_effect list" where
  "replay_webhook h post url file source headers =
     then_do (quietly (ok_or (''read replay file: '' @ file) (host_read h file))) (\<lambda>body.
     then_do (quietly (collect_results replay_header headers)) (\<lambda>hs.
     let target = replay_url url source; all_headers = (''Content-Type'', ''application/json'') # hs
     in then_do (noting (HttpPost target all_headers body)
                   (ok_or ''send replay webhook request'' (post target all_headers body))) (\<lambda>(status, payload).
          quietly (Inr [Inl (''status='' @ status), Inl (''body='' @ payload)]))))"

record replay_kafka_args =
  rk_topic :: string
  rk_file :: string
  rk_brokers :: "string option"
  rk_key :: "string option"
  rk_mode :: relay_mode

definition replay_settings :: "host \<Rightarrow> app_context \<Rightarrow> string \<Rightarrow> (string \<times> string) list" where
  "replay_settings h ctx brokers =
     [(''bootstrap.servers'', brokers),
      (''security.protocol'', unwrap_or ''plaintext'' (resolve_value h ctx None ''KAFKA_SECURITY_PROTOCOL''))]
     @ setting ''ssl.certificate.location'' (resolve_value h ctx None ''KAFKA_TLS_CERT'')
     @ setting ''ssl.key.location'' (resolve_value h ctx None ''KAFKA_TLS_KEY'')
     @ setting ''ssl.ca.location'' (resolve_value h ctx None ''KAFKA_TLS_CA'')
     @ setting ''sasl.mechanism'' (resolve_value h ctx None ''KAFKA_SASL_MECHANISM'')
     @ setting ''sasl.username'' (resolve_value h ctx None ''KAFKA_SASL_USERNAME'')
     @ setting ''sasl.password'' (resolve_value h ctx None ''KAFKA_SASL_PASSWORD'')"

definition replay_kafka_line :: "replay_kafka_args \<Rightarrow> string" where
  "replay_kafka_line args =
     ''replayed payload to kafka topic='' @ rk_topic args @ '' mode=''
       @ (case rk_mode args of EnvelopeMode \<Rightarrow> ''Envelope'' | RawMode \<Rightarrow> ''Raw'')"

text \<open>The record handed to the producer, and its answer: the trace of sends.\<close>

definition replay_kafka ::
  "host \<Rightarrow> relay_world \<Rightarrow> app_context \<Rightarrow> replay_kafka_args \<Rightarrow> unit result \<times> relay_effect list" where
  "replay_kafka h w ctx args =
     (case and_then (ok_or ''missing KAFKA_BROKERS or --brokers'' (resolve_value h ctx (rk_brokers args) ''KAFKA_BROKERS'')) (\<lambda>brokers.
           and_then (ok_or (''read replay file: '' @ rk_file args) (host_read h (rk_file args))) (\<lambda>payload.
           and_then (ensure (\<not> (rk_mode args = EnvelopeMode \<and> \<not> rw_is_envelope w payload))
                      ''replay payload is not a valid WebhookEnvelope JSON in envelope mode'') (\<lambda>_.
           and_then (ensure (rw_create_producer w (replay_settings h ctx brokers)) ''create replay producer'') (\<lambda>_.
             Inr payload)))) of
        Inl error \<Rightarrow> (Inl error, [])
      | Inr payload \<Rightarrow>
          (case rw_send w [] (rk_topic args) (rk_key args) payload of
             Some error \<Rightarrow> (Inl (''kafka replay send failed: '' @ error), [RelaySend (rk_topic args) (rk_key args) payload False])
           | None \<Rightarrow> (Inr (), [RelaySend (rk_topic args) (rk_key args) payload True])))"

subsection \<open>\<open>debug env\<close>\<close>

definition debug_env :: "host \<Rightarrow> app_context \<Rightarrow> bool \<Rightarrow> string" where
  "debug_env h ctx no_redact =
     (if no_redact
      then join [CHR 0x0A] (map (\<lambda>(k, v). k @ ''='' @ v) (merged_env_for_command h ctx []))
      else redacted_merged_env_text h ctx)"

subsection \<open>Importing twice\<close>

lemma btree_list: "btree_wf m \<Longrightarrow> map (\<lambda>k. (k, the (map_of m k))) (map fst m) = m"
  by (auto intro!: map_idI simp: comp_def btree_wf_def strict_sorted_iff map_of_is_SomeI)

lemma btree_eqI:
  assumes "btree_wf m" "btree_wf m'" "map_of m = map_of m'"
  shows "m = m'"
proof -
  have "set (map fst m) = set (map fst m')"
    using assms(3) dom_map_of_conv_image_fst [of m] dom_map_of_conv_image_fst [of m'] by simp
  then have keys: "map fst m = map fst m'"
    using assms(1,2) strict_sorted_equal unfolding btree_wf_def by blast
  show ?thesis using btree_list [OF assms(1)] btree_list [OF assms(2)] keys assms(3) by simp
qed

definition overlay :: "(string \<times> string) list \<Rightarrow> (string \<times> string) list \<Rightarrow> (string \<times> string) list" where
  "overlay kvs m = fold (\<lambda>(k, v). btree_insert k v) kvs m"

lemma overlay_laws: "map_of (overlay kvs m) = map_of m ++ map_of (rev kvs)" "btree_wf m \<Longrightarrow> btree_wf (overlay kvs m)"
  by (simp_all add: overlay_def bt.lookup_collect bt.invar_collect)

lemma map_add_twice: "m ++ f ++ g ++ f ++ g = m ++ f ++ g"
proof
  fix k
  show "(m ++ f ++ g ++ f ++ g) k = (m ++ f ++ g) k" by (cases "g k"; cases "f k") (simp_all add: map_add_def)
qed

lemma overlay_twice: "btree_wf m \<Longrightarrow> overlay b (overlay a (overlay b (overlay a m))) = overlay b (overlay a m)"
  by (rule btree_eqI) (simp_all only: overlay_laws map_add_twice)

lemma merge_default: "merge_profile t default_profile = t"
proof -
  have "hp_backends t = \<lparr>serve_cmd = serve_cmd (hp_backends t), smash_cmd = smash_cmd (hp_backends t)\<rparr>" by simp
  then show ?thesis by (simp add: merge_profile_def default_profile_def or_else_def)
qed

lemma imported_profile_steps:
  "imported_profile h ctx toml_path env_files =
     and_then (case toml_path of Some path \<Rightarrow> load_profile_from_path h path | None \<Rightarrow> Inr default_profile) (\<lambda>source.
     and_then (merge_env_files h (ga_env_files (ctx_global ctx) @ env_files)) (\<lambda>env.
       Inr ((merge_profile (ctx_profile ctx) source)
              \<lparr>hp_env := overlay env (overlay (hp_env source) (hp_env (ctx_profile ctx)))\<rparr>)))"
proof (cases toml_path)
  case None
  then show ?thesis by (simp add: imported_profile_def merge_default overlay_def) (simp add: default_profile_def)
next
  case (Some path)
  then show ?thesis
    by (cases "load_profile_from_path h path") (simp_all add: imported_profile_def overlay_def, simp add: merge_profile_def)
qed

subsection \<open>Properties\<close>

text \<open>Importing is idempotent: importing the same files again into the profile an import has produced
  gives the same profile, so a repeated \<open>config import\<close> or \<open>introduce\<close> writes the same file.\<close>

theorem import_idempotent:
  assumes "context_ok ctx" "imported_profile h ctx toml_path env_files = Inr p"
  shows "imported_profile h (ctx\<lparr>ctx_profile := p\<rparr>) toml_path env_files = Inr p"
proof -
  have wf: "btree_wf (hp_env (ctx_profile ctx))" using assms(1) by (simp add: context_ok_def)
  obtain source env where s: "(case toml_path of Some path \<Rightarrow> load_profile_from_path h path | None \<Rightarrow> Inr default_profile) = Inr source"
    "merge_env_files h (ga_env_files (ctx_global ctx) @ env_files) = Inr env"
    "p = (merge_profile (ctx_profile ctx) source)\<lparr>hp_env := overlay env (overlay (hp_env source) (hp_env (ctx_profile ctx)))\<rparr>"
    using assms(2) unfolding imported_profile_steps and_then_Inr_iff by auto
  have "p = (merge_profile p source)\<lparr>hp_env := overlay env (overlay (hp_env source) (hp_env p))\<rparr>"
    using overlay_twice [OF wf, of env "hp_env source"]
    by (auto simp: s(3) merge_profile_def or_else_def split: option.splits)
  with s(1,2) show ?thesis unfolding imported_profile_steps by simp
qed

theorem import_idempotent_witness:
  "\<exists>p. imported_profile demo_host (demo_context\<lparr>ctx_profile := p\<rparr>) None [] = Inr p \<and> hp_env p = demo_entries"
proof -
  have "context_ok demo_context" by code_simp
  moreover have "(case imported_profile demo_host demo_context None [] of Inl _ \<Rightarrow> False | Inr p \<Rightarrow> hp_env p = demo_entries)"
    by code_simp
  then obtain p where "imported_profile demo_host demo_context None [] = Inr p" "hp_env p = demo_entries"
    by (auto split: sum.splits)
  ultimately show ?thesis using import_idempotent by blast
qed

lemma validated_then_checked:
  assumes "fst (validate_profile h ctx) = Inr ()" "ctx_contract ctx = Some contract"
  shows "\<exists>checked v. contract_for_validation ctx contract = Inr checked \<and> validate_or_force command ctx checked = Inr v"
proof -
  obtain errors where errors: "config_contract_errors ctx = Inr errors"
    "errors = [] \<or> \<not> (\<exists>e \<in> set errors. security_critical e) \<and> ga_force (ctx_global ctx)"
    using assms(1) by (auto simp: validate_profile_def Let_def and_then_Inr_iff split: sum.splits if_splits)
  have modes: "parse_validation_mode raw = Inr mode" if "config_validation_mode raw = Inr mode" for raw mode
  proof -
    have "to_ascii_lowercase ''strict'' = ''strict''" "to_ascii_lowercase ''debug'' = ''debug''" by code_simp+
    with that show ?thesis by (auto simp: config_validation_mode_def parse_validation_mode_def Let_def split: if_splits)
  qed
  obtain checked where c: "(case ga_validation_mode (ctx_global ctx) of
        None \<Rightarrow> Inr contract
      | Some raw \<Rightarrow> and_then (config_validation_mode raw) (\<lambda>mode. Inr (in_mode mode contract))) = Inr checked"
    "(case validate_contract checked (ga_profile (ctx_global ctx)) of Inl errors \<Rightarrow> Inr errors | Inr _ \<Rightarrow> Inr []) =
      (Inr errors :: contract_error list result)"
    using errors(1) unfolding config_contract_errors_def assms(2) option.case and_then_Inr_iff
    by (elim exE conjE) (rule that)
  have "contract_for_validation ctx contract = Inr checked"
    using c(1) modes by (cases "ga_validation_mode (ctx_global ctx)") (auto simp: contract_for_validation_def and_then_Inr_iff)
  moreover have "validate_contract checked (ga_profile (ctx_global ctx)) = Inl errors \<or>
     (\<exists>v. validate_contract checked (ga_profile (ctx_global ctx)) = Inr v)"
    using c(2) by (cases "validate_contract checked (ga_profile (ctx_global ctx))") auto
  ultimately have checked: "contract_for_validation ctx contract = Inr checked"
    "validate_contract checked (ga_profile (ctx_global ctx)) = Inl errors \<or>
     (\<exists>v. validate_contract checked (ga_profile (ctx_global ctx)) = Inr v)" by blast+
  from checked(2) show ?thesis
  proof
    assume fails: "validate_contract checked (ga_profile (ctx_global ctx)) = Inl errors"
    then have "errors \<noteq> []" by (auto simp: validate_contract_def Let_def split: option.splits if_splits prod.splits)
    with errors(2) fails checked(1) show ?thesis by (auto simp: validate_or_force_def)
  qed (use checked(1) in \<open>auto simp: validate_or_force_def\<close>)
qed

lemma collect_results_Inl: "collect_results f xs = Inl e \<Longrightarrow> \<exists>x \<in> set xs. f x = Inl e"
  by (induction xs) (auto simp: and_then_Inl_iff)

text \<open>C31. What \<open>config validate\<close> predicts: when it passes, the validation of the contract passes in \<open>hook serve\<close> and
  \<open>hook smash\<close> in the same context too. The contract can stop them only where they turn it into the
  environment of the program they start, which \<open>config validate\<close> does not try: \<open>hook serve\<close> with the error
  of one of its ingress adapters, \<open>hook smash\<close> with the error of one of its output adapters, of one of its
  routes, or of the transports of the adapters it made.\<close>

theorem config_validate_predicts_launch:
  assumes "fst (validate_profile h ctx) = Inr ()" "ctx_contract ctx = Some contract"
  shows "(\<exists>checked v. contract_for_validation ctx contract = Inr checked \<and> validate_or_force command ctx checked = Inr v)
     \<and> (\<forall>error. resolve_active_serve_contract lc ctx contract = Inl error \<longrightarrow>
          (\<exists>a \<in> set (ingress_adapter_defs (con_serve contract)). to_serve_adapter_env lc a = Inl error))
     \<and> (\<forall>error. resolve_active_smash_contract lc ctx contract = Inl error \<longrightarrow>
          (\<exists>a \<in> set (egress_adapter_defs (con_smash contract)). to_smash_adapter_env lc a = Inl error)
        \<or> (\<exists>r \<in> set (smash_route_defs (con_smash contract)). to_smash_route_env r = Inl error)
        \<or> (\<exists>adapters. (\<forall>b \<in> set adapters. \<exists>a \<in> set (egress_adapter_defs (con_smash contract)). to_smash_adapter_env lc a = Inr b)
              \<and> adapter_transports contract adapters = Inl error))"
proof (intro conjI allI impI)
  show "\<exists>checked v. contract_for_validation ctx contract = Inr checked \<and> validate_or_force command ctx checked = Inr v"
    by (rule validated_then_checked [OF assms])
next
  fix error assume fails: "resolve_active_serve_contract lc ctx contract = Inl error"
  obtain checked v where c: "contract_for_validation ctx contract = Inr checked" "validate_or_force ''serve'' ctx checked = Inr v"
    using validated_then_checked [OF assms] by blast
  obtain validated where v: "v = Some validated"
    using fails c by (cases v) (auto simp: resolve_active_serve_contract_def)
  from fails c v have "collect_results (to_serve_adapter_env lc)
      (filter (\<lambda>a. in_id a \<in> set (vp_serve_adapter_ids validated)) (ingress_adapter_defs (con_serve contract))) = Inl error"
    by (auto simp: resolve_active_serve_contract_def and_then_Inl_iff Let_def)
  from collect_results_Inl [OF this] show "\<exists>a \<in> set (ingress_adapter_defs (con_serve contract)). to_serve_adapter_env lc a = Inl error"
    by auto
next
  fix error assume fails: "resolve_active_smash_contract lc ctx contract = Inl error"
  obtain checked v where c: "contract_for_validation ctx contract = Inr checked" "validate_or_force ''smash'' ctx checked = Inr v"
    using validated_then_checked [OF assms] by blast
  obtain validated where v: "v = Some validated"
    using fails c by (cases v) (auto simp: resolve_active_smash_contract_def Let_def)
  let ?as = "filter (\<lambda>a. out_id a \<in> set (vp_smash_adapter_ids validated)) (egress_adapter_defs (con_smash contract))"
  let ?rs = "filter (\<lambda>r. smr_id r \<in> set (vp_smash_route_ids validated)) (smash_route_defs (con_smash contract))"
  from fails c v consider
      (adapter) "collect_results (to_smash_adapter_env lc) ?as = Inl error"
    | (route) "collect_results to_smash_route_env ?rs = Inl error"
    | (transport) adapters where "collect_results (to_smash_adapter_env lc) ?as = Inr adapters"
        "adapter_transports contract adapters = Inl error"
    by (auto simp: resolve_active_smash_contract_def and_then_Inl_iff Let_def)
  then show "(\<exists>a \<in> set (egress_adapter_defs (con_smash contract)). to_smash_adapter_env lc a = Inl error)
        \<or> (\<exists>r \<in> set (smash_route_defs (con_smash contract)). to_smash_route_env r = Inl error)
        \<or> (\<exists>adapters. (\<forall>b \<in> set adapters. \<exists>a \<in> set (egress_adapter_defs (con_smash contract)). to_smash_adapter_env lc a = Inr b)
              \<and> adapter_transports contract adapters = Inl error)"
  proof cases
    case adapter
    from collect_results_Inl [OF this] show ?thesis by auto
  next
    case route
    from collect_results_Inl [OF this] show ?thesis by auto
  next
    case (transport adapters)
    then show ?thesis using collect_results_member [OF transport(1)] by (intro disjI2 exI [of _ adapters]) auto
  qed
qed

text \<open>A contract that passes \<open>config validate\<close> and does not start: its route names its topics by a pattern.\<close>

definition wildcard_topic_contract :: app_contract where
  "wildcard_topic_contract = embedded_default_contract
     \<lparr>con_smash := (con_smash embedded_default_contract)
        \<lparr>smash_route_defs := map (\<lambda>r. r\<lparr>smr_source_topic_pattern := ''webhooks.*''\<rparr>)
           (smash_route_defs (con_smash embedded_default_contract))\<rparr>\<rparr>"

definition wildcard_topic_context :: app_context where
  "wildcard_topic_context = demo_context\<lparr>ctx_contract := Some wildcard_topic_contract\<rparr>"

theorem validated_contract_may_not_start:
  "fst (validate_profile demo_host wildcard_topic_context) = Inr ()
     \<and> isl (resolve_active_smash_contract demo_launch_crates wildcard_topic_context wildcard_topic_contract)"
  by (rule conjI; code_simp)

theorem config_validate_predicts_launch_witness:
  "(\<exists>v. validate_or_force ''serve'' wildcard_topic_context wildcard_topic_contract = Inr v)
     \<and> (\<forall>error. resolve_active_serve_contract demo_launch_crates wildcard_topic_context wildcard_topic_contract \<noteq> Inl error)"
proof -
  have ok: "fst (validate_profile demo_host wildcard_topic_context) = Inr ()" by code_simp
  have c: "ctx_contract wildcard_topic_context = Some wildcard_topic_contract" by (simp add: wildcard_topic_context_def)
  have "contract_for_validation wildcard_topic_context wildcard_topic_contract = Inr wildcard_topic_contract"
    by (simp add: contract_for_validation_def wildcard_topic_context_def demo_context_def demo_args_def)
  moreover have "list_all (\<lambda>a. \<not> isl (to_serve_adapter_env demo_launch_crates a)) (ingress_adapter_defs (con_serve wildcard_topic_contract))"
    by code_simp
  then have "to_serve_adapter_env demo_launch_crates a \<noteq> Inl error"
    if "a \<in> set (ingress_adapter_defs (con_serve wildcard_topic_contract))" for a error
    using that by (auto simp: list_all_iff)
  ultimately show ?thesis
    using config_validate_predicts_launch [OF ok c, of "''serve''" demo_launch_crates] by auto
qed

text \<open>The options of the serve smoke test read back: the flags that spell a set of options are parsed to
  exactly those options.\<close>

theorem smoke_options_round_trip:
  "parse_serve_smoke_options ([''--relay-url'', so_relay_url opts]
       @ (if so_insecure opts then [''--insecure''] else [])
       @ (if so_skip_unit_tests opts then [''--skip-unit-tests''] else [])) = Inr opts"
  by (cases opts) (simp add: parse_serve_smoke_options_def)

text \<open>Replaying to Kafka sends the file once or not at all: at most one record goes out, to the given
  topic and with the given key; its payload is the content of the file, in envelope mode a valid
  envelope; and the command succeeds exactly when the broker accepted it.\<close>

theorem replay_sends_file_once:
  "(fst (replay_kafka h w ctx args) = Inr () \<longleftrightarrow>
      (\<exists>payload. snd (replay_kafka h w ctx args) = [RelaySend (rk_topic args) (rk_key args) payload True]))
   \<and> (snd (replay_kafka h w ctx args) = [] \<or>
      (\<exists>payload accepted. host_read h (rk_file args) = Some payload
         \<and> (rk_mode args = RawMode \<or> rw_is_envelope w payload)
         \<and> snd (replay_kafka h w ctx args) = [RelaySend (rk_topic args) (rk_key args) payload accepted]))"
  by (cases "rk_mode args")
     (auto simp: replay_kafka_def and_then_Inr_iff ok_or_Inr_iff ensure_Inr_iff split: sum.splits option.splits)

theorem replay_sends_file_once_witness:
  "snd (replay_kafka demo_host (demo_relay_world\<lparr>rw_send := \<lambda>_ _ _ _. None\<rparr>) demo_context
      \<lparr>rk_topic = ''t'', rk_file = ''test.env'', rk_brokers = None, rk_key = None, rk_mode = RawMode\<rparr>) =
    [RelaySend ''t'' None (env_text demo_entries) True]"
proof -
  let ?w = "demo_relay_world\<lparr>rw_send := \<lambda>_ _ _ _. None\<rparr>"
  let ?args = "\<lparr>rk_topic = ''t'', rk_file = ''test.env'', rk_brokers = None, rk_key = None, rk_mode = RawMode\<rparr>"
  have ok: "fst (replay_kafka demo_host ?w demo_context ?args) = Inr ()" by code_simp
  have content: "host_read demo_host ''test.env'' = Some (env_text demo_entries)" by (simp add: demo_host_def)
  from ok content replay_sends_file_once [of demo_host ?w demo_context ?args] show ?thesis by auto
qed

text \<open>The relay smoke test says what it checks: when it passes, \<open>hook relay\<close> without flags loads its
  configuration, unless the list of topics has only commas and white space.\<close>

theorem relay_smoke_predicts_start:
  assumes "run_smoke_relay h ctx = Inr message"
    and "ra_brokers args = None" "ra_topics args = None" "ra_output_topic args = None"
  shows "(\<exists>rt. load_runtime_config h ctx args = Inr rt)
     \<or> (\<exists>raw. resolve_value h ctx None ''KAFKA_TOPICS'' = Some raw \<and> parse_topics raw = [])"
  using assms by (auto simp: run_smoke_relay_def load_runtime_config_def Let_def and_then_Inr_iff ok_or_Inr_iff split: if_splits)

theorem relay_smoke_predicts_start_witness:
  "\<exists>rt. load_runtime_config
      (demo_host\<lparr>host_vars := [(''HOOK_RELAY_OUTPUT_TOPIC'', ''out''), (''KAFKA_TOPICS'', ''in'')]\<rparr>) demo_context
      (demo_relay_args\<lparr>ra_topics := None, ra_output_topic := None\<rparr>) = Inr rt"
proof -
  let ?h = "demo_host\<lparr>host_vars := [(''HOOK_RELAY_OUTPUT_TOPIC'', ''out''), (''KAFKA_TOPICS'', ''in'')]\<rparr>"
  let ?args = "demo_relay_args\<lparr>ra_topics := None, ra_output_topic := None\<rparr>"
  have "run_smoke_relay ?h demo_context = Inr ''relay smoke check passed (required config detected)''"
    "resolve_value ?h demo_context None ''KAFKA_TOPICS'' = Some ''in''" "parse_topics ''in'' \<noteq> []" by code_simp+
  moreover have "ra_brokers ?args = None" "ra_topics ?args = None" "ra_output_topic ?args = None"
    by (simp_all add: demo_relay_args_def)
  ultimately show ?thesis using relay_smoke_predicts_start [of ?h demo_context _ ?args] by auto
qed

end
