(* ===== verification/Cli_Logs.thy ===== *)
theory Cli_Logs
  imports Cli_Commands
begin

section \<open>The log collector\<close>

text \<open>
  \<open>tools/hook/src/commands/logs.rs\<close>: \<open>hook logs\<close> gathers diagnostics, journals, container logs and
  watchdog files, redacts them, and prints them or packs them into a bundle with a manifest. The
  programs it runs, the files it reads and writes, the clock and the regular expression engine are the
  record \<open>log_io\<close>.
\<close>

subsection \<open>Data\<close>

datatype logs_scope = ScopeAuto | ScopeFull | ScopeRuntime | ScopeSystem

datatype logs_format = FormatBundle | FormatStream | FormatBoth

record logs_collect_args =
  lc_scope :: logs_scope
  lc_format :: logs_format
  lc_since :: "string option"
  lc_until :: "string option"
  lc_lines :: usize
  lc_output :: "string option"
  lc_redact :: bool
  lc_no_redact :: bool

record logs_tail_args =
  lt_scope :: logs_scope
  lt_lines :: usize
  lt_follow :: bool
  lt_redact :: bool
  lt_no_redact :: bool

record collected_entry =
  ent_file_name :: string
  ent_source :: string
  ent_content :: string

record manifest_source =
  ms_name :: string
  ms_file :: "string option"
  ms_success :: bool
  ms_error :: "string option"

record log_manifest =
  mf_created_at :: string
  mf_scope :: logs_scope
  mf_format :: logs_format
  mf_redact :: bool
  mf_profile :: string
  mf_sources :: "manifest_source list"

text \<open>\<open>command.output()\<close>: the text of the error when the program did not start, or whether it
  succeeded, its output and its error output.\<close>

datatype command_output =
    NotStarted string
  | Completed bool string string

record log_io =
  lg_output :: "string \<Rightarrow> string list \<Rightarrow> command_output"
  lg_status :: "string \<Rightarrow> string list \<Rightarrow> bool option"
  lg_read :: "string \<Rightarrow> string result"
  lg_regex :: "string \<Rightarrow> (string \<Rightarrow> string \<Rightarrow> string) result"
  lg_pretty :: "json \<Rightarrow> string"
  lg_rfc3339 :: string
  lg_stamp :: string
  lg_staging_dir :: string
  lg_parent :: "string \<Rightarrow> string option"
  lg_create_dir_all :: "string \<Rightarrow> bool"
  lg_write :: "string \<Rightarrow> string \<Rightarrow> bool"

text \<open>What is collected: the entries and, in parallel, the lines of the manifest.\<close>

type_synonym collection = "collected_entry list \<times> manifest_source list"

definition push_content :: "string \<Rightarrow> string \<Rightarrow> string \<Rightarrow> collection \<Rightarrow> collection" where
  "push_content file_name source content col =
     (fst col @ [\<lparr>ent_file_name = file_name, ent_source = source, ent_content = content\<rparr>],
      snd col @ [\<lparr>ms_name = source, ms_file = Some file_name, ms_success = True, ms_error = None\<rparr>])"

text \<open>The push of a failed source, as it is repeated in the collectors.\<close>

definition push_failure :: "string \<Rightarrow> string \<Rightarrow> collection \<Rightarrow> collection" where
  "push_failure name error col =
     (fst col, snd col @ [\<lparr>ms_name = name, ms_file = None, ms_success = False, ms_error = Some error\<rparr>])"

definition push_output :: "string \<Rightarrow> string \<Rightarrow> command_output \<Rightarrow> collection \<Rightarrow> collection" where
  "push_output file_name source outcome col =
     (case outcome of
        NotStarted error \<Rightarrow> push_failure source error col
      | Completed success stdout stderr \<Rightarrow>
          if success then push_content file_name source stdout col else push_failure source stderr col)"

subsection \<open>File names\<close>

text \<open>A character outside ASCII becomes one underscore.\<close>

definition file_name_char :: "string \<Rightarrow> string" where
  "file_name_char character =
     (case character of
        [c] \<Rightarrow> if (48 \<le> byte c \<and> byte c \<le> 57) \<or> (65 \<le> byte c \<and> byte c \<le> 90) \<or> (97 \<le> byte c \<and> byte c \<le> 122)
                 \<or> c = CHR ''-'' \<or> c = CHR ''_'' then [c] else ''_''
      | _ \<Rightarrow> ''_'')"

definition sanitize_file_name :: "string \<Rightarrow> string" where
  "sanitize_file_name v = concat (map file_name_char (chars v))"

text \<open>\<open>Path::extension\<close>: of the last component, what follows its last dot, unless that is its first character.\<close>

definition path_extension :: "string \<Rightarrow> string option" where
  "path_extension path =
     (let name = last (split_on (CHR ''/'') path); parts = split_on (CHR ''.'') name
      in if name = ''..'' \<or> length parts < 2 \<or> (length parts = 2 \<and> hd parts = []) then None else Some (last parts))"

definition default_output_path :: "log_io \<Rightarrow> string option \<Rightarrow> string" where
  "default_output_path io explicit =
     (case explicit of Some path \<Rightarrow> path | None \<Rightarrow> ''hook-logs-'' @ lg_stamp io @ ''.tar.gz'')"

subsection \<open>The collectors\<close>

definition journal_units :: "string list" where
  "journal_units = [''hook-serve.service'', ''kafka-openclaw-hook.service'', ''firecracker@relay.service'']"

definition journal_arguments :: "logs_collect_args \<Rightarrow> string \<Rightarrow> string list" where
  "journal_arguments args unit =
     [''-u'', unit, ''--no-pager'', ''-n'', show_nat (unat (lc_lines args)), ''-o'', ''short-iso'']
     @ (case lc_since args of None \<Rightarrow> [] | Some since \<Rightarrow> [''--since'', since])
     @ (case lc_until args of None \<Rightarrow> [] | Some until \<Rightarrow> [''--until'', until])"

fun collect_units :: "log_io \<Rightarrow> logs_collect_args \<Rightarrow> string list \<Rightarrow> collection \<Rightarrow> collection" where
  "collect_units io args [] col = col"
| "collect_units io args (unit # units) col =
     collect_units io args units
       (push_output (''journal/'' @ sanitize_file_name unit @ ''.log'') (''journalctl:'' @ unit)
          (lg_output io ''journalctl'' (journal_arguments args unit)) col)"

definition collect_journal_logs :: "host \<Rightarrow> log_io \<Rightarrow> app_context \<Rightarrow> logs_collect_args \<Rightarrow> collection \<Rightarrow> collection" where
  "collect_journal_logs h io ctx args col =
     (if lc_scope args \<notin> {ScopeAuto, ScopeFull, ScopeRuntime, ScopeSystem} then col
      else if \<not> host_which h ''journalctl'' then push_failure ''journalctl'' ''journalctl not available'' col
      else
        let col' = collect_units io args journal_units col
        in if ctx_repo_root ctx = None then push_failure ''journalctl-context'' ''repo root not detected'' col' else col')"

definition docker_arguments :: "host \<Rightarrow> string \<Rightarrow> logs_collect_args \<Rightarrow> string list" where
  "docker_arguments h repo_root args =
     [''compose'', ''-f'', path_join repo_root ''docker-compose.yml'']
     @ (if host_exists h (path_join repo_root ''docker-compose.dev.yml'')
        then [''-f'', path_join repo_root ''docker-compose.dev.yml''] else [])
     @ [''logs'', ''--no-color'', ''--tail'', show_nat (unat (lc_lines args))]"

definition collect_docker_logs :: "host \<Rightarrow> log_io \<Rightarrow> app_context \<Rightarrow> logs_collect_args \<Rightarrow> collection \<Rightarrow> collection" where
  "collect_docker_logs h io ctx args col =
     (if lc_scope args \<notin> {ScopeAuto, ScopeFull, ScopeRuntime} then col
      else case ctx_repo_root ctx of
             None \<Rightarrow> push_failure ''docker'' ''repo root not detected'' col
           | Some repo_root \<Rightarrow>
               if \<not> host_which h ''docker'' then push_failure ''docker'' ''docker not available'' col
               else push_output ''docker/compose.log'' ''docker-compose''
                      (lg_output io ''docker'' (docker_arguments h repo_root args)) col)"

definition watchdog_files :: "string list" where
  "watchdog_files =
     [''/var/log/firecracker/watchdog/heartbeat.log'', ''/var/log/firecracker/watchdog/boot.log'',
      ''/var/log/firecracker/watchdog/shutdown.log'', ''/tmp/firecracker-watchdog/heartbeat.log'',
      ''/tmp/firecracker-watchdog/boot.log'', ''/tmp/firecracker-watchdog/shutdown.log'']"

text \<open>The output of the status script is kept whatever its exit status.\<close>

definition collect_watchdog_file :: "host \<Rightarrow> log_io \<Rightarrow> string \<Rightarrow> collection \<Rightarrow> collection" where
  "collect_watchdog_file h io path col =
     (if \<not> host_exists h path then col
      else if path_extension path = Some ''sh'' then
        (case lg_output io ''bash'' [path] of
           Completed success stdout stderr \<Rightarrow> push_content ''firecracker/status.log'' (''script:'' @ path) stdout col
         | NotStarted error \<Rightarrow> push_failure (''script:'' @ path) error col)
      else
        (case lg_read io path of
           Inr content \<Rightarrow> push_content (''firecracker/'' @ sanitize_file_name path @ ''.log'') (''file:'' @ path) content col
         | Inl error \<Rightarrow> push_failure (''file:'' @ path) error col))"

definition collect_firecracker_logs :: "host \<Rightarrow> log_io \<Rightarrow> app_context \<Rightarrow> collection \<Rightarrow> collection" where
  "collect_firecracker_logs h io ctx col =
     fold (collect_watchdog_file h io)
       (watchdog_files @ (case ctx_repo_root ctx of
                            None \<Rightarrow> [] | Some repo_root \<Rightarrow> [path_join repo_root ''firecracker/watchdog/status.sh''])) col"

subsection \<open>Redaction and output\<close>

definition key_value_pattern :: string where
  "key_value_pattern = ''(?im)'' @ [CHR 0x5C] @ ''b([A-Z0-9_]*(SECRET|TOKEN|PASSWORD|PRIVATE_KEY|SASL)[A-Z0-9_]*)=([^'' @ [CHR 0x5C] @ ''s]+)''"

definition bearer_pattern :: string where
  "bearer_pattern = ''(?im)(authorization'' @ [CHR 0x5C] @ ''s*:'' @ [CHR 0x5C] @ ''s*bearer'' @ [CHR 0x5C] @ ''s+)([^'' @ [CHR 0x5C] @ ''s]+)''"

definition private_key_pattern :: string where
  "private_key_pattern = ''(?s)-----BEGIN [A-Z ]+PRIVATE KEY-----.*?-----END [A-Z ]+PRIVATE KEY-----''"

definition redact_content :: "log_io \<Rightarrow> string \<Rightarrow> string result" where
  "redact_content io content =
     and_then (lg_regex io key_value_pattern) (\<lambda>key_value.
     and_then (lg_regex io bearer_pattern) (\<lambda>bearer.
     and_then (lg_regex io private_key_pattern) (\<lambda>private_key.
       Inr (private_key ''[REDACTED_PRIVATE_KEY]'' (bearer ''$1[REDACTED]'' (key_value ''$1=[REDACTED]'' content))))))"

fun scope_name :: "logs_scope \<Rightarrow> string" where
  "scope_name ScopeAuto = ''auto''"
| "scope_name ScopeFull = ''full''"
| "scope_name ScopeRuntime = ''runtime''"
| "scope_name ScopeSystem = ''system''"

fun format_name :: "logs_format \<Rightarrow> string" where
  "format_name FormatBundle = ''bundle''"
| "format_name FormatStream = ''stream''"
| "format_name FormatBoth = ''both''"

definition manifest_json :: "log_manifest \<Rightarrow> json" where
  "manifest_json m = JObject
     [(''created_at'', JString (mf_created_at m)), (''scope'', JString (scope_name (mf_scope m))),
      (''format'', JString (format_name (mf_format m))), (''redact'', JBool (mf_redact m)),
      (''profile'', JString (mf_profile m)),
      (''sources'', JArray (map (\<lambda>s. JObject
         [(''name'', JString (ms_name s)), (''file'', json_optional (ms_file s)), (''success'', JBool (ms_success s)),
          (''error'', json_optional (ms_error s))]) (mf_sources m)))]"

text \<open>What happens to the file system, in order; a failed operation is not listed.\<close>

datatype bundle_effect =
    CreatedDir string
  | WroteFile string string
  | RanTar "string list" bool
  | RemovedDir string

definition make_dir :: "log_io \<Rightarrow> string \<Rightarrow> string \<Rightarrow> bundle_effect list \<Rightarrow> unit result \<times> bundle_effect list" where
  "make_dir io error path tr =
     (if lg_create_dir_all io path then (Inr (), tr @ [CreatedDir path]) else (Inl (error @ path), tr))"

definition write_file :: "log_io \<Rightarrow> string \<Rightarrow> string \<Rightarrow> string \<Rightarrow> bundle_effect list \<Rightarrow> unit result \<times> bundle_effect list" where
  "write_file io error path content tr =
     (if lg_write io path content then (Inr (), tr @ [WroteFile path content]) else (Inl (error @ path), tr))"

definition write_entry :: "log_io \<Rightarrow> collected_entry \<Rightarrow> bundle_effect list \<Rightarrow> unit result \<times> bundle_effect list" where
  "write_entry io entry =
     (let target_path = path_join (lg_staging_dir io) (ent_file_name entry)
      in then_io (case lg_parent io target_path of
                    None \<Rightarrow> done_io | Some parent \<Rightarrow> make_dir io ''create log parent dir: '' parent)
                 (write_file io ''write log entry: '' target_path (ent_content entry)))"

fun write_entries :: "log_io \<Rightarrow> collected_entry list \<Rightarrow> bundle_effect list \<Rightarrow> unit result \<times> bundle_effect list" where
  "write_entries io [] = done_io"
| "write_entries io (entry # entries) = then_io (write_entry io entry) (write_entries io entries)"

definition tar_arguments :: "log_io \<Rightarrow> string \<Rightarrow> string list" where
  "tar_arguments io output_path = [''-czf'', output_path, ''-C'', lg_staging_dir io, ''.'']"

definition pack_bundle :: "log_io \<Rightarrow> string \<Rightarrow> bundle_effect list \<Rightarrow> unit result \<times> bundle_effect list" where
  "pack_bundle io output_path tr =
     (case lg_status io ''tar'' (tar_arguments io output_path) of
        None \<Rightarrow> (Inl ''create tar.gz bundle'', tr)
      | Some success \<Rightarrow>
          (if success then Inr () else Inl (''tar failed while creating bundle at '' @ output_path),
           tr @ [RanTar (tar_arguments io output_path) success, RemovedDir (lg_staging_dir io)]))"

definition write_bundle ::
  "log_io \<Rightarrow> string \<Rightarrow> collected_entry list \<Rightarrow> log_manifest \<Rightarrow> bundle_effect list \<Rightarrow> unit result \<times> bundle_effect list" where
  "write_bundle io output_path entries manifest =
     then_io (make_dir io ''create staging dir: '' (lg_staging_dir io))
       (then_io (write_entries io entries)
       (then_io (write_file io ''write manifest: '' (path_join (lg_staging_dir io) ''manifest.json'')
                   (lg_pretty io (manifest_json manifest)))
       (then_io (case lg_parent io output_path of
                   None \<Rightarrow> done_io
                 | Some parent \<Rightarrow> if parent = [] then done_io else make_dir io ''create bundle parent: '' parent)
                (pack_bundle io output_path))))"

subsection \<open>The command\<close>

definition effective_redact :: "logs_collect_args \<Rightarrow> bool" where
  "effective_redact args = (if lc_no_redact args then False else lc_redact args)"

definition gather :: "host \<Rightarrow> log_io \<Rightarrow> app_context \<Rightarrow> logs_collect_args \<Rightarrow> collection" where
  "gather h io ctx args =
     collect_firecracker_logs h io ctx
       (collect_docker_logs h io ctx args
       (collect_journal_logs h io ctx args
       (push_content ''diagnostics/env.txt'' ''env'' (redacted_merged_env_text h ctx)
       (push_content ''diagnostics/capabilities.json'' ''capabilities''
          (lg_pretty io (report_json (detect_capabilities h ctx))) ([], [])))))"

definition redact_entry :: "log_io \<Rightarrow> collected_entry \<Rightarrow> collected_entry result" where
  "redact_entry io entry = and_then (redact_content io (ent_content entry)) (\<lambda>content. Inr (entry\<lparr>ent_content := content\<rparr>))"

definition stream_entry :: "collected_entry \<Rightarrow> string list" where
  "stream_entry entry =
     [''===== '' @ ent_source entry @ '' ('' @ ent_file_name entry @ '') ====='', ent_content entry, []]"

text \<open>The outcome, the lines printed and what was done to the file system.\<close>

definition collect_logs ::
  "host \<Rightarrow> log_io \<Rightarrow> app_context \<Rightarrow> logs_collect_args \<Rightarrow> unit result \<times> string list \<times> bundle_effect list" where
  "collect_logs h io ctx args =
     (let redact = effective_redact args; (collected, sources) = gather h io ctx args
      in case (if redact then collect_results (redact_entry io) collected else Inr collected) of
           Inl error \<Rightarrow> (Inl error, [], [])
         | Inr entries \<Rightarrow>
             let streamed = (if lc_format args \<in> {FormatStream, FormatBoth} then concat (map stream_entry entries) else [])
             in if lc_format args \<in> {FormatBundle, FormatBoth} then
                  let output_path = default_output_path io (lc_output args);
                      manifest = \<lparr>mf_created_at = lg_rfc3339 io, mf_scope = lc_scope args, mf_format = lc_format args,
                        mf_redact = redact, mf_profile = ga_profile (ctx_global ctx), mf_sources = sources\<rparr>
                  in case write_bundle io output_path entries manifest [] of
                       (Inl error, tr) \<Rightarrow> (Inl error, streamed, tr)
                     | (Inr _, tr) \<Rightarrow> (Inr (), streamed @ [''log bundle written to '' @ output_path], tr)
                else (Inr (), streamed, []))"

definition follow_arguments :: "logs_tail_args \<Rightarrow> string list" where
  "follow_arguments args =
     [''-f'', ''-u'', ''hook-serve.service'', ''-u'', ''kafka-openclaw-hook.service'', ''-u'', ''firecracker@relay.service'',
      ''--no-pager'', ''-n'', show_nat (unat (lt_lines args))]"

text \<open>\<open>tail\<close>: the arguments of the journal program it hands the terminal to, if it does, and the
  rest as for \<open>collect_logs\<close>.\<close>

definition tail_logs ::
  "host \<Rightarrow> log_io \<Rightarrow> app_context \<Rightarrow> logs_tail_args \<Rightarrow> string list option \<times> unit result \<times> string list \<times> bundle_effect list" where
  "tail_logs h io ctx args =
     (if lt_follow args \<and> host_which h ''journalctl'' then
        (Some (follow_arguments args),
         (case lg_status io ''journalctl'' (follow_arguments args) of
            None \<Rightarrow> Inl ''tail journalctl logs''
          | Some success \<Rightarrow> ensure success ''journalctl tail failed''), [], [])
      else
        (None, collect_logs h io ctx \<lparr>lc_scope = lt_scope args, lc_format = FormatStream, lc_since = None, lc_until = None,
           lc_lines = lt_lines args, lc_output = None, lc_redact = lt_redact args, lc_no_redact = lt_no_redact args\<rparr>))"

record log_source =
  ls_name :: string
  ls_available :: bool
  ls_reason :: string

definition detect_sources :: "host \<Rightarrow> app_context \<Rightarrow> log_source list" where
  "detect_sources h ctx =
     [\<lparr>ls_name = ''capabilities'', ls_available = True, ls_reason = ''always available''\<rparr>,
      \<lparr>ls_name = ''env'', ls_available = True, ls_reason = ''always available''\<rparr>,
      \<lparr>ls_name = ''journalctl'', ls_available = host_which h ''journalctl'', ls_reason = ''systemd journal collector''\<rparr>,
      \<lparr>ls_name = ''docker-compose'', ls_available = host_which h ''docker'' \<and> ctx_repo_root ctx \<noteq> None,
       ls_reason = ''docker compose logs collector''\<rparr>,
      \<lparr>ls_name = ''firecracker-files'', ls_available = True, ls_reason = ''firecracker/watchdog file collector''\<rparr>]"

definition show_sources :: "host \<Rightarrow> app_context \<Rightarrow> printed" where
  "show_sources h ctx =
     (if ga_json (ctx_global ctx)
      then [Inr (JArray (map (\<lambda>s. JObject [(''name'', JString (ls_name s)), (''available'', JBool (ls_available s)),
              (''reason'', JString (ls_reason s))]) (detect_sources h ctx)))]
      else map (\<lambda>s. Inl (''source='' @ ls_name s @ '' available='' @ show_bool (ls_available s) @ '' reason='' @ ls_reason s))
             (detect_sources h ctx))"

subsection \<open>What a collector adds\<close>

text \<open>Entries and manifest in step: the successful lines of the manifest are the entries, in their order,
  and a failed line has no file but a reason.\<close>

definition in_step :: "collected_entry list \<Rightarrow> manifest_source list \<Rightarrow> bool" where
  "in_step entries sources \<longleftrightarrow>
     map (\<lambda>e. (Some (ent_file_name e), ent_source e)) entries = map (\<lambda>m. (ms_file m, ms_name m)) (filter ms_success sources)
     \<and> (\<forall>m \<in> set sources. ms_success m = (ms_file m \<noteq> None) \<and> ms_success m = (ms_error m = None))"

lemma in_step_append: "in_step es ms \<Longrightarrow> in_step es' ms' \<Longrightarrow> in_step (es @ es') (ms @ ms')"
  by (auto simp: in_step_def)

lemma subseq_set: "subseq xs ys \<Longrightarrow> set xs \<subseteq> set ys"
  by (auto simp: subseq_conv_nths dest: in_set_nthsD)

lemma subseq_distinct: "subseq xs ys \<Longrightarrow> distinct ys \<Longrightarrow> distinct xs"
  by (auto simp: subseq_conv_nths)

text \<open>A collector keeps what was there and adds entries, in step with the manifest, with file names from a
  fixed list, in its order.\<close>

locale collector =
  fixes collect :: "collection \<Rightarrow> collection" and files :: "string list"
  assumes adds: "\<exists>es ms. collect col = (fst col @ es, snd col @ ms) \<and> in_step es ms \<and> subseq (map ent_file_name es) files"
begin

lemma keeps_in_step: "in_step (fst col) (snd col) \<Longrightarrow> in_step (fst (collect col)) (snd (collect col))"
  using adds [of col] in_step_append by fastforce

lemma files_listed: "set (map ent_file_name (fst (collect ([], [])))) \<subseteq> set files"
  using adds [of "([], [])"] by (fastforce dest: subseq_set)

lemma files_distinct: "distinct files \<Longrightarrow> distinct (map ent_file_name (fst (collect ([], []))))"
  using adds [of "([], [])"] by (auto dest: subseq_distinct)

end

lemma collector_idle: "collector (\<lambda>col. col) []"
  by unfold_locales (rule exI [of _ "[]"], rule exI [of _ "[]"], simp add: in_step_def)

lemma collector_more: "collector f fs \<Longrightarrow> subseq fs gs \<Longrightarrow> collector f gs"
  unfolding collector_def by (meson subseq_order.trans)

lemma collector_if:
  "(c \<Longrightarrow> collector f fs) \<Longrightarrow> (\<not> c \<Longrightarrow> collector g fs) \<Longrightarrow> collector (\<lambda>col. if c then f col else g col) fs"
  by (cases c) simp_all

lemma collector_comp:
  assumes "collector f fs" "collector g gs"
  shows "collector (\<lambda>col. g (f col)) (fs @ gs)"
proof
  fix col
  obtain es ms where f: "f col = (fst col @ es, snd col @ ms)" "in_step es ms" "subseq (map ent_file_name es) fs"
    using collector.adds [OF assms(1)] by blast
  obtain es' ms' where g: "g (f col) = (fst (f col) @ es', snd (f col) @ ms')" "in_step es' ms'"
      "subseq (map ent_file_name es') gs"
    using collector.adds [OF assms(2)] by blast
  from f g have "g (f col) = (fst col @ (es @ es'), snd col @ (ms @ ms'))" "in_step (es @ es') (ms @ ms')"
    "subseq (map ent_file_name (es @ es')) (fs @ gs)"
    by (simp_all add: in_step_append list_emb_append_mono)
  then show "\<exists>es ms. g (f col) = (fst col @ es, snd col @ ms) \<and> in_step es ms \<and> subseq (map ent_file_name es) (fs @ gs)"
    by blast
qed

lemma collector_content: "collector (push_content file_name source content) [file_name]"
  by unfold_locales (force simp: push_content_def in_step_def)

lemma collector_failure: "collector (push_failure name error) []"
  by unfold_locales (force simp: push_failure_def in_step_def)

lemmas collector_any = collector_more [OF collector_failure list_emb_Nil] collector_more [OF collector_idle list_emb_Nil]

lemma collector_output: "collector (push_output file_name source outcome) [file_name]"
  by (cases outcome) (auto simp: push_output_def [abs_def] intro!: collector_if collector_content collector_any)

lemma collector_units:
  "collector (collect_units io args units) (map (\<lambda>unit. ''journal/'' @ sanitize_file_name unit @ ''.log'') units)"
proof (induction units)
  case Nil
  show ?case using collector_idle by simp
next
  case (Cons unit units)
  show ?case using collector_comp [OF collector_output Cons] by simp
qed

definition journal_files :: "string list" where
  "journal_files = map (\<lambda>unit. ''journal/'' @ sanitize_file_name unit @ ''.log'') journal_units"

interpretation journal: collector "collect_journal_logs h io ctx args" journal_files
proof -
  have units: "collector (collect_units io args journal_units) journal_files"
    using collector_units by (simp add: journal_files_def)
  then have "collector (\<lambda>col. push_failure name error (collect_units io args journal_units col)) journal_files" for name error
    using collector_comp [OF units collector_failure] by simp
  with units show "collector (collect_journal_logs h io ctx args) journal_files"
    unfolding collect_journal_logs_def [abs_def] Let_def by (intro collector_if collector_any)
qed

interpretation docker: collector "collect_docker_logs h io ctx args" "[''docker/compose.log'']"
  unfolding collect_docker_logs_def [abs_def]
  by (cases "ctx_repo_root ctx") (simp_all only: option.case collector_if collector_any collector_output)

definition watchdog_name :: "string \<Rightarrow> string" where
  "watchdog_name path =
     (if path_extension path = Some ''sh'' then ''firecracker/status.log''
      else ''firecracker/'' @ sanitize_file_name path @ ''.log'')"

lemma collector_watchdog: "collector (collect_watchdog_file h io path) [watchdog_name path]"
  unfolding collect_watchdog_file_def [abs_def] watchdog_name_def
  by (cases "lg_output io ''bash'' [path]"; cases "lg_read io path")
     (simp_all only: command_output.case sum.case, auto intro!: collector_if collector_any collector_content)

lemma collector_watchdogs: "collector (fold (collect_watchdog_file h io) paths) (map watchdog_name paths)"
proof (induction paths)
  case Nil
  show ?case using collector_idle by (simp add: id_def)
next
  case (Cons path paths)
  show ?case using collector_comp [OF collector_watchdog Cons] by (simp add: comp_def)
qed

lemma split_on_parts: "\<exists>p. p \<noteq> [] \<and> split_on c (a @ c # b) = p @ split_on c b"
proof (induction a)
  case Nil
  show ?case by (rule exI [of _ "[[]]"]) simp
next
  case (Cons x a)
  then obtain q qs where "split_on c (a @ c # b) = (q # qs) @ split_on c b" by (metis neq_Nil_conv)
  then show ?case by (cases "x = c") (auto intro: exI [of _ "[] # q # qs"] exI [of _ "(x # q) # qs"])
qed

lemma last_split_on_sep: "last (split_on c (a @ c # b)) = last (split_on c b)"
  using split_on_parts [of c a b] by (auto simp: last_append)

lemma status_script_name: "watchdog_name (path_join root ''firecracker/watchdog/status.sh'') = ''firecracker/status.log''"
proof -
  obtain x where "path_join root ''firecracker/watchdog/status.sh'' = x @ CHR ''/'' # ''status.sh''"
    by (rule that [of "if root = [] then ''firecracker/watchdog'' else if ends_with ''/'' root then root @ ''firecracker/watchdog''
          else root @ ''/firecracker/watchdog''"]) (simp add: path_join_def starts_with_def)
  moreover have "path_extension ''status.sh'' = Some ''sh''" by code_simp
  moreover have "last (split_on (CHR ''/'') ''status.sh'') = ''status.sh''" by code_simp
  ultimately have "path_extension (path_join root ''firecracker/watchdog/status.sh'') = Some ''sh''"
    by (simp only: path_extension_def last_split_on_sep)
  then show ?thesis by (simp add: watchdog_name_def)
qed

definition watchdog_names :: "string list" where
  "watchdog_names = map watchdog_name watchdog_files @ [''firecracker/status.log'']"

interpretation firecracker: collector "collect_firecracker_logs h io ctx" watchdog_names
proof (cases "ctx_repo_root ctx")
  case None
  have "subseq (map watchdog_name watchdog_files) watchdog_names" by (simp add: watchdog_names_def subseq_rev_drop_many)
  with None show "collector (collect_firecracker_logs h io ctx) watchdog_names"
    using collector_more [OF collector_watchdogs] by (simp add: collect_firecracker_logs_def [abs_def])
next
  case (Some root)
  then show "collector (collect_firecracker_logs h io ctx) watchdog_names"
    using collector_watchdogs [of h io "watchdog_files @ [path_join root ''firecracker/watchdog/status.sh'']"]
    by (simp add: collect_firecracker_logs_def [abs_def] watchdog_names_def status_script_name comp_def)
qed

definition bundle_files :: "string list" where
  "bundle_files = [''diagnostics/capabilities.json'', ''diagnostics/env.txt''] @ journal_files @ [''docker/compose.log''] @ watchdog_names"

lemma bundle_files_distinct: "distinct bundle_files" by code_simp

lemma gather_collects:
  "\<exists>es ms. gather h io ctx args = (es, ms) \<and> in_step es ms \<and> subseq (map ent_file_name es) bundle_files"
proof -
  have "collector (\<lambda>col. collect_firecracker_logs h io ctx (collect_docker_logs h io ctx args (collect_journal_logs h io ctx args
      (push_content ''diagnostics/env.txt'' ''env'' (redacted_merged_env_text h ctx)
      (push_content ''diagnostics/capabilities.json'' ''capabilities'' (lg_pretty io (report_json (detect_capabilities h ctx))) col)))))
    ((((([''diagnostics/capabilities.json''] @ [''diagnostics/env.txt'']) @ journal_files) @ [''docker/compose.log'']) @ watchdog_names))"
    by (intro collector_comp collector_content journal.collector_axioms docker.collector_axioms firecracker.collector_axioms)
  from collector.adds [OF this, of "([], [])"] show ?thesis by (simp add: gather_def bundle_files_def)
qed

subsection \<open>What the bundle holds\<close>

fun writes :: "bundle_effect list \<Rightarrow> (string \<times> string) list" where
  "writes [] = []"
| "writes (WroteFile path content # tr) = (path, content) # writes tr"
| "writes (_ # tr) = writes tr"

lemma writes_append [simp]: "writes (tr @ tr') = writes tr @ writes tr'"
  by (induction tr rule: writes.induct) simp_all

definition entry_write :: "log_io \<Rightarrow> collected_entry \<Rightarrow> string \<times> string" where
  "entry_write io e = (path_join (lg_staging_dir io) (ent_file_name e), ent_content e)"

lemma make_dir_writes: "make_dir io err path tr = (r, tr') \<Longrightarrow> writes tr' = writes tr"
  by (auto simp: make_dir_def split: if_splits)

lemma maybe_dir_writes:
  "(case p of None \<Rightarrow> done_io | Some parent \<Rightarrow> make_dir io err parent) tr = (r, tr') \<Longrightarrow> writes tr' = writes tr"
  "(case p of None \<Rightarrow> done_io | Some parent \<Rightarrow> if parent = [] then done_io else make_dir io err parent) tr = (r, tr')
     \<Longrightarrow> writes tr' = writes tr"
  by (auto simp: done_io_def dest: make_dir_writes split: option.splits if_splits)

lemma write_file_writes:
  "write_file io err path content tr = (r, tr') \<Longrightarrow> writes tr' = writes tr @ (if isl r then [] else [(path, content)])"
  by (auto simp: write_file_def split: if_splits)

text \<open>However far the writing of the entries gets, the files written are those of the first entries.\<close>

lemma write_entries_writes:
  "write_entries io es tr = (r, tr') \<Longrightarrow>
     \<exists>n. writes tr' = writes tr @ map (entry_write io) (take n es) \<and> (r = Inr () \<longrightarrow> n = length es)"
proof (induction es arbitrary: tr)
  case Nil
  then show ?case by (auto simp: done_io_def)
next
  case (Cons e es)
  obtain r1 tr1 where one: "write_entry io e tr = (r1, tr1)" by fastforce
  then have w: "writes tr1 = writes tr @ (if isl r1 then [] else [entry_write io e])"
    by (auto simp: write_entry_def Let_def then_io_def entry_write_def
        dest!: maybe_dir_writes(1) write_file_writes split: prod.splits sum.splits)
  show ?case
  proof (cases r1)
    case (Inl err)
    with Cons.prems one w show ?thesis by (auto simp: then_io_def intro!: exI [of _ 0])
  next
    case (Inr u)
    with Cons.prems one have "write_entries io es tr1 = (r, tr')" by (simp add: then_io_def)
    from Cons.IH [OF this] obtain n where
      "writes tr' = writes tr1 @ map (entry_write io) (take n es)" "r = Inr () \<longrightarrow> n = length es" by blast
    with w Inr show ?thesis by (auto intro!: exI [of _ "Suc n"])
  qed
qed

definition manifest_write :: "log_io \<Rightarrow> log_manifest \<Rightarrow> string \<times> string" where
  "manifest_write io m = (path_join (lg_staging_dir io) ''manifest.json'', lg_pretty io (manifest_json m))"

lemma pack_bundle_writes: "pack_bundle io out tr = (r, tr') \<Longrightarrow> writes tr' = writes tr"
  by (auto simp: pack_bundle_def split: option.splits if_splits)

lemma write_bundle_done:
  assumes "write_bundle io out es m [] = (Inr (), tr)"
  shows "writes tr = map (entry_write io) es @ [manifest_write io m]"
    "\<exists>tr'. tr = tr' @ [RanTar (tar_arguments io out) True, RemovedDir (lg_staging_dir io)]"
proof -
  obtain t1 t2 t3 t4 where
    t1: "make_dir io ''create staging dir: '' (lg_staging_dir io) [] = (Inr (), t1)" and
    t2: "write_entries io es t1 = (Inr (), t2)" and
    t3: "write_file io ''write manifest: '' (path_join (lg_staging_dir io) ''manifest.json'') (lg_pretty io (manifest_json m)) t2 = (Inr (), t3)" and
    t4: "(case lg_parent io out of None \<Rightarrow> done_io
          | Some parent \<Rightarrow> if parent = [] then done_io else make_dir io ''create bundle parent: '' parent) t3 = (Inr (), t4)" and
    t5: "pack_bundle io out t4 = (Inr (), tr)"
    using assms unfolding write_bundle_def then_io_Inr by blast
  have "writes t2 = map (entry_write io) es"
    using write_entries_writes [OF t2] make_dir_writes [OF t1] by auto
  then show "writes tr = map (entry_write io) es @ [manifest_write io m]"
    using write_file_writes [OF t3] maybe_dir_writes(2) [OF t4] pack_bundle_writes [OF t5]
    by (simp add: manifest_write_def)
  show "\<exists>tr'. tr = tr' @ [RanTar (tar_arguments io out) True, RemovedDir (lg_staging_dir io)]"
    using t5 by (auto simp: pack_bundle_def split: option.splits if_splits)
qed

lemma write_bundle_writes:
  assumes "write_bundle io out es m [] = (r, tr)"
  shows "set (writes tr) \<subseteq> insert (manifest_write io m) (entry_write io ` set es)"
proof -
  obtain r1 t1 where t1: "make_dir io ''create staging dir: '' (lg_staging_dir io) [] = (r1, t1)" by fastforce
  obtain r2 t2 where t2: "write_entries io es t1 = (r2, t2)" by fastforce
  obtain r3 t3 where t3: "write_file io ''write manifest: '' (path_join (lg_staging_dir io) ''manifest.json'')
      (lg_pretty io (manifest_json m)) t2 = (r3, t3)" by fastforce
  obtain r4 t4 where t4: "(case lg_parent io out of None \<Rightarrow> done_io
      | Some parent \<Rightarrow> if parent = [] then done_io else make_dir io ''create bundle parent: '' parent) t3 = (r4, t4)" by fastforce
  obtain r5 t5 where t5: "pack_bundle io out t4 = (r5, t5)" by fastforce
  have "set (writes t2) \<subseteq> entry_write io ` set es"
    using write_entries_writes [OF t2] make_dir_writes [OF t1] set_take_subset by fastforce
  moreover have "set (writes t3) \<subseteq> insert (manifest_write io m) (set (writes t2))"
    using write_file_writes [OF t3] by (auto simp: manifest_write_def)
  moreover have "writes t4 = writes t3" "writes t5 = writes t4" "writes t1 = []"
    using maybe_dir_writes(2) [OF t4] pack_bundle_writes [OF t5] make_dir_writes [OF t1] by simp_all
  moreover have "tr \<in> {t1, t2, t3, t4, t5}"
    using assms t1 t2 t3 t4 t5 unfolding write_bundle_def then_io_def by (auto split: sum.splits)
  ultimately show ?thesis by auto
qed

lemma path_join_inj:
  assumes "path_join dir a = path_join dir b" "\<not> starts_with ''/'' a" "\<not> starts_with ''/'' b"
  shows "a = b"
  using assms by (auto simp: path_join_def split: if_splits)

lemma redact_keeps_files: "collect_results (redact_entry io) es = Inr es' \<Longrightarrow>
  map (\<lambda>e. (ent_file_name e, ent_source e)) es' = map (\<lambda>e. (ent_file_name e, ent_source e)) es
  \<and> (\<forall>e \<in> set es'. \<exists>raw. redact_content io raw = Inr (ent_content e))"
  by (induction es arbitrary: es') (fastforce simp: and_then_Inr_iff redact_entry_def)+

lemma same_files:
  "map (\<lambda>e. (ent_file_name e, ent_source e)) es = map (\<lambda>e. (ent_file_name e, ent_source e)) raw \<Longrightarrow>
     map ent_file_name es = map ent_file_name raw
     \<and> map (\<lambda>e. (Some (ent_file_name e), ent_source e)) es = map (\<lambda>e. (Some (ent_file_name e), ent_source e)) raw"
  by (induction es arbitrary: raw) (auto simp: Cons_eq_map_conv)

text \<open>The entries as they are shown: redacted or not.\<close>

definition shown_entries :: "host \<Rightarrow> log_io \<Rightarrow> app_context \<Rightarrow> logs_collect_args \<Rightarrow> collected_entry list result" where
  "shown_entries h io ctx args =
     (if effective_redact args then collect_results (redact_entry io) (fst (gather h io ctx args)) else Inr (fst (gather h io ctx args)))"

definition run_manifest :: "host \<Rightarrow> log_io \<Rightarrow> app_context \<Rightarrow> logs_collect_args \<Rightarrow> log_manifest" where
  "run_manifest h io ctx args = \<lparr>mf_created_at = lg_rfc3339 io, mf_scope = lc_scope args, mf_format = lc_format args,
     mf_redact = effective_redact args, mf_profile = ga_profile (ctx_global ctx), mf_sources = snd (gather h io ctx args)\<rparr>"

lemma collect_logs_cases:
  assumes "collect_logs h io ctx args = (r, lines, tr)"
  obtains (failed) e where "shown_entries h io ctx args = Inl e" "lines = []" "tr = []" "r = Inl e"
  | (streamed) es where "shown_entries h io ctx args = Inr es" "lc_format args = FormatStream" "r = Inr ()" "tr = []"
      "lines = concat (map stream_entry es)"
  | (bundled) es where "shown_entries h io ctx args = Inr es" "lc_format args \<noteq> FormatStream"
      "write_bundle io (default_output_path io (lc_output args)) es (run_manifest h io ctx args) [] = (r, tr)"
      "lines = (if lc_format args = FormatBoth then concat (map stream_entry es) else [])
         @ (if isl r then [] else [''log bundle written to '' @ default_output_path io (lc_output args)])"
proof -
  obtain es ms where g: "gather h io ctx args = (es, ms)" by fastforce
  show thesis
  proof (cases "shown_entries h io ctx args")
    case (Inl e)
    with assms g failed show thesis by (simp add: collect_logs_def shown_entries_def split: if_splits)
  next
    case (Inr shown)
    show thesis
    proof (cases "lc_format args = FormatStream")
      case True
      with assms g Inr streamed show thesis by (simp add: collect_logs_def shown_entries_def split: if_splits)
    next
      case False
      then have fmt: "lc_format args \<in> {FormatBundle, FormatBoth}" by (cases "lc_format args") auto
      obtain r' tr' where w: "write_bundle io (default_output_path io (lc_output args)) shown (run_manifest h io ctx args) [] = (r', tr')"
        by fastforce
      have "r = r' \<and> tr = tr' \<and> lines = (if lc_format args = FormatBoth then concat (map stream_entry shown) else [])
         @ (if isl r' then [] else [''log bundle written to '' @ default_output_path io (lc_output args)])"
        using assms g Inr fmt w
        by (cases r') (auto simp: collect_logs_def shown_entries_def run_manifest_def Let_def split: if_splits)
      with bundled [OF Inr False] w show thesis by simp
    qed
  qed
qed

subsection \<open>Properties\<close>

definition demo_log_io :: log_io where
  "demo_log_io = \<lparr>lg_output = \<lambda>program _. if program = ''docker'' then Completed False [] ''TOKEN=abc'' else Completed True ''line'' [],
     lg_status = \<lambda>_ _. Some True, lg_read = \<lambda>_. Inr ''beat'', lg_regex = \<lambda>_. Inr (\<lambda>_ t. t), lg_pretty = \<lambda>_. ''{}'',
     lg_rfc3339 = ''2024-01-01T00:00:00Z'', lg_stamp = ''20240101-000000'', lg_staging_dir = ''/tmp/staging'', lg_parent = \<lambda>_. None,
     lg_create_dir_all = \<lambda>_. True, lg_write = \<lambda>_ _. True\<rparr>"

definition demo_log_host :: host where
  "demo_log_host = demo_host\<lparr>host_which := \<lambda>_. True\<rparr>"

definition demo_log_context :: app_context where
  "demo_log_context = demo_context\<lparr>ctx_repo_root := Some ''/srv/hook''\<rparr>"

definition demo_collect :: logs_collect_args where
  "demo_collect = \<lparr>lc_scope = ScopeAuto, lc_format = FormatBundle, lc_since = None, lc_until = None, lc_lines = 9,
     lc_output = None, lc_redact = True, lc_no_redact = False\<rparr>"

lemma demo_collected: "\<exists>lines tr. collect_logs demo_log_host demo_log_io demo_log_context demo_collect = (Inr (), lines, tr)"
proof -
  have "fst (collect_logs demo_log_host demo_log_io demo_log_context demo_collect) = Inr ()" by code_simp
  then show ?thesis by (metis prod.collapse)
qed

text \<open>C34. The bundle is complete and its manifest exact: when a bundle was requested and the command succeeds,
  the files written are one for each collected entry and then the manifest, no two at the same place,
  packed after that by \<open>tar\<close>; and the manifest lists as successful exactly those entries, in their
  order, with every other source as a failure that has a reason.\<close>

theorem bundle_complete:
  assumes "collect_logs h io ctx args = (Inr (), lines, tr)" "lc_format args \<noteq> FormatStream"
  shows "\<exists>es. writes tr = map (entry_write io) es @ [manifest_write io (run_manifest h io ctx args)]
     \<and> distinct (map fst (writes tr)) \<and> in_step es (mf_sources (run_manifest h io ctx args))
     \<and> (\<exists>tr'. tr = tr' @ [RanTar (tar_arguments io (default_output_path io (lc_output args))) True, RemovedDir (lg_staging_dir io)])"
  using assms(1)
proof (cases rule: collect_logs_cases)
  case (bundled es)
  obtain raw ms where g: "gather h io ctx args = (raw, ms)" "in_step raw ms" "subseq (map ent_file_name raw) bundle_files"
    using gather_collects by blast
  have same: "map (\<lambda>e. (ent_file_name e, ent_source e)) es = map (\<lambda>e. (ent_file_name e, ent_source e)) raw"
    using bundled(1) g(1) redact_keeps_files by (auto simp: shown_entries_def split: if_splits)
  from same_files [OF this] have files: "map ent_file_name es = map ent_file_name raw"
    and step: "in_step es ms" using g(2) unfolding in_step_def by (metis, metis)
  have "''manifest.json'' \<notin> set bundle_files" by code_simp
  moreover have "\<forall>f \<in> set bundle_files. \<not> starts_with ''/'' f" by code_simp
  moreover have "\<not> starts_with ''/'' ''manifest.json''" by code_simp
  ultimately have all: "distinct (''manifest.json'' # bundle_files) \<and> (\<forall>f \<in> set (''manifest.json'' # bundle_files). \<not> starts_with ''/'' f)"
    using bundle_files_distinct by simp
  let ?names = "map ent_file_name es @ [''manifest.json'']"
  have names: "distinct ?names" "\<forall>f \<in> set ?names. \<not> starts_with ''/'' f"
    using all files subseq_distinct [OF g(3)] subseq_set [OF g(3)] by auto
  have "inj_on (path_join (lg_staging_dir io)) (set ?names)"
    using names(2) path_join_inj by (intro inj_onI) blast
  with names(1) have dist: "distinct (map (path_join (lg_staging_dir io)) ?names)" by (simp only: distinct_map)
  note w = write_bundle_done [OF bundled(3)]
  have "map fst (writes tr) = map (path_join (lg_staging_dir io)) ?names"
    by (simp add: w(1) entry_write_def manifest_write_def comp_def)
  with dist have "distinct (map fst (writes tr))" by (simp only:)
  moreover have "in_step es (mf_sources (run_manifest h io ctx args))" using step g(1) by (simp add: run_manifest_def)
  ultimately show ?thesis using w by (intro exI [of _ es] conjI)
qed (use assms(2) in auto)

theorem bundle_complete_witness:
  "\<exists>lines tr. collect_logs demo_log_host demo_log_io demo_log_context demo_collect = (Inr (), lines, tr) \<and> distinct (map fst (writes tr))"
proof -
  obtain lines tr where c: "collect_logs demo_log_host demo_log_io demo_log_context demo_collect = (Inr (), lines, tr)"
    using demo_collected by blast
  have "lc_format demo_collect \<noteq> FormatStream" by (simp add: demo_collect_def)
  from bundle_complete [OF c this] c show ?thesis by blast
qed

text \<open>Redaction reaches everything that was collected: with redaction on, whatever the outcome, every text
  printed for an entry and every file of the bundle apart from the manifest is the result of a redaction.\<close>

theorem redaction_covers_entries:
  assumes "collect_logs h io ctx args = (r, lines, tr)" "lc_redact args" "\<not> lc_no_redact args"
  shows "\<exists>es. (\<forall>e \<in> set es. \<exists>raw. redact_content io raw = Inr (ent_content e))
     \<and> set (writes tr) \<subseteq> insert (manifest_write io (run_manifest h io ctx args)) (entry_write io ` set es)
     \<and> (\<exists>rest. set rest \<subseteq> {''log bundle written to '' @ default_output_path io (lc_output args)}
          \<and> (lines = concat (map stream_entry es) @ rest \<or> lines = rest))"
proof -
  have clean: "\<forall>e \<in> set es. \<exists>raw. redact_content io raw = Inr (ent_content e)" if "shown_entries h io ctx args = Inr es" for es
    using that assms(2,3) redact_keeps_files by (simp add: shown_entries_def effective_redact_def)
  from assms(1) show ?thesis
  proof (cases rule: collect_logs_cases)
    case failed
    then show ?thesis by (intro exI [of _ "[]"]) auto
  next
    case (streamed es)
    with clean show ?thesis by (intro exI [of _ es] exI [of _ "[]"] conjI) simp_all
  next
    case (bundled es)
    let ?rest = "if isl r then [] else [''log bundle written to '' @ default_output_path io (lc_output args)]"
    from bundled clean write_bundle_writes [OF bundled(3)] show ?thesis
      by (intro exI [of _ es] exI [of _ ?rest] conjI) simp_all
  qed
qed

theorem redaction_covers_entries_witness:
  "\<exists>es tr. snd (snd (collect_logs demo_log_host demo_log_io demo_log_context demo_collect)) = tr
     \<and> (\<forall>e \<in> set es. \<exists>raw. redact_content demo_log_io raw = Inr (ent_content e))
     \<and> set (writes tr) \<subseteq> insert (manifest_write demo_log_io (run_manifest demo_log_host demo_log_io demo_log_context demo_collect))
         (entry_write demo_log_io ` set es)"
proof -
  obtain lines tr where c: "collect_logs demo_log_host demo_log_io demo_log_context demo_collect = (Inr (), lines, tr)"
    using demo_collected by blast
  have "lc_redact demo_collect" "\<not> lc_no_redact demo_collect" by (simp_all add: demo_collect_def)
  from redaction_covers_entries [OF c this] c show ?thesis by (simp only: snd_conv) blast
qed

text \<open>The manifest is not redacted: what a failing \<open>docker compose logs\<close> wrote to its error output is in
  the manifest of the bundle word for word, also when redaction is on.\<close>

theorem manifest_keeps_error_text:
  assumes "collect_logs h io ctx args = (Inr (), lines, tr)" "lc_format args \<noteq> FormatStream" "lc_scope args \<noteq> ScopeSystem"
    and "ctx_repo_root ctx = Some root" "host_which h ''docker''"
    and "lg_output io ''docker'' (docker_arguments h root args) = Completed False out err"
  shows "\<exists>m. manifest_write io m \<in> set (writes tr) \<and> mf_redact m = effective_redact args
     \<and> (\<exists>s \<in> set (mf_sources m). ms_error s = Some err)"
proof (intro exI conjI)
  show "manifest_write io (run_manifest h io ctx args) \<in> set (writes tr)"
    using assms(1)
  proof (cases rule: collect_logs_cases)
    case (bundled es)
    from write_bundle_done(1) [OF bundled(3)] show ?thesis by simp
  qed (use assms(2) in auto)
  show "mf_redact (run_manifest h io ctx args) = effective_redact args" by (simp add: run_manifest_def)
  have scope: "lc_scope args \<in> {ScopeAuto, ScopeFull, ScopeRuntime}" using assms(3) by (cases "lc_scope args") auto
  define col where "col = collect_docker_logs h io ctx args (collect_journal_logs h io ctx args
       (push_content ''diagnostics/env.txt'' ''env'' (redacted_merged_env_text h ctx)
       (push_content ''diagnostics/capabilities.json'' ''capabilities'' (lg_pretty io (report_json (detect_capabilities h ctx))) ([], []))))"
  have "\<exists>s \<in> set (snd col). ms_error s = Some err"
    using scope assms(4-6) by (auto simp: col_def collect_docker_logs_def push_output_def push_failure_def)
  moreover obtain es ms where "collect_firecracker_logs h io ctx col = (fst col @ es, snd col @ ms)"
    using firecracker.adds by blast
  ultimately show "\<exists>s \<in> set (mf_sources (run_manifest h io ctx args)). ms_error s = Some err"
    by (auto simp: run_manifest_def gather_def col_def [symmetric])
qed

theorem manifest_keeps_error_text_witness:
  "\<exists>m. mf_redact m \<and> (\<exists>s \<in> set (mf_sources m). ms_error s = Some ''TOKEN=abc'')
     \<and> manifest_write demo_log_io m \<in> set (writes (snd (snd (collect_logs demo_log_host demo_log_io demo_log_context demo_collect))))"
proof -
  obtain lines tr where c: "collect_logs demo_log_host demo_log_io demo_log_context demo_collect = (Inr (), lines, tr)"
    using demo_collected by blast
  have f: "lc_format demo_collect \<noteq> FormatStream" "lc_scope demo_collect \<noteq> ScopeSystem" "effective_redact demo_collect"
    by (simp_all add: demo_collect_def effective_redact_def)
  have r: "ctx_repo_root demo_log_context = Some ''/srv/hook''" "host_which demo_log_host ''docker''"
    by (simp_all add: demo_log_context_def demo_log_host_def)
  have d: "lg_output demo_log_io ''docker'' (docker_arguments demo_log_host ''/srv/hook'' demo_collect) = Completed False [] ''TOKEN=abc''"
    by (simp add: demo_log_io_def)
  from manifest_keeps_error_text [OF c f(1,2) r d] f(3) c show ?thesis by (simp only: snd_conv) blast
qed

text \<open>Following the journal switches redaction off: with \<open>--follow\<close> and a journal program, the terminal
  is handed to that program, the same way whatever the redaction flags say.\<close>

theorem tail_follow_unredacted:
  assumes "lt_follow args" "host_which h ''journalctl''"
  shows "fst (tail_logs h io ctx args) = Some (follow_arguments args)
     \<and> tail_logs h io ctx (args\<lparr>lt_redact := b, lt_no_redact := b'\<rparr>) = tail_logs h io ctx args"
  using assms by (simp add: tail_logs_def follow_arguments_def)

theorem tail_follow_unredacted_witness:
  "fst (tail_logs demo_log_host demo_log_io demo_log_context
     \<lparr>lt_scope = ScopeAuto, lt_lines = 9, lt_follow = True, lt_redact = True, lt_no_redact = False\<rparr>) \<noteq> None"
  by (subst tail_follow_unredacted [THEN conjunct1]) (simp_all add: demo_log_host_def)

end
