(* ===== verification/Cli_Infra.thy ===== *)
theory Cli_Infra
  imports Cli_Config
begin

section \<open>Infrastructure commands\<close>

text \<open>
  \<open>tools/hook/src/commands/infra.rs\<close>: \<open>hook infra\<close> runs \<open>docker\<close>, \<open>systemctl\<close>, scripts of the
  repository and \<open>openssl\<close>. What a command does is a trace of effects; what the operating system
  answers is the record \<open>infra_world\<close>, whose functions see the trace so far, so that a file may come
  to exist by what was run before.
\<close>

subsection \<open>Running programs\<close>

datatype infra_effect =
    Ran string "string list" "string option"
  | MadeDir string
  | WroteText string string
  | RemovedFile string

datatype run_answer =
    RunNotStarted string
  | RunFailed string
  | RunOk

record infra_world =
  iw_run :: "infra_effect list \<Rightarrow> string \<Rightarrow> string list \<Rightarrow> string option \<Rightarrow> run_answer"
  iw_exists :: "infra_effect list \<Rightarrow> string \<Rightarrow> bool"
  iw_create_dir_all :: "infra_effect list \<Rightarrow> string \<Rightarrow> bool"
  iw_write :: "infra_effect list \<Rightarrow> string \<Rightarrow> string \<Rightarrow> bool"
  iw_remove :: "infra_effect list \<Rightarrow> string \<Rightarrow> bool"

type_synonym infra_op = "infra_effect list \<Rightarrow> unit result \<times> infra_effect list"

text \<open>A program that ran is in the trace, whether it succeeded or not; \<open>RunNotStarted\<close> carries the
  debug text of the command, \<open>RunFailed\<close> the text of the exit status.\<close>

definition run_command :: "infra_world \<Rightarrow> string \<Rightarrow> string list \<Rightarrow> string option \<Rightarrow> infra_op" where
  "run_command w program arguments working_directory tr =
     (case iw_run w tr program arguments working_directory of
        RunNotStarted command \<Rightarrow> (Inl (''run command: '' @ command), tr)
      | RunFailed status \<Rightarrow> (Inl (''command exited with status '' @ status), tr @ [Ran program arguments working_directory])
      | RunOk \<Rightarrow> (Inr (), tr @ [Ran program arguments working_directory]))"

definition fail_io :: "string \<Rightarrow> infra_op" where
  "fail_io error tr = (Inl error, tr)"

definition with_repo_root :: "app_context \<Rightarrow> string \<Rightarrow> (string \<Rightarrow> infra_op) \<Rightarrow> infra_op" where
  "with_repo_root ctx wrapper run =
     (case ctx_repo_root ctx of
        None \<Rightarrow> fail_io (''repo root not detected; '' @ wrapper @ '' wrapper unavailable'')
      | Some repo_root \<Rightarrow> run repo_root)"

subsection \<open>Docker, Firecracker, brokers, systemd\<close>

datatype docker_command =
    DockerUp bool "string list"
  | DockerDown bool "string list"
  | DockerLogs bool "string list"

fun docker_parts :: "docker_command \<Rightarrow> bool \<times> string \<times> string list" where
  "docker_parts (DockerUp dev passthrough) = (dev, ''up'', passthrough)"
| "docker_parts (DockerDown dev passthrough) = (dev, ''down'', passthrough)"
| "docker_parts (DockerLogs dev passthrough) = (dev, ''logs'', passthrough)"

definition run_docker :: "infra_world \<Rightarrow> app_context \<Rightarrow> docker_command \<Rightarrow> infra_op" where
  "run_docker w ctx command =
     with_repo_root ctx ''docker'' (\<lambda>repo_root.
       let (dev, action, passthrough) = docker_parts command
       in run_command w ''docker''
            ([''compose'', ''-f'', path_join repo_root ''docker-compose.yml'']
             @ (if dev then [''-f'', path_join repo_root ''docker-compose.dev.yml''] else [])
             @ [action] @ (if action = ''up'' then [''--build''] else []) @ passthrough) (Some repo_root))"

datatype firecracker_command =
    FirecrackerRun "string list"
  | NetworkUp "string list"
  | NetworkDown "string list"
  | BuildRootfs "string list"

fun firecracker_script :: "firecracker_command \<Rightarrow> string \<times> string list" where
  "firecracker_script (FirecrackerRun passthrough) = (''scripts/_run-firecracker.sh'', passthrough)"
| "firecracker_script (NetworkUp passthrough) = (''scripts/_setup-firecracker-bridge-network.sh'', passthrough)"
| "firecracker_script (NetworkDown passthrough) = (''scripts/_teardown-firecracker-bridge-network.sh'', passthrough)"
| "firecracker_script (BuildRootfs passthrough) = (''scripts/_build-firecracker-rootfs.sh'', passthrough)"

definition run_firecracker :: "infra_world \<Rightarrow> app_context \<Rightarrow> firecracker_command \<Rightarrow> infra_op" where
  "run_firecracker w ctx command =
     with_repo_root ctx ''firecracker'' (\<lambda>repo_root tr.
       let (script, passthrough) = firecracker_script command; script_path = path_join repo_root script
       in if \<not> iw_exists w tr script_path then (Inl (''script missing: '' @ script_path), tr)
          else run_command w ''bash'' (script_path # passthrough) (Some repo_root) tr)"

datatype broker_command = BrokerList | BrokerShow

fun broker_function :: "broker_command \<Rightarrow> string" where
  "broker_function BrokerList = ''inventory_rows''"
| "broker_function BrokerShow = ''inventory_primary_row''"

definition broker_expression :: "string \<Rightarrow> broker_command \<Rightarrow> string" where
  "broker_expression script command = ''source '' @ quoted script @ '' && '' @ broker_function command"

definition run_broker :: "infra_world \<Rightarrow> app_context \<Rightarrow> broker_command \<Rightarrow> infra_op" where
  "run_broker w ctx command =
     with_repo_root ctx ''broker'' (\<lambda>repo_root tr.
       let script = path_join repo_root ''firecracker/runtime/broker_inventory.sh''
       in if \<not> iw_exists w tr script then (Inl (''broker inventory script missing: '' @ script), tr)
          else run_command w ''bash'' [''-lc'', broker_expression script command] (Some repo_root) tr)"

datatype systemd_command =
    SystemdStatus string
  | SystemdLogs string usize
  | SystemdRestart string

fun systemd_program :: "systemd_command \<Rightarrow> string \<times> string list" where
  "systemd_program (SystemdStatus unit) = (''systemctl'', [''status'', ''--no-pager'', unit])"
| "systemd_program (SystemdLogs unit lines) = (''journalctl'', [''-u'', unit, ''--no-pager'', ''-n'', show_nat (unat lines)])"
| "systemd_program (SystemdRestart unit) = (''systemctl'', [''restart'', unit])"

definition run_systemd :: "infra_world \<Rightarrow> systemd_command \<Rightarrow> infra_op" where
  "run_systemd w command = (let (program, arguments) = systemd_program command in run_command w program arguments None)"

subsection \<open>Certificates\<close>

text \<open>A path is valid UTF-8 here, so \<open>path_arg\<close> is the path itself.\<close>

definition run_openssl :: "infra_world \<Rightarrow> string list \<Rightarrow> infra_op" where
  "run_openssl w arguments = run_command w ''openssl'' arguments None"

definition ensure_openssl_available :: "infra_world \<Rightarrow> infra_op" where
  "ensure_openssl_available w = run_command w ''openssl'' [''version''] None"

definition resolve_certs_output_dir :: "app_context \<Rightarrow> string option \<Rightarrow> string" where
  "resolve_certs_output_dir ctx output_dir_flag =
     (case output_dir_flag of
        Some path \<Rightarrow>
          if starts_with ''/'' path then path
          else (case ctx_repo_root ctx of Some repo_root \<Rightarrow> path_join repo_root path | None \<Rightarrow> path)
      | None \<Rightarrow> (case ctx_repo_root ctx of Some repo_root \<Rightarrow> path_join repo_root ''certs'' | None \<Rightarrow> ''certs''))"

definition genrsa_arguments :: "string \<Rightarrow> string list" where
  "genrsa_arguments key = [''genrsa'', ''-out'', key, ''4096'']"

definition ca_arguments :: "string \<Rightarrow> string \<Rightarrow> string list" where
  "ca_arguments ca_key ca_crt =
     [''req'', ''-x509'', ''-new'', ''-nodes'', ''-key'', ca_key, ''-sha256'', ''-days'', ''825'', ''-subj'',
      ''/CN=OpenClaw-AutoMQ-CA'', ''-out'', ca_crt]"

definition request_arguments :: "string \<Rightarrow> string \<Rightarrow> string \<Rightarrow> string list" where
  "request_arguments key subject csr = [''req'', ''-new'', ''-key'', key, ''-subj'', subject, ''-out'', csr]"

definition sign_arguments :: "string \<Rightarrow> string \<Rightarrow> string \<Rightarrow> string \<Rightarrow> string \<Rightarrow> string list" where
  "sign_arguments csr ca_crt ca_key crt ext =
     [''x509'', ''-req'', ''-in'', csr, ''-CA'', ca_crt, ''-CAkey'', ca_key, ''-CAcreateserial'', ''-out'', crt,
      ''-days'', ''825'', ''-sha256'', ''-extfile'', ext]"

definition extension_text :: string where
  "extension_text =
     ''keyUsage = critical,digitalSignature,keyEncipherment'' @ [CHR 0x0A] @ ''extendedKeyUsage = clientAuth'' @ [CHR 0x0A]
     @ ''subjectAltName = DNS:localhost'' @ [CHR 0x0A]"

definition write_text :: "infra_world \<Rightarrow> string \<Rightarrow> string \<Rightarrow> string \<Rightarrow> infra_op" where
  "write_text w error path content tr =
     (if iw_write w tr path content then (Inr (), tr @ [WroteText path content]) else (Inl (error @ path), tr))"

definition remove_if_exists :: "infra_world \<Rightarrow> string \<Rightarrow> string \<Rightarrow> infra_op" where
  "remove_if_exists w error path tr =
     (if \<not> iw_exists w tr path then (Inr (), tr)
      else if iw_remove w tr path then (Inr (), tr @ [RemovedFile path]) else (Inl (error @ path), tr))"

definition write_client_cert :: "infra_world \<Rightarrow> string \<Rightarrow> string \<Rightarrow> string \<Rightarrow> string \<Rightarrow> infra_op" where
  "write_client_cert w name output_dir ca_key ca_crt =
     (let key = path_join output_dir (name @ ''.key''); csr = path_join output_dir (name @ ''.csr'');
          crt = path_join output_dir (name @ ''.crt''); ext = path_join output_dir (name @ ''.ext'')
      in then_io (run_openssl w (genrsa_arguments key))
        (then_io (run_openssl w (request_arguments key (''/CN='' @ name) csr))
        (then_io (write_text w ''write cert extension file: '' ext extension_text)
        (then_io (run_openssl w (sign_arguments csr ca_crt ca_key crt ext))
        (then_io (remove_if_exists w ''remove temporary csr file: '' csr)
                 (remove_if_exists w ''remove temporary ext file: '' ext))))))"

definition make_cert_dir :: "infra_world \<Rightarrow> string \<Rightarrow> infra_op" where
  "make_cert_dir w path tr =
     (if iw_create_dir_all w tr path then (Inr (), tr @ [MadeDir path]) else (Inl (''create cert directory: '' @ path), tr))"

definition prepare_ca :: "infra_world \<Rightarrow> bool \<Rightarrow> bool \<Rightarrow> string \<Rightarrow> string \<Rightarrow> infra_op" where
  "prepare_ca w generate_ca need_ca ca_key ca_crt =
     (if generate_ca
      then then_io (run_openssl w (genrsa_arguments ca_key)) (run_openssl w (ca_arguments ca_key ca_crt))
      else (\<lambda>tr.
        if need_ca \<and> (\<not> iw_exists w tr ca_key \<or> \<not> iw_exists w tr ca_crt)
        then (Inl (''CA files are required to generate client certs; missing '' @ ca_key @ '' or '' @ ca_crt), tr)
        else (Inr (), tr)))"

definition when_io :: "bool \<Rightarrow> infra_op \<Rightarrow> infra_op" where
  "when_io c step = (if c then step else done_io)"

text \<open>\<open>(generate_ca, generate_relay, generate_consumer)\<close>: no flag means all of them.\<close>

definition cert_selection :: "bool \<Rightarrow> bool \<Rightarrow> bool \<Rightarrow> bool \<times> bool \<times> bool" where
  "cert_selection ca relay consumer =
     (let all_default = \<not> ca \<and> \<not> relay \<and> \<not> consumer in (ca \<or> all_default, relay \<or> all_default, consumer \<or> all_default))"

definition generate_certs :: "infra_world \<Rightarrow> app_context \<Rightarrow> string option \<Rightarrow> bool \<Rightarrow> bool \<Rightarrow> bool \<Rightarrow> infra_op" where
  "generate_certs w ctx output_dir_flag ca_flag relay_flag consumer_flag =
     (let output_dir = resolve_certs_output_dir ctx output_dir_flag;
          (generate_ca, generate_relay, generate_consumer) = cert_selection ca_flag relay_flag consumer_flag;
          ca_key = path_join output_dir ''ca.key''; ca_crt = path_join output_dir ''ca.crt''
      in then_io (make_cert_dir w output_dir)
        (then_io (ensure_openssl_available w)
        (then_io (prepare_ca w generate_ca (generate_relay \<or> generate_consumer) ca_key ca_crt)
        (then_io (when_io generate_relay (write_client_cert w ''relay'' output_dir ca_key ca_crt))
                 (when_io generate_consumer (write_client_cert w ''consumer'' output_dir ca_key ca_crt))))))"

text \<open>What it prints when it succeeds.\<close>

definition certs_report :: "app_context \<Rightarrow> string option \<Rightarrow> bool \<Rightarrow> bool \<Rightarrow> bool \<Rightarrow> string list" where
  "certs_report ctx output_dir_flag ca_flag relay_flag consumer_flag =
     (let output_dir = resolve_certs_output_dir ctx output_dir_flag;
          (generate_ca, generate_relay, generate_consumer) = cert_selection ca_flag relay_flag consumer_flag;
          pair = (\<lambda>name. ''- '' @ name @ '': '' @ path_join output_dir (name @ ''.crt'') @ '' + '' @ path_join output_dir (name @ ''.key''))
      in [''certificates generated in: '' @ output_dir]
         @ (if generate_ca then [''- CA: '' @ path_join output_dir ''ca.crt''] else [])
         @ (if generate_relay then [pair ''relay''] else []) @ (if generate_consumer then [pair ''consumer''] else []))"

subsection \<open>Stopping at the first failure\<close>

text \<open>An operation extends the trace; a program that did not succeed is the last thing it does, and it
  then reports an error.\<close>

locale fail_stop =
  fixes w :: infra_world and step :: infra_op
  assumes extends: "\<exists>add. snd (step tr) = tr @ add
      \<and> (\<forall>pre program arguments dir post. add = pre @ Ran program arguments dir # post
           \<and> iw_run w (tr @ pre) program arguments dir \<noteq> RunOk \<longrightarrow> post = [] \<and> isl (fst (step tr)))"
begin

lemma trace_grows: "prefix tr (snd (step tr))"
  using extends [of tr] by auto

lemma all_ran_ok:
  assumes "step [] = (Inr (), tr)" "tr = pre @ Ran program arguments dir # post"
  shows "iw_run w pre program arguments dir = RunOk"
  using extends [of "[]"] assms by force

end

lemma fail_stop_done: "fail_stop w done_io"
  by unfold_locales (simp add: done_io_def)

lemma fail_stop_run: "fail_stop w (run_command w program arguments dir)"
proof
  fix tr
  show "\<exists>add. snd (run_command w program arguments dir tr) = tr @ add \<and>
      (\<forall>pre program' arguments' dir' post. add = pre @ Ran program' arguments' dir' # post
         \<and> iw_run w (tr @ pre) program' arguments' dir' \<noteq> RunOk \<longrightarrow>
         post = [] \<and> isl (fst (run_command w program arguments dir tr)))"
    by (cases "iw_run w tr program arguments dir") (auto simp: run_command_def Cons_eq_append_conv)
qed

lemma fail_stop_then:
  assumes "fail_stop w f" "fail_stop w g"
  shows "fail_stop w (then_io f g)"
proof
  fix tr
  obtain r1 tr1 where f: "f tr = (r1, tr1)" by fastforce
  obtain add1 where a1: "tr1 = tr @ add1" "\<And>pre program arguments dir post. add1 = pre @ Ran program arguments dir # post \<Longrightarrow>
      iw_run w (tr @ pre) program arguments dir \<noteq> RunOk \<Longrightarrow> post = [] \<and> isl r1"
    using fail_stop.extends [OF assms(1), of tr] f by auto
  show "\<exists>add. snd (then_io f g tr) = tr @ add \<and> (\<forall>pre program arguments dir post. add = pre @ Ran program arguments dir # post
      \<and> iw_run w (tr @ pre) program arguments dir \<noteq> RunOk \<longrightarrow> post = [] \<and> isl (fst (then_io f g tr)))"
  proof (cases r1)
    case (Inl e)
    with f a1 show ?thesis by (intro exI [of _ add1]) (auto simp: then_io_def)
  next
    case (Inr u)
    obtain r2 tr2 where g: "g tr1 = (r2, tr2)" by fastforce
    obtain add2 where a2: "tr2 = tr1 @ add2" "\<And>pre program arguments dir post. add2 = pre @ Ran program arguments dir # post \<Longrightarrow>
        iw_run w (tr1 @ pre) program arguments dir \<noteq> RunOk \<Longrightarrow> post = [] \<and> isl r2"
      using fail_stop.extends [OF assms(2), of tr1] g by auto
    have both: "then_io f g tr = (r2, tr2)" using f g Inr by (simp add: then_io_def)
    have "post = [] \<and> isl r2"
      if split: "add1 @ add2 = pre @ Ran program arguments dir # post" and bad: "iw_run w (tr @ pre) program arguments dir \<noteq> RunOk"
      for pre program arguments dir post
    proof -
      have "(\<exists>us. pre = add1 @ us \<and> add2 = us @ Ran program arguments dir # post) \<or> (\<exists>us. add1 = pre @ Ran program arguments dir # us)"
      proof -
        from split obtain us where "add1 @ us = pre \<and> add2 = us @ Ran program arguments dir # post
            \<or> add1 = pre @ us \<and> us @ add2 = Ran program arguments dir # post"
          unfolding append_eq_append_conv2 by metis
        then show ?thesis by (cases us) auto
      qed
      then consider us where "pre = add1 @ us" "add2 = us @ Ran program arguments dir # post"
        | us where "add1 = pre @ Ran program arguments dir # us" by blast
      then show ?thesis
      proof cases
        case (1 us)
        then show ?thesis using a2(2) [OF 1(2)] bad a1(1) by simp
      next
        case (2 us)
        then show ?thesis using a1(2) [OF 2 bad] Inr by simp
      qed
    qed
    with both a1(1) a2(1) show ?thesis by (intro exI [of _ "add1 @ add2"]) auto
  qed
qed

lemma fail_stop_files:
  "fail_stop w (write_text w error path content)" "fail_stop w (remove_if_exists w error path)" "fail_stop w (make_cert_dir w path)"
  by (unfold_locales; auto simp: write_text_def remove_if_exists_def make_cert_dir_def Cons_eq_append_conv)+

lemma fail_stop_when: "fail_stop w f \<Longrightarrow> fail_stop w (when_io c f)"
  by (simp add: when_io_def fail_stop_done)

lemma fail_stop_ca: "fail_stop w (prepare_ca w ca need key crt)"
proof (cases ca)
  case True
  then show ?thesis by (simp add: prepare_ca_def run_openssl_def fail_stop_then fail_stop_run)
next
  case False
  then show ?thesis by (simp add: prepare_ca_def) (unfold_locales; auto)
qed

lemma fail_stop_client: "fail_stop w (write_client_cert w name dir ca_key ca_crt)"
  unfolding write_client_cert_def Let_def run_openssl_def
  by (intro fail_stop_then fail_stop_run fail_stop_files)

interpretation certs: fail_stop w "generate_certs w ctx dir ca relay consumer"
  unfolding generate_certs_def Let_def ensure_openssl_available_def
  by (cases "cert_selection ca relay consumer")
     (simp, intro fail_stop_then fail_stop_run fail_stop_files fail_stop_ca fail_stop_when fail_stop_client)

subsection \<open>Signing\<close>

fun signs :: "infra_effect \<Rightarrow> bool" where
  "signs (Ran program arguments _) \<longleftrightarrow> program = ''openssl'' \<and> arguments \<noteq> [] \<and> hd arguments = ''x509''"
| "signs _ \<longleftrightarrow> False"

definition unsigned :: "infra_effect list \<Rightarrow> bool" where
  "unsigned tr \<longleftrightarrow> (\<forall>eff \<in> set tr. \<not> signs eff)"

definition ca_ready :: "infra_world \<Rightarrow> string \<Rightarrow> infra_effect list \<Rightarrow> bool" where
  "ca_ready w out tr \<longleftrightarrow>
     (let key = path_join out ''ca.key''; crt = path_join out ''ca.crt''
      in (iw_exists w tr key \<and> iw_exists w tr crt)
         \<or> (\<exists>tr0. tr = tr0 @ [Ran ''openssl'' (genrsa_arguments key) None, Ran ''openssl'' (ca_arguments key crt) None]))"

lemma prepare_ca_done:
  assumes "prepare_ca w ca need (path_join out ''ca.key'') (path_join out ''ca.crt'') tr = (Inr (), tr')" "ca \<or> need"
  shows "ca_ready w out tr'"
  using assms by (auto simp: prepare_ca_def ca_ready_def Let_def then_io_Inr run_openssl_def run_command_def
      split: if_splits run_answer.splits)

text \<open>Before the clients nothing is signed.\<close>

lemma preparation_unsigned:
  "unsigned tr \<Longrightarrow> unsigned (snd (make_cert_dir w path tr))"
  "unsigned tr \<Longrightarrow> unsigned (snd (ensure_openssl_available w tr))"
  "unsigned tr \<Longrightarrow> unsigned (snd (prepare_ca w ca need key crt tr))"
  by (auto simp: unsigned_def make_cert_dir_def ensure_openssl_available_def prepare_ca_def then_io_def run_openssl_def
      run_command_def genrsa_arguments_def ca_arguments_def split: if_splits run_answer.splits prod.splits sum.splits)

lemma after_unsigned:
  assumes "then_io f g tr = (r, tr')" "unsigned (snd (f tr))" "\<not> unsigned tr'"
  obtains tr1 where "f tr = (Inr (), tr1)" "g tr1 = (r, tr')" "unsigned tr1"
  using assms by (auto simp: then_io_def split: prod.splits sum.splits)

text \<open>Client certificates are signed by a prepared authority only: whatever the outcome and the flags, when
  a signing command was run, then at an earlier moment of the run, with nothing signed yet, either the
  key and the certificate of the authority both existed or the run had just generated them.\<close>

theorem signing_needs_ca:
  assumes "generate_certs w ctx dir ca relay consumer [] = (r, tr)" "\<not> unsigned tr"
  shows "\<exists>pre. prefix pre tr \<and> unsigned pre \<and> ca_ready w (resolve_certs_output_dir ctx dir) pre"
proof -
  define out where "out = resolve_certs_output_dir ctx dir"
  obtain gca grelay gconsumer where sel: "cert_selection ca relay consumer = (gca, grelay, gconsumer)"
    by (cases "cert_selection ca relay consumer")
  define clients where "clients =
    then_io (when_io grelay (write_client_cert w ''relay'' out (path_join out ''ca.key'') (path_join out ''ca.crt'')))
      (when_io gconsumer (write_client_cert w ''consumer'' out (path_join out ''ca.key'') (path_join out ''ca.crt'')))"
  have fs: "fail_stop w clients" unfolding clients_def by (intro fail_stop_then fail_stop_when fail_stop_client)
  have run: "then_io (make_cert_dir w out) (then_io (ensure_openssl_available w)
      (then_io (prepare_ca w gca (grelay \<or> gconsumer) (path_join out ''ca.key'') (path_join out ''ca.crt'')) clients)) [] = (r, tr)"
    using assms(1) sel by (simp add: generate_certs_def Let_def out_def clients_def)
  have "unsigned []" by (simp add: unsigned_def)
  note start = preparation_unsigned(1) [OF this]
  obtain t1 where t1: "then_io (ensure_openssl_available w)
      (then_io (prepare_ca w gca (grelay \<or> gconsumer) (path_join out ''ca.key'') (path_join out ''ca.crt'')) clients) t1 = (r, tr)" "unsigned t1"
    by (rule after_unsigned [OF run start assms(2)])
  obtain t2 where t2: "then_io (prepare_ca w gca (grelay \<or> gconsumer) (path_join out ''ca.key'') (path_join out ''ca.crt'')) clients t2 = (r, tr)"
      "unsigned t2"
    by (rule after_unsigned [OF t1(1) preparation_unsigned(2) [OF t1(2)] assms(2)])
  obtain t3 where t3: "prepare_ca w gca (grelay \<or> gconsumer) (path_join out ''ca.key'') (path_join out ''ca.crt'') t2 = (Inr (), t3)"
      "clients t3 = (r, tr)" "unsigned t3"
    by (rule after_unsigned [OF t2(1) preparation_unsigned(3) [OF t2(2)] assms(2)])
  have "prefix t3 tr" using fail_stop.trace_grows [OF fs, of t3] t3(2) by simp
  moreover have "gca \<or> grelay \<or> gconsumer" using sel by (auto simp: cert_selection_def Let_def)
  ultimately show ?thesis using t3(3) prepare_ca_done [OF t3(1)] out_def by blast
qed

definition demo_infra :: infra_world where
  "demo_infra = \<lparr>iw_run = \<lambda>_ _ _ _. RunOk, iw_exists = \<lambda>_ path. path \<in> {''certs/ca.key'', ''certs/ca.crt''},
     iw_create_dir_all = \<lambda>_ _. True, iw_write = \<lambda>_ _ _. True, iw_remove = \<lambda>_ _. True\<rparr>"

definition demo_certs :: "infra_effect list" where
  "demo_certs = snd (generate_certs demo_infra demo_context None False True False [])"

lemma demo_certs_run: "generate_certs demo_infra demo_context None False True False [] = (Inr (), demo_certs)"
proof -
  have "fst (generate_certs demo_infra demo_context None False True False []) = Inr ()" by code_simp
  then show ?thesis by (metis demo_certs_def prod.collapse)
qed

theorem signing_needs_ca_witness:
  "\<exists>pre. prefix pre demo_certs \<and> unsigned pre \<and> ca_ready demo_infra ''certs'' pre"
proof -
  have "\<not> unsigned demo_certs" by code_simp
  moreover have "resolve_certs_output_dir demo_context None = ''certs''" by code_simp
  ultimately show ?thesis using signing_needs_ca [OF demo_certs_run] by simp
qed

text \<open>A failing program ends the command: in every run of \<open>certs gen\<close> a program that did not succeed is the
  last thing that happened, and the command reports an error; so a run that succeeds ran every program
  successfully.\<close>

theorem certs_stop_at_failure:
  assumes "generate_certs w ctx dir ca relay consumer [] = (r, pre @ Ran program arguments cwd # post)"
    and "iw_run w pre program arguments cwd \<noteq> RunOk"
  shows "post = [] \<and> isl r"
  using certs.extends [of w ctx dir ca relay consumer "[]"] assms by auto

definition broken_infra :: infra_world where
  "broken_infra = demo_infra\<lparr>iw_run := \<lambda>_ _ _ _. RunFailed ''exit status: 1''\<rparr>"

theorem certs_stop_at_failure_witness:
  "isl (fst (generate_certs broken_infra demo_context None False True False []))"
proof -
  have "snd (generate_certs broken_infra demo_context None False True False [])
      = [MadeDir ''certs''] @ Ran ''openssl'' [''version''] None # []" by code_simp
  then have "generate_certs broken_infra demo_context None False True False []
      = (fst (generate_certs broken_infra demo_context None False True False []), [MadeDir ''certs''] @ Ran ''openssl'' [''version''] None # [])"
    by (metis prod.collapse)
  moreover have "iw_run broken_infra [MadeDir ''certs''] ''openssl'' [''version''] None \<noteq> RunOk" by (simp add: broken_infra_def)
  ultimately show ?thesis using certs_stop_at_failure by blast
qed

end
