(* ===== verification/Cli_Main.thy ===== *)
theory Cli_Main
  imports Cli_Logs Cli_Infra
begin

section \<open>The command line tool: its commands\<close>

text \<open>
  \<open>tools/hook/src/main.rs\<close>, the argument types of \<open>cli.rs\<close> and the \<open>run\<close> function of each command.
  \<open>clap\<close> turns the words of the command line into a value of \<open>cli\<close>; the defaults it fills in are
  part of that value. What a command does is a trace of \<open>cli_effect\<close>s: what it printed, what it wrote, ran
  and sent; requests and records come before what is printed about their answers, files and processes
  after what is printed on the way. How it ends is a \<open>cli_outcome\<close>.
\<close>

subsection \<open>Arguments\<close>

datatype smoke_command = SmokeServe "string list" | SmokeRelay | SmokeSmash

datatype test_command = TestEnv | TestSmoke smoke_command

record replay_webhook_args =
  wh_url :: string
  wh_file :: string
  wh_source :: "string option"
  wh_headers :: "string list"

datatype replay_command = ReplayWebhook replay_webhook_args | ReplayKafka replay_kafka_args

datatype debug_command = DebugCapabilities | DebugEnv bool

record introduce_args =
  nt_toml :: "string option"
  nt_dry_run :: bool

record config_import_args =
  ci_env_files :: "string list"
  ci_toml :: "string option"

datatype config_command = ConfigImport config_import_args | ConfigShow | ConfigValidate

datatype certs_command = CertsGen "string option" bool bool bool

datatype infra_command =
    InfraDocker docker_command
  | InfraFirecracker firecracker_command
  | InfraBroker broker_command
  | InfraSystemd systemd_command
  | InfraCerts certs_command

datatype logs_command = LogsCollect logs_collect_args | LogsSources | LogsTail logs_tail_args

datatype hook_command =
    CmdServe serve_args
  | CmdRelay relay_args
  | CmdSmash smash_args
  | CmdTest test_command
  | CmdReplay replay_command
  | CmdDebug debug_command
  | CmdIntroduce introduce_args
  | CmdConfig config_command
  | CmdInfra infra_command
  | CmdLogs logs_command

record cli =
  cli_global :: global_args
  cli_command :: hook_command

subsection \<open>The world of a command\<close>

record cli_world =
  cw_host :: host
  cw_ancestors :: "string list"
  cw_launch :: launch_crates
  cw_shell :: "shell_command \<Rightarrow> string + bool"
  cw_profile :: profile_writer
  cw_relay :: relay_world
  cw_received :: "relay_message option list"
  cw_smoke :: smoke_io
  cw_post :: "string \<Rightarrow> (string \<times> string) list \<Rightarrow> string \<Rightarrow> (string \<times> string) option"
  cw_logs :: log_io
  cw_infra :: infra_world

datatype cli_effect =
    Printed "string + json"
  | WroteProfile string string
  | RanBackend shell_command
  | DidRelay relay_effect
  | DidWeb web_effect
  | DidBundle bundle_effect
  | FollowedJournal "string list"
  | DidInfra infra_effect

text \<open>The relay runs until it is stopped; its trace is that of the messages received so far.\<close>

datatype cli_outcome = Ended "unit result" | Running

definition prints :: "printed \<Rightarrow> cli_effect list" where
  "prints = map Printed"

definition prints_result :: "printed result \<Rightarrow> cli_outcome \<times> cli_effect list" where
  "prints_result r = (case r of Inl error \<Rightarrow> (Ended (Inl error), []) | Inr lines \<Rightarrow> (Ended (Inr ()), prints lines))"

definition line_result :: "string result \<Rightarrow> cli_outcome \<times> cli_effect list" where
  "line_result r = prints_result (and_then r (\<lambda>line. Inr [Inl line]))"

definition web_result :: "printed result \<times> web_effect list \<Rightarrow> cli_outcome \<times> cli_effect list" where
  "web_result r = (case prints_result (fst r) of (outcome, printed) \<Rightarrow> (outcome, map DidWeb (snd r) @ printed))"

definition web_line_result :: "string result \<times> web_effect list \<Rightarrow> cli_outcome \<times> cli_effect list" where
  "web_line_result r = web_result (and_then (fst r) (\<lambda>line. Inr [Inl line]), snd r)"

subsection \<open>The commands\<close>

definition backend_effects ::
  "app_context \<Rightarrow> (string \<times> (string \<times> string) list) result \<Rightarrow> cli_effect list" where
  "backend_effects ctx launch = (case launch of Inl _ \<Rightarrow> [] | Inr (spec, e) \<Rightarrow> [RanBackend (shell_command_for ctx spec e)])"

definition relay_command :: "cli_world \<Rightarrow> app_context \<Rightarrow> relay_args \<Rightarrow> cli_outcome \<times> cli_effect list" where
  "relay_command w ctx args =
     (case relay_run (cw_host w) (cw_relay w) ctx args (cw_received w) of
        Inl error \<Rightarrow> (Ended (Inl error), [])
      | Inr (_, tr) \<Rightarrow> (Running, map DidRelay tr))"

fun test_run :: "cli_world \<Rightarrow> app_context \<Rightarrow> test_command \<Rightarrow> cli_outcome \<times> cli_effect list" where
  "test_run w ctx TestEnv = (Ended (Inr ()), prints (run_env_test (cw_host w) ctx))"
| "test_run w ctx (TestSmoke (SmokeServe passthrough)) = web_line_result (run_smoke_serve (cw_smoke w) ctx passthrough)"
| "test_run w ctx (TestSmoke SmokeRelay) = line_result (run_smoke_relay (cw_host w) ctx)"
| "test_run w ctx (TestSmoke SmokeSmash) = web_line_result (run_smoke_smash (cw_smoke w) (cw_host w) ctx)"

fun replay_run :: "cli_world \<Rightarrow> app_context \<Rightarrow> replay_command \<Rightarrow> cli_outcome \<times> cli_effect list" where
  "replay_run w ctx (ReplayWebhook args) =
     web_result (replay_webhook (cw_host w) (cw_post w) (wh_url args) (wh_file args) (wh_source args) (wh_headers args))"
| "replay_run w ctx (ReplayKafka args) =
     (let (r, tr) = replay_kafka (cw_host w) (cw_relay w) ctx args
      in (Ended r, map DidRelay tr @ prints (if r = Inr () then [Inl (replay_kafka_line args)] else [])))"

fun debug_run :: "cli_world \<Rightarrow> app_context \<Rightarrow> debug_command \<Rightarrow> cli_outcome \<times> cli_effect list" where
  "debug_run w ctx DebugCapabilities = (Ended (Inr ()), prints (debug_capabilities (cw_host w) ctx))"
| "debug_run w ctx (DebugEnv no_redact) = (Ended (Inr ()), prints [Inl (debug_env (cw_host w) ctx no_redact)])"

definition introduce_command :: "cli_world \<Rightarrow> app_context \<Rightarrow> introduce_args \<Rightarrow> cli_outcome \<times> cli_effect list" where
  "introduce_command w ctx args =
     (case introduce_run (cw_host w) (cw_profile w) ctx (nt_toml args) (nt_dry_run args) of
        Inl error \<Rightarrow> (Ended (Inl error), [])
      | Inr (written, lines) \<Rightarrow>
          (Ended (Inr ()),
           prints lines @ (case written of None \<Rightarrow> [] | Some content \<Rightarrow> [WroteProfile (ctx_profile_path ctx) content])))"

definition profile_json :: "hook_profile \<Rightarrow> json" where
  "profile_json profile = JObject
     [(''env'', JObject (map (\<lambda>(k, v). (k, JString v)) (hp_env profile))),
      (''backends'', JObject [(''serve_cmd'', json_optional (serve_cmd (hp_backends profile))),
         (''smash_cmd'', json_optional (smash_cmd (hp_backends profile)))]),
      (''capabilities'', JObject [(''roles'', JArray (map JString (hp_roles profile)))])]"

definition resolved_profile_text :: "profile_writer \<Rightarrow> app_context \<Rightarrow> string result" where
  "resolved_profile_text pw ctx = ok_or ''serialize profile'' (pw_serialize pw (ctx_profile ctx))"

definition show_profile :: "profile_writer \<Rightarrow> app_context \<Rightarrow> printed result" where
  "show_profile pw ctx =
     (if ga_json (ctx_global ctx) then Inr [Inr (profile_json (ctx_profile ctx))]
      else and_then (resolved_profile_text pw ctx) (\<lambda>line. Inr [Inl line]))"

fun config_run :: "cli_world \<Rightarrow> app_context \<Rightarrow> config_command \<Rightarrow> cli_outcome \<times> cli_effect list" where
  "config_run w ctx (ConfigImport args) =
     (case import_profile (cw_host w) (cw_profile w) ctx (ci_toml args) (ci_env_files args) of
        Inl error \<Rightarrow> (Ended (Inl error), [])
      | Inr (content, lines) \<Rightarrow> (Ended (Inr ()), prints lines @ [WroteProfile (ctx_profile_path ctx) content]))"
| "config_run w ctx ConfigShow = prints_result (show_profile (cw_profile w) ctx)"
| "config_run w ctx ConfigValidate =
     (let (r, lines) = validate_profile (cw_host w) ctx in (Ended r, prints lines))"

fun run_certs :: "cli_world \<Rightarrow> app_context \<Rightarrow> certs_command \<Rightarrow> cli_outcome \<times> cli_effect list" where
  "run_certs w ctx (CertsGen dir ca relay consumer) =
     (let (r, tr) = generate_certs (cw_infra w) ctx dir ca relay consumer []
      in (Ended r, prints (if r = Inr () then map Inl (certs_report ctx dir ca relay consumer) else []) @ map DidInfra tr))"

definition infra_result :: "unit result \<times> infra_effect list \<Rightarrow> cli_outcome \<times> cli_effect list" where
  "infra_result r = (Ended (fst r), map DidInfra (snd r))"

fun infra_run :: "cli_world \<Rightarrow> app_context \<Rightarrow> infra_command \<Rightarrow> cli_outcome \<times> cli_effect list" where
  "infra_run w ctx (InfraDocker details) = infra_result (run_docker (cw_infra w) ctx details [])"
| "infra_run w ctx (InfraFirecracker details) = infra_result (run_firecracker (cw_infra w) ctx details [])"
| "infra_run w ctx (InfraBroker details) = infra_result (run_broker (cw_infra w) ctx details [])"
| "infra_run w ctx (InfraSystemd details) = infra_result (run_systemd (cw_infra w) details [])"
| "infra_run w ctx (InfraCerts details) = run_certs w ctx details"

definition logs_result :: "unit result \<times> string list \<times> bundle_effect list \<Rightarrow> cli_outcome \<times> cli_effect list" where
  "logs_result r = (case r of (result, lines, tr) \<Rightarrow> (Ended result, prints (map Inl lines) @ map DidBundle tr))"

fun logs_run :: "cli_world \<Rightarrow> app_context \<Rightarrow> logs_command \<Rightarrow> cli_outcome \<times> cli_effect list" where
  "logs_run w ctx (LogsCollect details) = logs_result (collect_logs (cw_host w) (cw_logs w) ctx details)"
| "logs_run w ctx LogsSources = (Ended (Inr ()), prints (show_sources (cw_host w) ctx))"
| "logs_run w ctx (LogsTail details) =
     (case tail_logs (cw_host w) (cw_logs w) ctx details of
        (followed, rest) \<Rightarrow>
          (case logs_result rest of
             (outcome, tr) \<Rightarrow> (outcome, (case followed of None \<Rightarrow> [] | Some arguments \<Rightarrow> [FollowedJournal arguments]) @ tr)))"

fun run_hook_command :: "cli_world \<Rightarrow> app_context \<Rightarrow> hook_command \<Rightarrow> cli_outcome \<times> cli_effect list" where
  "run_hook_command w ctx (CmdServe arguments) =
     (Ended (serve_run (cw_host w) (cw_launch w) (cw_shell w) ctx arguments),
      backend_effects ctx (serve_launch (cw_host w) (cw_launch w) ctx arguments))"
| "run_hook_command w ctx (CmdRelay arguments) = relay_command w ctx arguments"
| "run_hook_command w ctx (CmdSmash arguments) =
     (Ended (smash_run (cw_host w) (cw_launch w) (cw_shell w) ctx arguments),
      backend_effects ctx (smash_launch (cw_host w) (cw_launch w) ctx arguments))"
| "run_hook_command w ctx (CmdTest arguments) = test_run w ctx arguments"
| "run_hook_command w ctx (CmdReplay arguments) = replay_run w ctx arguments"
| "run_hook_command w ctx (CmdDebug arguments) = debug_run w ctx arguments"
| "run_hook_command w ctx (CmdIntroduce arguments) = introduce_command w ctx arguments"
| "run_hook_command w ctx (CmdConfig arguments) = config_run w ctx arguments"
| "run_hook_command w ctx (CmdInfra arguments) = infra_run w ctx arguments"
| "run_hook_command w ctx (CmdLogs arguments) = logs_run w ctx arguments"

fun is_relay :: "hook_command \<Rightarrow> bool" where
  "is_relay (CmdRelay _) = True"
| "is_relay _ = False"

text \<open>A context that does not load ends the program before the command starts.\<close>

definition hook_main :: "cli_world \<Rightarrow> cli \<Rightarrow> cli_outcome \<times> cli_effect list" where
  "hook_main w c =
     (let load_contract_config = \<not> is_relay (cli_command c)
      in case load_with_contract (cw_host w) (cw_ancestors w) (cli_global c) load_contract_config of
           Inl error \<Rightarrow> (Ended (Inl error), [])
         | Inr context \<Rightarrow> run_hook_command w context (cli_command c))"

subsection \<open>What the commands leave behind\<close>

fun printed_effect :: "cli_effect \<Rightarrow> bool" where
  "printed_effect (Printed _) = True"
| "printed_effect _ = False"




fun web_or_printed :: "cli_effect \<Rightarrow> bool" where
  "web_or_printed (Printed _) = True"
| "web_or_printed (DidWeb _) = True"
| "web_or_printed _ = False"


lemma prints_only [simp]: "list_all printed_effect (prints lines)"
  by (simp add: prints_def list_all_iff)

lemma prints_result_only [simp]: "list_all printed_effect (snd (prints_result r))" "list_all printed_effect (snd (line_result r'))"
  by (cases r, simp_all add: prints_result_def) (cases r', simp_all add: line_result_def prints_result_def)

lemma printed_web: "list_all printed_effect tr \<Longrightarrow> list_all web_or_printed tr"
  by (induction tr) (auto elim: printed_effect.elims)

lemma web_result_only [simp]: "list_all web_or_printed (snd (web_result r))" "list_all web_or_printed (snd (web_line_result r'))"
proof -
  have web: "list_all web_or_printed (snd (web_result r))" for r
    using printed_web [OF prints_result_only(1) [of "fst r"]]
    by (cases "prints_result (fst r)") (auto simp: web_result_def list_all_iff)
  show "list_all web_or_printed (snd (web_result r))" "list_all web_or_printed (snd (web_line_result r'))"
    by (simp_all add: web web_line_result_def)
qed








subsection \<open>Properties\<close>

text \<open>The relay needs no contract: whatever \<open>--contract\<close>, \<open>--app\<close> and \<open>--validation-mode\<close> say (a file that
  does not exist, a contract that does not parse), \<open>hook relay\<close> does and reports the same.\<close>

theorem relay_ignores_contract:
  "hook_main w \<lparr>cli_global = g\<lparr>ga_contract := path, ga_app := app, ga_validation_mode := mode\<rparr>, cli_command = CmdRelay args\<rparr>
   = hook_main w \<lparr>cli_global = g, cli_command = CmdRelay args\<rparr>"
proof -
  let ?g = "g\<lparr>ga_contract := path, ga_app := app, ga_validation_mode := mode\<rparr>"
  have same: "relay_run h rw (ctx\<lparr>ctx_global := ?g\<rparr>) args received = relay_run h rw (ctx\<lparr>ctx_global := g\<rparr>) args received"
    for h rw ctx received
  proof -
    have rv: "resolve_value h (ctx\<lparr>ctx_global := x\<rparr>) = resolve_value h ctx" for x
      by (simp add: fun_eq_iff resolve_value_def)
    have "load_runtime_config h (ctx\<lparr>ctx_global := x\<rparr>) args = load_runtime_config h ctx args" for x
      by (simp only: load_runtime_config_def rv)
    then show ?thesis by (simp add: relay_run_def ensure_preconditions_def)
  qed
  have run: "relay_command w (ctx\<lparr>ctx_global := ?g\<rparr>) args = relay_command w (ctx\<lparr>ctx_global := g\<rparr>) args" for ctx
    by (simp only: relay_command_def same)
  have load: "load_with_contract (cw_host w) (cw_ancestors w) ?g False =
      and_then (load_with_contract (cw_host w) (cw_ancestors w) g False) (\<lambda>ctx. Inr (ctx\<lparr>ctx_global := ?g\<rparr>))"
    by (simp add: load_with_contract_def and_then_def split: sum.split)
  have own: "ctx\<lparr>ctx_global := g\<rparr> = ctx" if "load_with_contract (cw_host w) (cw_ancestors w) g False = Inr ctx" for ctx
    using that by (auto simp: load_with_contract_def and_then_Inr_iff)
  show ?thesis
  proof (cases "load_with_contract (cw_host w) (cw_ancestors w) g False")
    case (Inr ctx)
    with run [of ctx] own [OF Inr] show ?thesis by (simp add: hook_main_def load)
  qed (simp add: hook_main_def load)
qed



end
