(* ===== verification/Spec2Isabelle.thy ===== *)
theory Spec2Isabelle
  imports Serve_Main Pipeline Receiver_Launch Smash_Run Websocket_Server Kafka_Core Cli_Main
begin

text \<open>
  \<^bold>\<open>hook: a webhook relay over Kafka\<close>

  The program has three parts. The \<^emph>\<open>receiver\<close> (\<open>src/src\<close>) accepts webhooks over HTTP, and events
  over websockets, MCP and Kafka; it authenticates and deduplicates them, wraps them in an envelope and
  puts them on a bounded queue, from which a worker publishes to Kafka. The \<^emph>\<open>consumer\<close>
  (\<open>src/crates/hook-runtime\<close>) reads the envelopes, routes them to output adapters, parks what it
  cannot deliver on a dead-letter topic and commits offsets. The \<^emph>\<open>command line tool\<close> (\<open>src/tools/hook\<close>)
  checks an app contract, translates its active profile into the environment of the other two and
  starts them, and has a relay of its own. \<open>src/crates/relay-core\<close> is shared by all.

  \<^bold>\<open>Theories\<close>

  \<^item> \<open>Prelude\<close>, \<open>Numbers\<close>, \<open>Json\<close>: strings as bytes with the standard library's operations on them,
    machine integers with their decimal text, JSON values, ordered maps (locale \<open>ordered_map\<close>,
    interpreted on the association lists that stand for \<open>BTreeMap\<close>), and the record \<open>crates\<close> of
    third-party functions.
  \<^item> \<open>Relay_Core\<close> (\<open>model.rs\<close>, \<open>keys.rs\<close>, \<open>signatures.rs\<close>, \<open>timestamps.rs\<close>), \<open>Sanitize\<close>
    (\<open>sanitize.rs\<close>), \<open>Contract\<close> (\<open>contract.rs\<close>, \<open>contract_validator.rs\<close>), \<open>Kafka_Core\<close>
    (\<open>kafka_config.rs\<close>): the shared crate.
  \<^item> \<open>Wildcard\<close>: the two copies of the glob matcher; the inductive relation \<open>glob\<close> is the reference,
    the locale \<open>glob_matcher\<close> what route look-up needs.
  \<^item> \<open>Backoff\<close>: the delays of the retrying senders (locale \<open>capped_backoff\<close>).
  \<^item> \<open>Serve_Config\<close> (\<open>config.rs\<close>), \<open>Sources\<close> (\<open>sources/\<close>, locale \<open>source_contract\<close> with its three
    instances), \<open>Idempotency\<close> (\<open>idempotency.rs\<close>, \<open>middleware.rs\<close>), \<open>Client_Ip\<close> (\<open>client_ip.rs\<close>),
    \<open>Producer\<close> (\<open>producer.rs\<close>, \<open>envelope.rs\<close>), \<open>Serve\<close> and \<open>Ingress\<close> (\<open>main.rs\<close>): the receiver. A handler is
    a function from the state \<open>app_state\<close> and a request to the response and the new state.
    \<open>Serve_Machine\<close> is the step relation of the whole receiver, any interleaving of requests,
    sessions, messages and the worker; \<open>Serve_Main\<close> is \<open>main\<close> around it: the route table with its body limit
    and its limiter per address, the Kafka ingress worker, start and shutdown.
  \<^item> \<open>Smash_Config\<close> (\<open>smash/config.rs\<close>), \<open>Smash\<close> (\<open>consumer.rs\<close>, \<open>dlq.rs\<close>), \<open>Egress\<close> (\<open>adapters/egress/\<close>,
    locale \<open>retry_loop\<close> with the two retrying outputs as instances), \<open>Websocket_Server\<close>
    (\<open>websocket_server.rs\<close>, as a step relation in which the admission of a client and the start of its
    session are separate), \<open>Smash_Run\<close> (\<open>run_from_env\<close>): the consumer. Its effects are a trace; the
    world's answers may depend on the trace so far. \<open>Pipeline\<close> joins receiver and consumer by the log
    between them, as a step relation and as one pass of a queue.
  \<^item> \<open>Cli_Config\<close> (\<open>config.rs\<close>, \<open>capabilities.rs\<close>), \<open>Launch\<close> (\<open>commands/serve.rs\<close>, \<open>commands/smash.rs\<close>),
    \<open>Relay\<close> (\<open>commands/relay.rs\<close>), \<open>Cli_Commands\<close> (\<open>config\<close>, \<open>introduce\<close>, \<open>test\<close>, \<open>replay\<close>, \<open>debug\<close>), \<open>Cli_Logs\<close>
    (\<open>commands/logs.rs\<close>, locale \<open>collector\<close> with the three collectors as instances), \<open>Cli_Infra\<close>
    (\<open>commands/infra.rs\<close>, locale \<open>fail_stop\<close>), \<open>Cli_Main\<close> (\<open>main.rs\<close>, \<open>cli.rs\<close> and the \<open>run\<close> of each command): the
    tool. What it asks of the operating system is the record \<open>host\<close>, gathered in \<open>cli_world\<close>.
  \<^item> \<open>Receiver_Launch\<close>: the tool and the receiver together; this theory: the tool and the consumer.

  \<^bold>\<open>What is shown\<close>

  \<^item> Receiver: success is answered exactly when the event is admitted and the channel takes it; what is
    queued was authenticated, comes from an enabled source and is routed; a repeated delivery is suppressed
    for its life time whatever the receiver does in between (\<open>serve_until\<close>), and
    the idempotency store refines a log of accepted deliveries; the limiters and the replay window have
    exactly their bounds; the invariant holds in every reachable state; a client that is not a trusted
    proxy cannot choose its rate-limit key; whatever grows the queue over HTTP passed the body limit and
    the limiter of its address, or is a websocket with its adapter's token or of an adapter without one.
  \<^item> Consumer: an offset is committed only after every required output accepted the event, down to the
    acceptance by the peer of the request built from it; a message that is done with was served and offered
    to all its outputs, went to the sink configured for events without outputs, or is parked and not
    committed; required outputs that accept suffice; the
    matcher is the glob relation; retrying senders end and try as often as configured.
  \<^item> Both: nothing reaches an output but admitted, sanitised events of enabled sources, under every
    interleaving of the two programs (of the JSON library only \<open>codec_keeps\<close> is used: strings and booleans
    come back as written); an accepted webhook arrives when broker and outputs do their part and its record
    reads back.
  \<^item> Tool: the contract validator accepts exactly the well-formed profiles, debug mode never drops a
    security-critical check, only validated profiles are launched and what is launched is closed under
    its references; the launched consumer has exactly the adapters and routes of the contract, the launched
    receiver its routes, ingress adapters and address; the relay needs no contract and commits only what
    it copied; only two commands write the profile; the redacted listing hides the value of every name that
    contains one of five words; \<open>config validate\<close> predicts the validation of a launch, not its translation;
    environment files, IPv4
    addresses and driver names read back as they were written; a log bundle holds every entry its
    manifest lists, and client certificates are signed only with a prepared authority.
  \<^item> Errors: deliveries lost under backpressure, failed messages passed over by later commits, a
    Kafka ingress that commits what it could not queue, contracts without outputs that run the legacy output,
    wildcard routes that enable no source, and the other divergences are stated as theorems.

  \<^bold>\<open>Termination and bounds\<close>

  Every loop is a total function: structural recursion over texts and message lists, or a measure (the
  saturating attempt counters of the publisher, the relay and the retrying outputs reach their limit,
  so no fuel is needed). The endless loops of the consumer, the relay, the Kafka ingress and the websocket
  sessions are functions of the finite list of messages received so far. Integers that can overflow or
  saturate are words of the source's width.

  \<^bold>\<open>Parameters\<close>

  HMAC, hexadecimal text, regular expressions, JSON and TOML text, network membership, the Kafka, HTTP and
  websocket clients, child processes, the file system, the clock and fresh identifiers are
  arguments, collected in records (\<open>crates\<close>, \<open>config_crates\<close>, \<open>ingress_crates\<close>, \<open>smash_crates\<close>,
  \<open>launch_crates\<close>, \<open>channel\<close>, \<open>moment\<close>, \<open>world\<close>, \<open>egress_io\<close>, \<open>relay_world\<close>, \<open>host\<close>,
  \<open>log_io\<close>, \<open>infra_world\<close>, \<open>web\<close>, \<open>governor\<close>). What a
  theorem needs of one is among its hypotheses, and its witness names a concrete instance.

  \<^bold>\<open>Not modelled\<close>

  TLS and the bytes of HTTP and websockets (matching a path against the templates, extractors, the body
  limit and the upgrade are the answers of the record \<open>web\<close>, the limiter per address those of \<open>governor\<close>; what
  they promise is \<open>web_ok\<close> and \<open>governor_ok\<close>); ping frames of the websocket server; the parsing of the
  command line (derive macros of clap; its result, the record \<open>cli\<close>, is modelled); what a spawned process
  does beyond how it ends; log lines and the texts abbreviated for them; the code serde derives.
\<close>

section \<open>From the contract to the running consumer\<close>

text \<open>A list survives the JSON text it is written as: what \<open>serde\<close> writes it reads back, and a JSON
  text is not blank.\<close>

definition json_survives :: "('a list \<Rightarrow> string result) \<Rightarrow> (string \<Rightarrow> 'a list option) \<Rightarrow> 'a list \<Rightarrow> bool" where
  "json_survives ser de xs = (case ser xs of Inl _ \<Rightarrow> False | Inr t \<Rightarrow> \<not> blank t \<and> de t = Some xs)"

lemma json_survives_iff: "json_survives ser de xs \<longleftrightarrow> (\<exists>t. ser xs = Inr t \<and> \<not> blank t \<and> de t = Some xs)"
  by (auto simp: json_survives_def split: sum.splits)

lemma transports_override:
  assumes "smash_contract_overrides lc active = Inr ov" "ser_smash_transports lc (as_transports active) = Inr tt"
  shows "map_of (rev ov) ''HOOK_SMASH_TRANSPORTS_JSON'' = Some tt"
  using assms by (auto simp: smash_contract_overrides_def and_then_Inr_iff split: option.splits)

lemma transports_launched:
  assumes "smash_launch h lc ctx args = Inr (spec, vars)" "ctx_contract ctx = Some contract"
    and "resolve_active_smash_contract lc ctx contract = Inr active" "as_adapters active \<noteq> []"
    and "ser_smash_transports lc (as_transports active) = Inr tt"
  shows "map_of vars ''HOOK_SMASH_TRANSPORTS_JSON'' = Some tt"
proof -
  obtain ov where ov: "smash_contract_overrides lc active = Inr ov"
    and vars: "vars = merged_env_for_command h ctx (ov @ smash_flag_overrides args)"
    using assms(1-4) by (auto simp: smash_launch_def smash_contract_part_def Let_def and_then_Inr_iff split: if_splits)
  have "map_of (rev (smash_flag_overrides args)) ''HOOK_SMASH_TRANSPORTS_JSON'' = None"
    by (simp add: map_of_eq_None_iff smash_flag_overrides_def image_Un flag_override_key)
  then have "map_of (rev (ov @ smash_flag_overrides args)) ''HOOK_SMASH_TRANSPORTS_JSON'' = Some tt"
    by (simp only: map_of_rev_append transports_override [OF ov assms(5)])
  then show ?thesis
    unfolding vars by (rule merged_env_override) (simp add: reserved_key_def)
qed

lemma smash_from_env_plan:
  assumes "smash_from_env sc e = Inr c" "parse_routes_json_env sc e = Inr rs" "parse_adapters_json_env sc e = Inr as"
    and "parse_transports_json_env sc e = Inr ts" "rs \<noteq> []" "as \<noteq> []"
  shows "smash_routes c = rs \<and> smash_adapters c = as \<and> smash_transports c = ts"
proof -
  obtain plan topics no_output sink topics_env where
    p: "read_smash_plan e topics_env rs as ts = Inr plan" and r: "read_smash_config e topics plan no_output sink = Inr c"
    using assms(1-4) by (auto simp: smash_from_env_def Let_def and_then_Inr_iff split: if_splits)
  have "plan = (rs, as, ts, False)" using p assms(5,6) by (simp add: read_smash_plan_def)
  with r show ?thesis by (auto simp: read_smash_config_def and_then_Inr_iff)
qed

text \<open>C9. The consumer runs the contract: when the tool starts the consumer for a profile with outputs and
  routes, and the JSON lists it passes on survive, then a consumer that comes up in that environment has
  exactly the adapters, routes and transports the contract yields, whatever else is in the environment.\<close>

theorem launched_consumer_runs_contract:
  assumes "smash_launch h lc ctx args = Inr (spec, vars)" "ctx_contract ctx = Some contract"
    and "resolve_active_smash_contract lc ctx contract = Inr active" "as_adapters active \<noteq> []" "as_routes active \<noteq> []"
    and "json_survives (ser_smash_adapters lc) (de_smash_adapters sc) (as_adapters active)"
    and "json_survives (ser_smash_routes lc) (de_smash_routes sc) (as_routes active)"
    and "json_survives (ser_smash_transports lc) (de_smash_transports sc) (as_transports active)"
    and "smash_from_env sc (map_of vars) = Inr c"
  shows "smash_routes c = as_routes active \<and> smash_adapters c = as_adapters active \<and> smash_transports c = as_transports active"
proof -
  obtain ta tr tt where
    ta: "ser_smash_adapters lc (as_adapters active) = Inr ta" "\<not> blank ta" "de_smash_adapters sc ta = Some (as_adapters active)"
    and tr: "ser_smash_routes lc (as_routes active) = Inr tr" "\<not> blank tr" "de_smash_routes sc tr = Some (as_routes active)"
    and tt: "ser_smash_transports lc (as_transports active) = Inr tt" "\<not> blank tt"
      "de_smash_transports sc tt = Some (as_transports active)"
    using assms(6-8) unfolding json_survives_iff by blast
  have "as_adapters active \<noteq> [] \<or> as_allow_no_output active" using assms(4) by blast
  note vars = smash_launch_json [OF assms(1-3) this ta(1) tr(1)] transports_launched [OF assms(1-4) tt(1)]
  show ?thesis
    by (rule smash_from_env_plan [OF assms(9) _ _ _ assms(5,4)])
       (simp_all add: parse_routes_json_env_def parse_adapters_json_env_def parse_transports_json_env_def
          json_list_env_def vars ta(2,3) tr(2,3) tt(2,3))
qed

definition demo_pair :: "launch_crates \<times> smash_crates" where
  "demo_pair =
     (demo_launch_crates,
      \<lparr>de_smash_routes = \<lambda>_. Some (as_routes demo_active), de_smash_adapters = \<lambda>_. Some (as_adapters demo_active),
       de_smash_transports = \<lambda>_. Some (as_transports demo_active)\<rparr>)"

definition demo_smash_host :: host where
  "demo_smash_host = demo_host\<lparr>host_which := \<lambda>program. program = ''kafka-openclaw-hook''\<rparr>"

definition demo_smash_vars :: "(string \<times> string) list" where
  "demo_smash_vars = snd (projr (smash_launch demo_smash_host demo_launch_crates demo_context no_smash_args))"

lemma demo_smash_launched:
  "smash_launch demo_smash_host demo_launch_crates demo_context no_smash_args =
     Inr (fst (projr (smash_launch demo_smash_host demo_launch_crates demo_context no_smash_args)), demo_smash_vars)"
proof -
  have "\<not> isl (smash_launch demo_smash_host demo_launch_crates demo_context no_smash_args)" by code_simp
  from projr_eq [OF this] show ?thesis by (simp add: demo_smash_vars_def)
qed

theorem launched_consumer_runs_contract_witness:
  "smash_adapters (projr (smash_from_env (snd demo_pair) (map_of demo_smash_vars))) = as_adapters demo_active"
proof -
  have c: "ctx_contract demo_context = Some embedded_default_contract" by (simp add: demo_context_def)
  have ne: "as_adapters demo_active \<noteq> []" "as_routes demo_active \<noteq> []" by code_simp+
  have loads: "\<not> isl (smash_from_env (snd demo_pair) (map_of demo_smash_vars))" by code_simp
  have "\<not> blank ''[]''" by code_simp
  then have "json_survives (ser_smash_adapters demo_launch_crates) (de_smash_adapters (snd demo_pair)) (as_adapters demo_active)"
    "json_survives (ser_smash_routes demo_launch_crates) (de_smash_routes (snd demo_pair)) (as_routes demo_active)"
    "json_survives (ser_smash_transports demo_launch_crates) (de_smash_transports (snd demo_pair)) (as_transports demo_active)"
    by (simp_all add: json_survives_def demo_launch_crates_def demo_pair_def)
  from launched_consumer_runs_contract [OF demo_smash_launched c demo_active_resolved ne this projr_eq [OF loads]]
  show ?thesis by simp
qed

end
